theory Spec2Isabelle
  imports Complex_Main
begin

section \<open>Errors and tensor primitives\<close>

text \<open>
  Every exception the Python source can raise on the modelled paths is a value of
  \<open>error\<close>; a fallible operation returns \<open>error + 'a\<close> with \<open>Inl\<close> for the raise.
\<close>

datatype error =
    RuntimeError string
  | KeyError string
  | DGLError string
  | IndexError
  | AttributeError string
  | ValueError string
  | TypeError string
  | Exception string

text \<open>\<open>torch.arange(n)\<close> for a count \<open>n\<close>.\<close>

definition arange :: "nat \<Rightarrow> nat list" where
  "arange n = [0..<n]"

text \<open>\<open>torch.repeat_interleave(xs, k)\<close>: every element repeated \<open>k\<close> times in place.\<close>

definition repeat_interleave :: "'a list \<Rightarrow> nat \<Rightarrow> 'a list" where
  "repeat_interleave xs k = concat (map (replicate k) xs)"

text \<open>\<open>torch.cat\<close> of a Python list of 1-d tensors; an empty list raises.\<close>

definition cat :: "'a list list \<Rightarrow> error + 'a list" where
  "cat ts = (if ts = [] then Inl (RuntimeError ''torch.cat(): expected a non-empty list of Tensors'')
             else Inr (concat ts))"

section \<open>The pairwise index cache (\<open>QM9Dataset.get_pairwise\<close>)\<close>

type_synonym pairs = "nat list \<times> nat list"

text \<open>
  The body of the \<open>else\<close> branch. \<open>n_atoms - 1\<close> is negative for \<open>n_atoms = 0\<close>, and
  the outer \<open>torch.cat\<close> then receives an empty list: the call raises.
\<close>

definition compute_pairwise :: "nat \<Rightarrow> error + pairs" where
  "compute_pairwise n_atoms =
     (if n_atoms = 0 then Inl (RuntimeError ''torch.cat(): expected a non-empty list of Tensors'')
      else
        (let src = repeat_interleave (arange n_atoms) (n_atoms - 1) in
         case cat (map (\<lambda>idx. take idx (arange n_atoms) @ drop (idx + 1) (arange n_atoms))
                       [0..<n_atoms]) of
           Inl e \<Rightarrow> Inl e
         | Inr dst \<Rightarrow> Inr (src, dst)))"

text \<open>
  The argument \<open>n_atoms\<close>. Every call site passes an element of the one-dimensional tensor
  \<open>self.meta_dict['n_atoms']\<close>: the loop variable of \<open>enumerate\<close> over it in \<open>__init__\<close>,
  or \<open>self.meta_dict['n_atoms'][idx]\<close> in \<open>__getitem__\<close>. Such an element is a
  zero-dimensional tensor, and a new tensor object every time it is taken. A tensor is
  hashed by its identity, so as keys of a dictionary two tensors are the same key exactly
  when they are the same object, whatever their values. The model gives a zero-dimensional
  tensor its identity and its value; the value of a tensor object is never changed here.
\<close>

datatype tensor0 = Tensor0 (tensor_id: nat) (tensor_value: nat)

text \<open>
  \<open>get_pairwise\<close> reads and writes the dictionary \<open>self.pairwise\<close>; the model passes the
  dictionary in (as \<open>pw\<close>) and returns it updated. The key is the tensor object, the
  arithmetic of the \<open>else\<close> branch uses its value.
\<close>

definition get_pairwise :: "(tensor0 \<rightharpoonup> pairs) \<Rightarrow> tensor0
     \<Rightarrow> error + (pairs \<times> (tensor0 \<rightharpoonup> pairs))" where
  "get_pairwise pw n_atoms =
     (case pw n_atoms of
        Some p \<Rightarrow> Inr (p, pw)
      | None \<Rightarrow>
          (case compute_pairwise (tensor_value n_atoms) of
             Inl e \<Rightarrow> Inl e
           | Inr p \<Rightarrow> Inr (p, pw(n_atoms \<mapsto> p))))"

text \<open>
  The dictionary starts empty in \<open>__init__\<close> and only \<open>get_pairwise\<close> writes to it, so
  every entry is the value computed for the value of its key.
\<close>

definition pairwise_ok :: "(tensor0 \<rightharpoonup> pairs) \<Rightarrow> bool" where
  "pairwise_ok pw = (\<forall>k p. pw k = Some p \<longrightarrow> compute_pairwise (tensor_value k) = Inr p)"

text \<open>
  Two calls in a row, the first on the empty dictionary of a new dataset: what each call
  returns, what the dictionary holds for the second argument when the second call starts
  (\<open>None\<close>: the lookup misses and the \<open>else\<close> branch runs again), and the entries of both
  arguments afterwards.
\<close>

record two_calls_outcome =
  first_result :: pairs
  found_for_second :: "pairs option"
  second_result :: pairs
  entry_of_first :: "pairs option"
  entry_of_second :: "pairs option"

definition two_calls :: "tensor0 \<Rightarrow> tensor0 \<Rightarrow> error + two_calls_outcome" where
  "two_calls a b =
     (case get_pairwise Map.empty a of
        Inl e \<Rightarrow> Inl e
      | Inr (p1, pw1) \<Rightarrow>
          (case get_pairwise pw1 b of
             Inl e \<Rightarrow> Inl e
           | Inr (p2, pw2) \<Rightarrow>
               Inr \<lparr>first_result = p1, found_for_second = pw1 b, second_result = p2,
                    entry_of_first = pw2 a, entry_of_second = pw2 b\<rparr>))"

text \<open>The order the specification fixes: node 0's out-edges, then node 1's, and so on.\<close>

definition out_edges :: "nat \<Rightarrow> nat \<Rightarrow> (nat \<times> nat) list" where
  "out_edges n i = map (Pair i) (filter (\<lambda>j. j \<noteq> i) [0..<n])"

definition complete_pairs :: "nat \<Rightarrow> (nat \<times> nat) list" where
  "complete_pairs n = concat (map (out_edges n) [0..<n])"

section \<open>Regression targets: selection and normalization (\<open>QM9Dataset.__init__\<close>)\<close>

text \<open>
  Tensor entries are floats. A float is modelled as a real number, or \<open>None\<close> when the
  float operation yields a non-finite value (not-a-number or an infinity): division by
  zero does not raise in the source, it stores such a value. Arithmetic keeps \<open>None\<close>.
\<close>

type_synonym fnum = "real option"

definition fsub :: "fnum \<Rightarrow> fnum \<Rightarrow> fnum" where
  "fsub a b = (case (a, b) of (Some x, Some y) \<Rightarrow> Some (x - y) | _ \<Rightarrow> None)"

definition fadd :: "fnum \<Rightarrow> fnum \<Rightarrow> fnum" where
  "fadd a b = (case (a, b) of (Some x, Some y) \<Rightarrow> Some (x + y) | _ \<Rightarrow> None)"

definition fmul :: "fnum \<Rightarrow> fnum \<Rightarrow> fnum" where
  "fmul a b = (case (a, b) of (Some x, Some y) \<Rightarrow> Some (x * y) | _ \<Rightarrow> None)"

definition fdiv :: "fnum \<Rightarrow> fnum \<Rightarrow> fnum" where
  "fdiv a b = (case (a, b) of (Some x, Some y) \<Rightarrow> if y = 0 then None else Some (x / y)
               | _ \<Rightarrow> None)"

text \<open>
  The square root of a float. It is the real square root; evaluation of concrete inputs
  keeps it as a symbol.
\<close>

definition float_sqrt :: "real \<Rightarrow> real" where
  "float_sqrt x = sqrt x"

declare float_sqrt_def [code del]

text \<open>The keys of \<open>self.unit_conversion\<close>, in insertion order.\<close>

definition unit_conversion_keys :: "string list" where
  "unit_conversion_keys =
     [''A'', ''B'', ''C'', ''mu'', ''alpha'', ''homo'', ''lumo'', ''gap'', ''r2'', ''zpve'',
      ''u0'', ''u298'', ''h298'', ''g298'', ''cv'',
      ''u0_atom'', ''u298_atom'', ''h298_atom'', ''g298_atom'']"

definition default_target_tasks :: "string list" where
  "default_target_tasks =
     [''mu'', ''alpha'', ''homo'', ''lumo'', ''gap'', ''r2'', ''zpve'',
      ''u0'', ''u298'', ''h298'', ''g298'', ''cv'']"

text \<open>\<open>list.index\<close>: position of the first occurrence (the callers check membership first).\<close>

fun index_of :: "'a list \<Rightarrow> 'a \<Rightarrow> nat" where
  "index_of [] y = 0"
| "index_of (x # xs) y = (if x = y then 0 else Suc (index_of xs y))"

text \<open>
  \<open>t.index_select(dim=1, index=idxs)\<close> on a table given by its rows; an index beyond the
  row width raises.
\<close>

definition index_select_cols :: "'a list list \<Rightarrow> nat list \<Rightarrow> error + 'a list list" where
  "index_select_cols t idxs =
     (if \<exists>row \<in> set t. \<exists>i \<in> set idxs. length row \<le> i
      then Inl (RuntimeError ''index out of range in self'')
      else Inr (map (\<lambda>row. map (\<lambda>i. row ! i) idxs) t))"

definition column :: "'a list list \<Rightarrow> nat \<Rightarrow> 'a list" where
  "column t j = map (\<lambda>row. row ! j) t"

text \<open>\<open>torch.mean\<close> over one column: not-a-number for an empty column.\<close>

definition mean_col :: "real list \<Rightarrow> fnum" where
  "mean_col xs = fdiv (Some (sum_list xs)) (Some (real (length xs)))"

text \<open>
  \<open>torch.std\<close> over one column (Bessel's correction is the default): the square root of
  the squared deviations' sum over \<open>N - 1\<close>; not-a-number for fewer than two rows.
\<close>

definition std_col :: "real list \<Rightarrow> fnum" where
  "std_col xs =
     (case mean_col xs of
        None \<Rightarrow> None
      | Some m \<Rightarrow>
          (case fdiv (Some (sum_list (map (\<lambda>x. (x - m)\<^sup>2) xs))) (Some (real (length xs) - 1)) of
             None \<Rightarrow> None
           | Some v \<Rightarrow> Some (float_sqrt v)))"

record target_store =
  task_indices :: "nat list"
  targets :: "fnum list list"
  targets_mean :: "fnum list"
  targets_std :: "fnum list"

text \<open>
  The default and the validation of \<open>target_tasks\<close>: \<open>None\<close> or an empty list
  stands for the default list, and every task has to be a key of \<open>unit_conversion\<close>.
\<close>

definition resolve_target_tasks :: "string list option \<Rightarrow> error + string list" where
  "resolve_target_tasks target_tasks =
     (let tasks = (case target_tasks of None \<Rightarrow> default_target_tasks
                   | Some [] \<Rightarrow> default_target_tasks
                   | Some ts \<Rightarrow> ts) in
      if \<exists>task \<in> set tasks. task \<notin> set unit_conversion_keys
      then Inl (Exception ''AssertionError'')
      else Inr tasks)"

text \<open>
  The target part of \<open>__init__\<close>: column selection in the requested order, the
  statistics over the whole table, and the normalization when \<open>normalize\<close> (here
  \<open>normalize_flag\<close>) is set. \<open>raw\<close> is \<open>data_dict['targets']\<close>.
\<close>

definition init_targets :: "string list option \<Rightarrow> bool \<Rightarrow> real list list \<Rightarrow> error + target_store" where
  "init_targets target_tasks normalize_flag raw =
     (case resolve_target_tasks target_tasks of
        Inl e \<Rightarrow> Inl e
      | Inr tasks \<Rightarrow>
        (let idxs = map (index_of unit_conversion_keys) tasks in
         case index_select_cols raw idxs of
           Inl e \<Rightarrow> Inl e
         | Inr sel \<Rightarrow>
             (let k = length idxs;
                  means = map (\<lambda>j. mean_col (column sel j)) [0..<k];
                  stds = map (\<lambda>j. std_col (column sel j)) [0..<k];
                  tgt = (if normalize_flag
                         then map (\<lambda>row. map (\<lambda>j. fdiv (fsub (Some (row ! j)) (means ! j)) (stds ! j))
                                               [0..<k]) sel
                         else map (map Some) sel)
              in Inr \<lparr>task_indices = idxs, targets = tgt,
                      targets_mean = means, targets_std = stds\<rparr>)))"

text \<open>
  Modelled from the spec: the consumer that maps a prediction back to real units is not
  part of the dataset source; the specification gives it as \<open>prediction * std + mean\<close>
  with the stored per-property statistics.
\<close>

definition denormalize :: "target_store \<Rightarrow> fnum list \<Rightarrow> fnum list" where
  "denormalize st prediction =
     map (\<lambda>j. fadd (fmul (prediction ! j) (targets_std st ! j)) (targets_mean st ! j))
         [0..<length prediction]"

section \<open>Graphs of the graph library (\<open>dgl\<close>)\<close>

text \<open>
  The source builds and merges graphs through the library \<open>dgl\<close>. A graph has nodes
  \<open>0..<num_nodes\<close>, directed edges in insertion order (edge \<open>k\<close> goes from
  \<open>edges_src ! k\<close> to \<open>edges_dst ! k\<close>), named node and edge attributes with one row per
  node or edge, and the sizes of the graphs it was batched from. The row type \<open>'f\<close> is
  left open: the library moves rows around and never looks inside. What the library checks
  about the shape and the element type of rows is not part of the model; the number of
  rows is.
\<close>

record 'f graph =
  num_nodes :: nat
  edges_src :: "nat list"
  edges_dst :: "nat list"
  ndata :: "(string \<times> 'f list) list"
  edata :: "(string \<times> 'f list) list"
  batch_num_nodes :: "nat list"
  batch_num_edges :: "nat list"

definition number_of_nodes :: "'f graph \<Rightarrow> nat" where
  "number_of_nodes g = num_nodes g"

definition number_of_edges :: "'f graph \<Rightarrow> nat" where
  "number_of_edges g = length (edges_src g)"

text \<open>Attribute dictionaries: lookup raises on a missing key, assignment replaces or appends.\<close>

definition lookup :: "(string \<times> 'v) list \<Rightarrow> string \<Rightarrow> error + 'v" where
  "lookup d k = (case map_of d k of None \<Rightarrow> Inl (KeyError k) | Some v \<Rightarrow> Inr v)"

fun assign :: "(string \<times> 'v) list \<Rightarrow> string \<Rightarrow> 'v \<Rightarrow> (string \<times> 'v) list" where
  "assign [] k v = [(k, v)]"
| "assign ((k', v') # d) k v = (if k' = k then (k, v) # d else (k', v') # assign d k v)"

text \<open>
  \<open>dgl.graph((src, dst), num_nodes=n)\<close> and \<open>dgl.graph((src, dst))\<close>. Without
  \<open>num_nodes\<close> the node count is the largest endpoint plus one (zero without edges);
  with it, an endpoint outside \<open>0..<n\<close> raises.
\<close>

definition infer_num_nodes :: "nat list \<Rightarrow> nat list \<Rightarrow> nat" where
  "infer_num_nodes src dst = fold (\<lambda>v n. max (Suc v) n) (src @ dst) 0"

definition dgl_graph :: "nat list \<Rightarrow> nat list \<Rightarrow> nat option \<Rightarrow> error + 'f graph" where
  "dgl_graph src dst n_opt =
     (if length src \<noteq> length dst then Inl (DGLError ''src and dst differ in length'')
      else
        (let n = (case n_opt of None \<Rightarrow> infer_num_nodes src dst | Some n \<Rightarrow> n) in
         if n < infer_num_nodes src dst then Inl (DGLError ''num_nodes too small for the edges'')
         else Inr \<lparr>num_nodes = n, edges_src = src, edges_dst = dst, ndata = [], edata = [],
                   batch_num_nodes = [n], batch_num_edges = [length src]\<rparr>))"

text \<open>\<open>g.ndata[k] = rows\<close> and \<open>g.edata[k] = rows\<close>: one row per node or edge, else raise.\<close>

definition set_ndata :: "string \<Rightarrow> 'f list \<Rightarrow> 'f graph \<Rightarrow> error + 'f graph" where
  "set_ndata k rows g =
     (if length rows \<noteq> num_nodes g then Inl (DGLError ''expect one row per node'')
      else Inr (g\<lparr>ndata := assign (ndata g) k rows\<rparr>))"

definition set_edata :: "string \<Rightarrow> 'f list \<Rightarrow> 'f graph \<Rightarrow> error + 'f graph" where
  "set_edata k rows g =
     (if length rows \<noteq> number_of_edges g then Inl (DGLError ''expect one row per edge'')
      else Inr (g\<lparr>edata := assign (edata g) k rows\<rparr>))"

text \<open>
  \<open>dgl.batch\<close>: the disjoint union. Node ids of the \<open>i\<close>-th graph are shifted by the node
  counts of the graphs before it; attributes are concatenated in graph order. An empty
  list raises, and so do graphs that do not carry the same attribute names.
\<close>

fun shifted :: "nat \<Rightarrow> (nat \<times> nat list) list \<Rightarrow> nat list" where
  "shifted off [] = []"
| "shifted off ((n, ids) # rest) = map (\<lambda>v. off + v) ids @ shifted (off + n) rest"

definition cat_attr :: "(string \<times> 'f list) list list \<Rightarrow> string \<Rightarrow> 'f list" where
  "cat_attr ds k = concat (map (\<lambda>d. case map_of d k of None \<Rightarrow> [] | Some rows \<Rightarrow> rows) ds)"

definition same_keys :: "(string \<times> 'v) list list \<Rightarrow> bool" where
  "same_keys ds = (\<forall>d \<in> set ds. set (map fst d) = set (map fst (hd ds)))"

definition dgl_batch :: "'f graph list \<Rightarrow> error + 'f graph" where
  "dgl_batch gs =
     (if gs = [] then Inl (DGLError ''The input list must not be empty'')
      else if \<not> same_keys (map ndata gs) \<or> \<not> same_keys (map edata gs)
      then Inl (DGLError ''Expect graphs to have the same attribute names'')
      else Inr \<lparr>num_nodes = sum_list (map num_nodes gs),
                edges_src = shifted 0 (map (\<lambda>g. (num_nodes g, edges_src g)) gs),
                edges_dst = shifted 0 (map (\<lambda>g. (num_nodes g, edges_dst g)) gs),
                ndata = map (\<lambda>k. (k, cat_attr (map ndata gs) k)) (remdups (map fst (ndata (hd gs)))),
                edata = map (\<lambda>k. (k, cat_attr (map edata gs) k)) (remdups (map fst (edata (hd gs)))),
                batch_num_nodes = concat (map batch_num_nodes gs),
                batch_num_edges = concat (map batch_num_edges gs)\<rparr>)"

text \<open>
  \<open>g.remove_nodes(nids)\<close>: removes the listed nodes (repetitions count once) and every
  edge touching one of them, renumbers the remaining nodes in order and drops the rows of
  what was removed. An id outside the graph raises; an empty list changes nothing.
\<close>

definition keep_rows :: "bool list \<Rightarrow> 'a list \<Rightarrow> 'a list" where
  "keep_rows keep rows = map snd (filter fst (zip keep rows))"

definition remove_nodes :: "nat list \<Rightarrow> 'f graph \<Rightarrow> error + 'f graph" where
  "remove_nodes nids g =
     (if nids = [] then Inr g
      else if \<exists>v \<in> set nids. num_nodes g \<le> v then Inl (DGLError ''node index out of range'')
      else
        (let kept = filter (\<lambda>v. v \<notin> set nids) [0..<num_nodes g];
             nmask = map (\<lambda>v. v \<notin> set nids) [0..<num_nodes g];
             emask = map (\<lambda>(s, d). s \<notin> set nids \<and> d \<notin> set nids) (zip (edges_src g) (edges_dst g));
             renumber = (\<lambda>v. length (filter (\<lambda>u. u < v) kept));
             src' = map renumber (keep_rows emask (edges_src g));
             dst' = map renumber (keep_rows emask (edges_dst g))
         in Inr \<lparr>num_nodes = length kept, edges_src = src', edges_dst = dst',
                  ndata = map (\<lambda>(k, rows). (k, keep_rows nmask rows)) (ndata g),
                  edata = map (\<lambda>(k, rows). (k, keep_rows emask rows)) (edata g),
                  batch_num_nodes = [length kept], batch_num_edges = [length src']\<rparr>))"

text \<open>The graph of a batch that node \<open>v\<close> belongs to, from the sizes of the batched graphs.\<close>

fun segment_of :: "nat list \<Rightarrow> nat \<Rightarrow> nat" where
  "segment_of [] v = 0"
| "segment_of (n # ns) v = (if v < n then 0 else Suc (segment_of ns (v - n)))"

text \<open>
  A well-formed graph: as many sources as destinations, the batch sizes add up to the
  node count, every endpoint is a node, and no edge leaves the graph it was batched from.
\<close>

definition wf_graph :: "'f graph \<Rightarrow> bool" where
  "wf_graph g =
     (length (edges_src g) = length (edges_dst g)
      \<and> sum_list (batch_num_nodes g) = num_nodes g
      \<and> (\<forall>(s, d) \<in> set (zip (edges_src g) (edges_dst g)).
            s < num_nodes g \<and> d < num_nodes g
            \<and> segment_of (batch_num_nodes g) s = segment_of (batch_num_nodes g) d))"

text \<open>
  The edges of one graph inside a batch: endpoints within the graph's block of node ids
  \<open>off..<off + n\<close>, source and destination in the same batched graph.
\<close>

definition edges_within :: "nat list \<Rightarrow> nat \<Rightarrow> nat \<Rightarrow> nat list \<Rightarrow> nat list \<Rightarrow> bool" where
  "edges_within sizes off n src dst =
     (length src = length dst
      \<and> (\<forall>(s, d) \<in> set (zip src dst).
            off \<le> s \<and> s < off + n \<and> off \<le> d \<and> d < off + n
            \<and> segment_of sizes (s - off) = segment_of sizes (d - off)))"

section \<open>Batch assembly (\<open>custom_collate.py\<close>)\<close>

text \<open>
  A sample is the tuple the dataset returns: the 2D graph, the 3D graph and the entries
  after them. \<open>zip(*batch)\<close> regroups the samples by position; it stops at the shortest
  sample, and unpacking its result for an empty batch raises.
\<close>

definition columns :: "'t list list \<Rightarrow> 't list list" where
  "columns extras = map (\<lambda>c. map (\<lambda>e. e ! c) extras) [0..<min_list (map length extras)]"

text \<open>
  \<open>torch.stack(*targets)\<close> unpacks the list of target columns into the arguments of
  \<open>torch.stack\<close>: one column is stacked along a new leading dimension, a second column
  would be taken for the dimension argument.
\<close>

definition stack_star :: "'t list list \<Rightarrow> error + 't list" where
  "stack_star cols = (case cols of [c] \<Rightarrow> Inr c | _ \<Rightarrow> Inl (TypeError ''stack(): argument dim''))"

definition return_with_targets ::
  "'a \<Rightarrow> 'b \<Rightarrow> 't list list \<Rightarrow> error + ('a \<times> 'b \<times> 't list option)" where
  "return_with_targets a b cols =
     (if cols \<noteq> [] then (case stack_star cols of Inl e \<Rightarrow> Inl e | Inr t \<Rightarrow> Inr (a, b, Some t))
      else Inr (a, b, None))"

subsection \<open>\<open>NoisedDistancesCollate\<close>\<close>

text \<open>
  \<open>copy_graph.edata['w'] += torch.randn_like(...) * self.std\<close> on a deep copy. The noise
  is random: \<open>noise i j\<close> is the scaled noise drawn for edge \<open>j\<close> of copy \<open>i\<close>, and
  \<open>add\<close> is the addition of two rows.
\<close>

definition add_noise_w :: "('f \<Rightarrow> 'f \<Rightarrow> 'f) \<Rightarrow> (nat \<Rightarrow> nat \<Rightarrow> 'f) \<Rightarrow> nat \<Rightarrow> 'f graph \<Rightarrow> error + 'f graph" where
  "add_noise_w add noise i g =
     (case lookup (edata g) ''w'' of
        Inl e \<Rightarrow> Inl e
      | Inr w \<Rightarrow> set_edata ''w'' (map (\<lambda>(j, x). add x (noise i j)) (enumerate 0 w)) g)"

fun noised_copies ::
  "('f \<Rightarrow> 'f \<Rightarrow> 'f) \<Rightarrow> (nat \<Rightarrow> nat \<Rightarrow> 'f) \<Rightarrow> 'f graph \<Rightarrow> nat list \<Rightarrow> error + 'f graph list" where
  "noised_copies add noise g [] = Inr []"
| "noised_copies add noise g (i # rest) =
     (case add_noise_w add noise i g of
        Inl e \<Rightarrow> Inl e
      | Inr copy_graph \<Rightarrow>
          (case noised_copies add noise g rest of
             Inl e \<Rightarrow> Inl e
           | Inr copies \<Rightarrow> Inr (copy_graph # copies)))"

definition NoisedDistancesCollate_call ::
  "('f \<Rightarrow> 'f \<Rightarrow> 'f) \<Rightarrow> (nat \<Rightarrow> nat \<Rightarrow> 'f) \<Rightarrow> nat \<Rightarrow> ('f graph \<times> 'f graph \<times> 't list) list
     \<Rightarrow> error + ('f graph \<times> 'f graph \<times> 't list option)" where
  "NoisedDistancesCollate_call add noise num_noised batch =
     (if batch = [] then Inl (ValueError ''not enough values to unpack'')
      else
        case dgl_batch (map fst batch) of
          Inl e \<Rightarrow> Inl e
        | Inr batched_graph \<Rightarrow>
        case dgl_batch (map (\<lambda>s. fst (snd s)) batch) of
          Inl e \<Rightarrow> Inl e
        | Inr batched_graph3d \<Rightarrow>
        case noised_copies add noise batched_graph3d [0..<num_noised] of
          Inl e \<Rightarrow> Inl e
        | Inr copies \<Rightarrow>
        case dgl_batch (batched_graph3d # copies) of
          Inl e \<Rightarrow> Inl e
        | Inr batched_noised \<Rightarrow>
            return_with_targets batched_graph batched_noised
              (columns (map (\<lambda>s. snd (snd s)) batch)))"

subsection \<open>\<open>ConformerCollate\<close>\<close>

text \<open>
  A row is a list of coordinates. \<open>torch.cat(conformers, dim=0)\<close> stacks the samples'
  conformer rows and raises when their widths differ; \<open>conformers[:, i*3:(i+1)*3]\<close>
  cuts columns \<open>3i, 3i+1, 3i+2\<close> out of every row (fewer where the row is shorter).
\<close>

definition cat_rows :: "'c list list list \<Rightarrow> error + 'c list list" where
  "cat_rows ts =
     (if ts = [] then Inl (RuntimeError ''torch.cat(): expected a non-empty list of Tensors'')
      else if \<exists>r \<in> set (concat ts). length r \<noteq> length (hd (concat ts))
      then Inl (RuntimeError ''Sizes of tensors must match except in dimension 0'')
      else Inr (concat ts))"

definition col_slice :: "nat \<Rightarrow> nat \<Rightarrow> 'c list list \<Rightarrow> 'c list list" where
  "col_slice lo hi rows = map (\<lambda>r. take (hi - lo) (drop lo r)) rows"

fun conformer_copies :: "'c list list \<Rightarrow> 'c list graph \<Rightarrow> nat list \<Rightarrow> error + 'c list graph list" where
  "conformer_copies conformers g [] = Inr []"
| "conformer_copies conformers g (i # rest) =
     (case set_ndata ''x'' (col_slice (i * 3) ((i + 1) * 3) conformers) g of
        Inl e \<Rightarrow> Inl e
      | Inr conformer_graph \<Rightarrow>
          (case conformer_copies conformers g rest of
             Inl e \<Rightarrow> Inl e
           | Inr copies \<Rightarrow> Inr (conformer_graph # copies)))"

definition ConformerCollate_call ::
  "nat \<Rightarrow> ('c list graph \<times> 'c list graph \<times> 'c list list \<times> 't list) list
     \<Rightarrow> error + ('c list graph \<times> 'c list graph \<times> 't list option)" where
  "ConformerCollate_call num_conformers batch =
     (if batch = [] then Inl (ValueError ''not enough values to unpack'')
      else
        case cat_rows (map (\<lambda>s. fst (snd (snd s))) batch) of
          Inl e \<Rightarrow> Inl e
        | Inr conformers \<Rightarrow>
        case dgl_batch (map (\<lambda>s. fst (snd s)) batch) of
          Inl e \<Rightarrow> Inl e
        | Inr batched_graph3d \<Rightarrow>
        case conformer_copies conformers batched_graph3d [1..<num_conformers] of
          Inl e \<Rightarrow> Inl e
        | Inr copies \<Rightarrow>
        case dgl_batch (batched_graph3d # copies) of
          Inl e \<Rightarrow> Inl e
        | Inr batched_conformers \<Rightarrow>
        case dgl_batch (map fst batch) of
          Inl e \<Rightarrow> Inl e
        | Inr batched_graph \<Rightarrow>
            return_with_targets batched_graph batched_conformers
              (columns (map (\<lambda>s. snd (snd (snd s))) batch)))"

subsection \<open>\<open>NodeDrop3dCollate\<close> and \<open>NodeDrop2dCollate\<close>\<close>

text \<open>
  \<open>remove_nodes\<close> changes the graph object it is called on, and the caller of the
  collate function still holds the objects it passed in. The graph objects therefore live
  in a store, a list indexed by object address, and a batch is a list of pairs of
  addresses (2D graph, 3D graph). The collate function returns the store as it is
  afterwards.

  The random source is a stream \<open>rand\<close> read at an increasing position:
  \<open>torch.randint(low=0, high=h)\<close> is the next element modulo \<open>h\<close>, and raises for
  \<open>h = 0\<close>, where the range is empty.
\<close>

definition randint :: "(nat \<Rightarrow> nat) \<Rightarrow> nat \<Rightarrow> nat \<Rightarrow> nat \<Rightarrow> error + (nat list \<times> nat)" where
  "randint rand pos high count =
     (if high = 0 then Inl (RuntimeError ''random_ expects from to be less than to'')
      else Inr (map (\<lambda>i. rand (pos + i) mod high) [0..<count], pos + count))"

text \<open>One round of the loop body, for the graph object at address \<open>a\<close>.\<close>

definition drop_step :: "nat \<Rightarrow> (nat \<Rightarrow> nat) \<Rightarrow> nat \<Rightarrow> 'f graph list \<Rightarrow> nat
     \<Rightarrow> error + ('f graph list \<times> nat)" where
  "drop_step num_drop rand a store pos =
     (if length store \<le> a then Inl (Exception ''no such object'')
      else
        case randint rand pos num_drop 1 of
          Inl e \<Rightarrow> Inl e
        | Inr (remove_number, pos1) \<Rightarrow>
            if hd remove_number > 0 then
              (case randint rand pos1 (number_of_nodes (store ! a)) (hd remove_number) of
                 Inl e \<Rightarrow> Inl e
               | Inr (remove_indices, pos2) \<Rightarrow>
                   (case remove_nodes remove_indices (store ! a) of
                      Inl e \<Rightarrow> Inl e
                    | Inr g' \<Rightarrow> Inr (store[a := g'], pos2)))
            else Inr (store, pos1))"

fun drop_loop :: "nat \<Rightarrow> (nat \<Rightarrow> nat) \<Rightarrow> nat list \<Rightarrow> 'f graph list \<Rightarrow> nat
     \<Rightarrow> error + ('f graph list \<times> nat)" where
  "drop_loop num_drop rand [] store pos = Inr (store, pos)"
| "drop_loop num_drop rand (a # rest) store pos =
     (case drop_step num_drop rand a store pos of
        Inl e \<Rightarrow> Inl e
      | Inr (store', pos') \<Rightarrow> drop_loop num_drop rand rest store' pos')"

text \<open>
  The position in the random stream at which the round for the \<open>k\<close>-th graph of the
  loop starts, when the first round starts at \<open>pos\<close>: a round reads the drop count and
  then as many node indices as the count says.
\<close>

fun draw_pos :: "nat \<Rightarrow> (nat \<Rightarrow> nat) \<Rightarrow> nat \<Rightarrow> nat \<Rightarrow> nat" where
  "draw_pos num_drop rand pos 0 = pos"
| "draw_pos num_drop rand pos (Suc k) =
     draw_pos num_drop rand (pos + 1 + rand pos mod num_drop) k"

definition deref_all :: "'f graph list \<Rightarrow> nat list \<Rightarrow> error + 'f graph list" where
  "deref_all store addrs =
     (if \<exists>a \<in> set addrs. length store \<le> a then Inl (Exception ''no such object'')
      else Inr (map (\<lambda>a. store ! a) addrs))"

definition batch_after_drop :: "'f graph list \<Rightarrow> (nat \<times> nat) list
     \<Rightarrow> error + ('f graph list \<times> 'f graph \<times> 'f graph)" where
  "batch_after_drop store batch =
     (case deref_all store (map fst batch) of
        Inl e \<Rightarrow> Inl e
      | Inr graphs \<Rightarrow>
      case deref_all store (map snd batch) of
        Inl e \<Rightarrow> Inl e
      | Inr graphs3d \<Rightarrow>
      case dgl_batch graphs of
        Inl e \<Rightarrow> Inl e
      | Inr batched_graph \<Rightarrow>
      case dgl_batch graphs3d of
        Inl e \<Rightarrow> Inl e
      | Inr batched_graph3d \<Rightarrow> Inr (store, batched_graph, batched_graph3d))"

definition NodeDrop3dCollate_call :: "nat \<Rightarrow> (nat \<Rightarrow> nat) \<Rightarrow> 'f graph list \<Rightarrow> (nat \<times> nat) list
     \<Rightarrow> error + ('f graph list \<times> 'f graph \<times> 'f graph)" where
  "NodeDrop3dCollate_call num_drop rand store batch =
     (if batch = [] then Inl (ValueError ''not enough values to unpack'')
      else
        case drop_loop num_drop rand (map snd batch) store 0 of
          Inl e \<Rightarrow> Inl e
        | Inr (store', pos) \<Rightarrow> batch_after_drop store' batch)"

definition NodeDrop2dCollate_call :: "nat \<Rightarrow> (nat \<Rightarrow> nat) \<Rightarrow> 'f graph list \<Rightarrow> (nat \<times> nat) list
     \<Rightarrow> error + ('f graph list \<times> 'f graph \<times> 'f graph)" where
  "NodeDrop2dCollate_call num_drop rand store batch =
     (if batch = [] then Inl (ValueError ''not enough values to unpack'')
      else
        case drop_loop num_drop rand (map fst batch) store 0 of
          Inl e \<Rightarrow> Inl e
        | Inr (store', pos) \<Rightarrow> batch_after_drop store' batch)"

text \<open>Inputs of the examples below: a three-atom chain and a random source.\<close>

definition chain3 :: "nat list graph" where
  "chain3 = \<lparr>num_nodes = 3, edges_src = [0, 1, 1, 2], edges_dst = [1, 0, 2, 1],
             ndata = [(''x'', [[0, 0, 0], [1, 0, 0], [2, 0, 0]])],
             edata = [(''w'', [[1], [1], [1], [1]])],
             batch_num_nodes = [3], batch_num_edges = [4]\<rparr>"

definition rand_ones :: "nat \<Rightarrow> nat" where
  "rand_ones i = 1"

definition add_rows :: "nat list \<Rightarrow> nat list \<Rightarrow> nat list" where
  "add_rows a b = map2 (+) a b"

definition noise_tens :: "nat \<Rightarrow> nat \<Rightarrow> nat list" where
  "noise_tens i j = [10 * (i + 1) + j]"

text \<open>
  The node positions of the batched conformers in the specification's words: replica
  \<open>i\<close> carries the \<open>i\<close>-th 3-wide slice of the conformer rows, for every \<open>i\<close> below the
  number of conformers.
\<close>

definition conformer_positions_spec :: "nat \<Rightarrow> 'c list list \<Rightarrow> 'c list list" where
  "conformer_positions_spec m conformers =
     concat (map (\<lambda>i. col_slice (i * 3) ((i + 1) * 3) conformers) [0..<m])"

definition chain3_conformers :: "nat list list" where
  "chain3_conformers = [[5, 5, 5, 6, 6, 6], [5, 5, 5, 6, 6, 6], [5, 5, 5, 6, 6, 6]]"

definition chain3_twice :: "nat list list \<Rightarrow> nat list list \<Rightarrow> nat list graph" where
  "chain3_twice x w =
     \<lparr>num_nodes = 6, edges_src = [0, 1, 1, 2, 3, 4, 4, 5], edges_dst = [1, 0, 2, 1, 4, 3, 5, 4],
      ndata = [(''x'', x)], edata = [(''w'', w)],
      batch_num_nodes = [3, 3], batch_num_edges = [4, 4]\<rparr>"

definition chain3_dropped :: "nat list graph" where
  "chain3_dropped = \<lparr>num_nodes = 2, edges_src = [], edges_dst = [],
                     ndata = [(''x'', [[0, 0, 0], [2, 0, 0]])], edata = [(''w'', [])],
                     batch_num_nodes = [2], batch_num_edges = [0]\<rparr>"

text \<open>A random source that is not constant, and what it leaves of two three-atom chains.\<close>

definition rand_succ :: "nat \<Rightarrow> nat" where
  "rand_succ i = Suc i"

definition chain3_no2 :: "nat list graph" where
  "chain3_no2 = \<lparr>num_nodes = 2, edges_src = [0, 1], edges_dst = [1, 0],
                 ndata = [(''x'', [[0, 0, 0], [1, 0, 0]])], edata = [(''w'', [[1], [1]])],
                 batch_num_nodes = [2], batch_num_edges = [2]\<rparr>"

definition dropped_twice :: "nat list graph" where
  "dropped_twice =
     \<lparr>num_nodes = 4, edges_src = [0, 1], edges_dst = [1, 0],
      ndata = [(''x'', [[0, 0, 0], [1, 0, 0], [0, 0, 0], [2, 0, 0]])],
      edata = [(''w'', [[1], [1]])],
      batch_num_nodes = [2, 2], batch_num_edges = [2, 0]\<rparr>"

section \<open>The dataset (\<open>QM9Dataset\<close>)\<close>

subsection \<open>Values, the stored tables and the dataset object\<close>

text \<open>
  Attribute rows of the dataset's graphs: integers (categorical features), floats and
  nested rows.
\<close>

datatype val = I int | F fnum | V "val list"

definition long_rows :: "int list list \<Rightarrow> val list" where
  "long_rows t = map (\<lambda>r. V (map I r)) t"

definition float_rows :: "real list list \<Rightarrow> val list" where
  "float_rows t = map (\<lambda>r. V (map (\<lambda>x. F (Some x)) r)) t"

text \<open>\<open>t[a:b]\<close> on the first dimension: Python slices never raise.\<close>

definition slice :: "nat \<Rightarrow> nat \<Rightarrow> 'a list \<Rightarrow> 'a list" where
  "slice a b t = take (b - a) (drop a t)"

text \<open>\<open>t[i]\<close> on a tensor with a non-negative index.\<close>

definition item_at :: "'a list \<Rightarrow> nat \<Rightarrow> error + 'a" where
  "item_at t i = (if i < length t then Inr (t ! i) else Inl IndexError)"

text \<open>The width of a two-dimensional tensor given by its rows.\<close>

definition width :: "'a list list \<Rightarrow> nat" where
  "width t = (case t of [] \<Rightarrow> 0 | r # _ \<Rightarrow> length r)"

text \<open>
  The heterogeneous graph of \<open>mol_complete_graph\<close>: one node type, the two edge relations
  \<open>bond\<close> and \<open>complete\<close>. \<open>dgl.heterograph\<close> takes the node count from the largest
  endpoint of any relation.
\<close>

record hetero =
  h_num_nodes :: nat
  bond_src :: "nat list"
  bond_dst :: "nat list"
  complete_src :: "nat list"
  complete_dst :: "nat list"
  h_ndata :: "(string \<times> val list) list"
  bond_edata :: "(string \<times> val list) list"

definition dgl_heterograph :: "pairs \<Rightarrow> pairs \<Rightarrow> error + hetero" where
  "dgl_heterograph bond_rel complete_rel =
     (if length (fst bond_rel) \<noteq> length (snd bond_rel) \<or> length (fst complete_rel) \<noteq> length (snd complete_rel)
      then Inl (DGLError ''src and dst differ in length'')
      else Inr \<lparr>h_num_nodes = max (infer_num_nodes (fst bond_rel) (snd bond_rel))
                                  (infer_num_nodes (fst complete_rel) (snd complete_rel)),
                bond_src = fst bond_rel, bond_dst = snd bond_rel,
                complete_src = fst complete_rel, complete_dst = snd complete_rel,
                h_ndata = [], bond_edata = []\<rparr>)"

definition set_h_ndata :: "string \<Rightarrow> val list \<Rightarrow> hetero \<Rightarrow> error + hetero" where
  "set_h_ndata k rows g =
     (if length rows \<noteq> h_num_nodes g then Inl (DGLError ''expect one row per node'')
      else Inr (g\<lparr>h_ndata := assign (h_ndata g) k rows\<rparr>))"

definition set_bond_edata :: "string \<Rightarrow> val list \<Rightarrow> hetero \<Rightarrow> error + hetero" where
  "set_bond_edata k rows g =
     (if length rows \<noteq> length (bond_src g) then Inl (DGLError ''expect one row per edge'')
      else Inr (g\<lparr>bond_edata := assign (bond_edata g) k rows\<rparr>))"

text \<open>What one access returns for one return type.\<close>

datatype item = Graph "val graph" | HeteroGraph hetero | Tensor "val list" | MolId nat | Smiles string

text \<open>The processed file \<open>qm9_processed.pt\<close>, as far as \<open>__init__\<close> reads it.\<close>

record data_dict =
  dd_atom_features :: "int list list"
  dd_edge_features :: "int list list"
  dd_coordinates :: "real list list"
  dd_edge_indices :: pairs
  dd_mol_id :: "nat list"
  dd_edge_slices :: "nat list"
  dd_atom_slices :: "nat list"
  dd_n_atoms :: "nat list"
  dd_eig_vals :: "fnum list list"
  dd_eig_vecs :: "fnum list list"
  dd_targets :: "real list list"

text \<open>
  What the dataset takes from code and data that are not in the dataset source: the
  feature dimension lists of the featurizer library (\<open>get_atom_feature_dims()\<close>,
  \<open>get_bond_feature_dims()\<close>), the radial-basis embedding module, the SMILES column
  of the raw table, and the uniform random draws of the sign flips.
\<close>

record env =
  atom_feature_dims :: "int list"
  bond_feature_dims :: "int list"
  dist_embedder :: "val list \<Rightarrow> val list"
  smiles_column :: "string list"
  uniform_draw :: "nat \<Rightarrow> real"

text \<open>
  The dataset object. Besides the attributes of \<open>self\<close> it has \<open>tensor_count\<close>, the
  number of zero-dimensional tensors taken out of \<open>n_atoms\<close> so far by the loops of
  \<open>__init__\<close> that call \<open>get_pairwise\<close> and by \<open>__getitem__\<close>: the next such tensor
  gets this number as its identity, so that it is an object none of the earlier ones is.
\<close>

record dataset =
  return_types :: "string list"
  device :: string
  dist_embedding :: bool
  prefetch_graphs :: bool
  transform :: "(real list list \<Rightarrow> real list list) option"
  features_tensor :: "int list list"
  e_features_tensor :: "int list list"
  coordinates :: "real list list"
  edge_indices :: pairs
  mol_id :: "nat list"
  edge_slices :: "nat list"
  atom_slices :: "nat list"
  n_atoms_tab :: "nat list"
  atom_padding_indices :: "int list"
  bond_padding_indices :: "int list"
  eig_vals :: "fnum list list option"
  eig_vecs :: "fnum list list option"
  smiles :: "string list option"
  mol_graphs :: "val graph list option"
  complete_graphs :: "val graph list option"
  mol_complete_graphs :: "hetero list option"
  pairwise_dict :: "tensor0 \<rightharpoonup> pairs"
  tensor_count :: nat
  target_data :: target_store

definition return_type_options :: "string list" where
  "return_type_options =
     [''mol_graph'', ''complete_graph'', ''mol_graph3d'', ''complete_graph3d'', ''san_graph'',
      ''mol_complete_graph'',
      ''se3Transformer_graph'', ''se3Transformer_graph3d'',
      ''pairwise_distances'', ''pairwise_distances_squared'',
      ''pairwise_indices'',
      ''raw_features'', ''coordinates'',
      ''dist_embedding'',
      ''mol_id'', ''targets'',
      ''one_hot_bond_types'', ''edge_indices'', ''smiles'', ''atomic_number_long'']"

subsection \<open>\<open>__init__\<close>\<close>

text \<open>
  The three prefetch loops of \<open>__init__\<close>, each over \<open>enumerate(n_atoms)\<close>. The loop
  variable \<open>n_atoms\<close> is a new zero-dimensional tensor in every round; in the two loops
  that pass it to \<open>get_pairwise\<close> the round for the first molecule gets the identity
  \<open>oid\<close>, the next one \<open>oid + 1\<close>, and so on.
\<close>

fun prefetch_mol_graphs :: "pairs \<Rightarrow> nat list \<Rightarrow> nat \<Rightarrow> nat list \<Rightarrow> error + val graph list" where
  "prefetch_mol_graphs ei es idx [] = Inr []"
| "prefetch_mol_graphs ei es idx (n_atoms # rest) =
     (case item_at es idx of Inl e \<Rightarrow> Inl e | Inr e_start \<Rightarrow>
      case item_at es (idx + 1) of Inl e \<Rightarrow> Inl e | Inr e_end \<Rightarrow>
      case dgl_graph (slice e_start e_end (fst ei)) (slice e_start e_end (snd ei)) (Some n_atoms) of
        Inl e \<Rightarrow> Inl e
      | Inr g \<Rightarrow>
      case prefetch_mol_graphs ei es (idx + 1) rest of
        Inl e \<Rightarrow> Inl e
      | Inr gs \<Rightarrow> Inr (g # gs))"

fun prefetch_complete_graphs :: "(tensor0 \<rightharpoonup> pairs) \<Rightarrow> nat \<Rightarrow> nat list
     \<Rightarrow> error + (val graph list \<times> (tensor0 \<rightharpoonup> pairs))" where
  "prefetch_complete_graphs pw oid [] = Inr ([], pw)"
| "prefetch_complete_graphs pw oid (n # rest) =
     (case get_pairwise pw (Tensor0 oid n) of Inl e \<Rightarrow> Inl e | Inr (p, pw1) \<Rightarrow>
      case dgl_graph (fst p) (snd p) None of Inl e \<Rightarrow> Inl e | Inr g \<Rightarrow>
      case prefetch_complete_graphs pw1 (Suc oid) rest of
        Inl e \<Rightarrow> Inl e
      | Inr (gs, pw2) \<Rightarrow> Inr (g # gs, pw2))"

fun prefetch_mol_complete_graphs :: "(tensor0 \<rightharpoonup> pairs) \<Rightarrow> nat \<Rightarrow> nat list
     \<Rightarrow> error + (hetero list \<times> (tensor0 \<rightharpoonup> pairs))" where
  "prefetch_mol_complete_graphs pw oid [] = Inr ([], pw)"
| "prefetch_mol_complete_graphs pw oid (n # rest) =
     (case get_pairwise pw (Tensor0 oid n) of Inl e \<Rightarrow> Inl e | Inr (p, pw1) \<Rightarrow>
      case dgl_heterograph p p of Inl e \<Rightarrow> Inl e | Inr g \<Rightarrow>
      case prefetch_mol_complete_graphs pw1 (Suc oid) rest of
        Inl e \<Rightarrow> Inl e
      | Inr (gs, pw2) \<Rightarrow> Inr (g # gs, pw2))"

text \<open>
  Which caches \<open>__init__\<close> builds depends on the prefetch flag and the return types. The
  two steps that call \<open>get_pairwise\<close> also give the number of tensors taken out of
  \<open>n_atoms\<close> up to then.
\<close>

definition init_mol_graphs :: "string list \<Rightarrow> bool \<Rightarrow> data_dict \<Rightarrow> error + val graph list option" where
  "init_mol_graphs rts prefetch dd =
     (if prefetch \<and> (\<exists>rt \<in> set [''mol_graph'', ''mol_graph3d'', ''se3Transformer_graph'',
                                    ''se3Transformer_graph3d'']. rt \<in> set rts)
      then (case prefetch_mol_graphs (dd_edge_indices dd) (dd_edge_slices dd) 0 (dd_n_atoms dd) of
              Inl e \<Rightarrow> Inl e | Inr gs \<Rightarrow> Inr (Some gs))
      else Inr None)"

definition init_complete_graphs :: "string list \<Rightarrow> bool \<Rightarrow> data_dict
     \<Rightarrow> error + (val graph list option \<times> (tensor0 \<rightharpoonup> pairs) \<times> nat)" where
  "init_complete_graphs rts prefetch dd =
     (if prefetch \<and> (''complete_graph'' \<in> set rts \<or> ''complete_graph3d'' \<in> set rts
                      \<or> ''san_graph'' \<in> set rts)
      then (case prefetch_complete_graphs Map.empty 0 (dd_n_atoms dd) of
              Inl e \<Rightarrow> Inl e | Inr (gs, pw) \<Rightarrow> Inr (Some gs, pw, length (dd_n_atoms dd)))
      else Inr (None, Map.empty, 0))"

definition init_mol_complete_graphs :: "string list \<Rightarrow> bool \<Rightarrow> (tensor0 \<rightharpoonup> pairs) \<Rightarrow> nat
     \<Rightarrow> data_dict \<Rightarrow> error + (hetero list option \<times> (tensor0 \<rightharpoonup> pairs) \<times> nat)" where
  "init_mol_complete_graphs rts prefetch pw oid dd =
     (if prefetch \<and> (''mol_complete_graph'' \<in> set rts \<or> ''mol_complete_graph3d'' \<in> set rts)
      then (case prefetch_mol_complete_graphs pw oid (dd_n_atoms dd) of
              Inl e \<Rightarrow> Inl e | Inr (gs, pw') \<Rightarrow> Inr (Some gs, pw', oid + length (dd_n_atoms dd)))
      else Inr (None, pw, oid))"

definition check_return_types :: "string list option \<Rightarrow> error + string list" where
  "check_return_types return_types_arg =
     (let rts = (case return_types_arg of None \<Rightarrow> [''mol_graph'', ''targets''] | Some l \<Rightarrow> l) in
      case find (\<lambda>rt. rt \<notin> set return_type_options) rts of
        Some rt \<Rightarrow> Inl (Exception (''return_type not supported: '' @ rt))
      | None \<Rightarrow> Inr rts)"

text \<open>
  The constructor. The processed file is taken as given (\<open>dd\<close>); the radial-basis
  embedder is built with six radial functions whatever \<open>num_radial\<close> says, and is part
  of \<open>env\<close>.
\<close>

definition QM9Dataset_init ::
  "env \<Rightarrow> string list option \<Rightarrow> string list option \<Rightarrow> bool \<Rightarrow> string \<Rightarrow> bool \<Rightarrow> bool
     \<Rightarrow> (real list list \<Rightarrow> real list list) option \<Rightarrow> data_dict \<Rightarrow> error + dataset" where
  "QM9Dataset_init ev return_types_arg target_tasks normalize_flag dev dist_emb_flag prefetch tf dd =
     (case check_return_types return_types_arg of Inl e \<Rightarrow> Inl e | Inr rts \<Rightarrow>
      case resolve_target_tasks target_tasks of Inl e \<Rightarrow> Inl e | Inr tasks \<Rightarrow>
      case init_mol_graphs rts prefetch dd of Inl e \<Rightarrow> Inl e | Inr mgs \<Rightarrow>
      case init_complete_graphs rts prefetch dd of Inl e \<Rightarrow> Inl e | Inr (cgs, pw1, oid1) \<Rightarrow>
      case init_mol_complete_graphs rts prefetch pw1 oid1 dd of
        Inl e \<Rightarrow> Inl e
      | Inr (mcgs, pw2, oid2) \<Rightarrow>
      case init_targets target_tasks normalize_flag (dd_targets dd) of
        Inl e \<Rightarrow> Inl e
      | Inr ts \<Rightarrow>
          Inr \<lparr>return_types = rts, device = dev, dist_embedding = dist_emb_flag,
                prefetch_graphs = prefetch, transform = tf,
                features_tensor = dd_atom_features dd,
                e_features_tensor = dd_edge_features dd,
                coordinates = dd_coordinates dd,
                edge_indices = dd_edge_indices dd,
                mol_id = dd_mol_id dd, edge_slices = dd_edge_slices dd,
                atom_slices = dd_atom_slices dd, n_atoms_tab = dd_n_atoms dd,
                atom_padding_indices = atom_feature_dims ev,
                bond_padding_indices = atom_feature_dims ev,
                eig_vals = (if ''san_graph'' \<in> set rts then Some (dd_eig_vals dd) else None),
                eig_vecs = (if ''san_graph'' \<in> set rts then Some (dd_eig_vecs dd) else None),
                smiles = (if ''smiles'' \<in> set rts then Some (smiles_column ev) else None),
                mol_graphs = mgs, complete_graphs = cgs, mol_complete_graphs = mcgs,
                pairwise_dict = pw2, tensor_count = oid2, target_data = ts\<rparr>)"

definition len :: "dataset \<Rightarrow> nat" where
  "len ds = length (mol_id ds)"

subsection \<open>The graph getters\<close>

text \<open>
  With prefetching the getters hand out the cached graph object, which exists only if
  \<open>__init__\<close> built that cache; without it they build a new graph. \<open>n_atoms\<close> is the
  tensor that \<open>__getitem__\<close> took out of the table.
\<close>

definition cached :: "string \<Rightarrow> 'g list option \<Rightarrow> nat \<Rightarrow> error + 'g" where
  "cached name cache idx =
     (case cache of None \<Rightarrow> Inl (AttributeError name) | Some gs \<Rightarrow> item_at gs idx)"

definition get_graph :: "dataset \<Rightarrow> nat \<Rightarrow> nat \<Rightarrow> nat \<Rightarrow> tensor0 \<Rightarrow> error + val graph" where
  "get_graph ds idx e_start e_end n_atoms =
     (if prefetch_graphs ds then cached ''mol_graphs'' (mol_graphs ds) idx
      else dgl_graph (slice e_start e_end (fst (edge_indices ds)))
                     (slice e_start e_end (snd (edge_indices ds)))
                     (Some (tensor_value n_atoms)))"

definition get_complete_graph :: "dataset \<Rightarrow> nat \<Rightarrow> tensor0
     \<Rightarrow> error + (val graph \<times> (tensor0 \<rightharpoonup> pairs))" where
  "get_complete_graph ds idx n_atoms =
     (if prefetch_graphs ds then
        (case cached ''complete_graphs'' (complete_graphs ds) idx of
           Inl e \<Rightarrow> Inl e | Inr g \<Rightarrow> Inr (g, pairwise_dict ds))
      else
        (case get_pairwise (pairwise_dict ds) n_atoms of
           Inl e \<Rightarrow> Inl e
         | Inr (p, pw) \<Rightarrow>
             (case dgl_graph (fst p) (snd p) None of Inl e \<Rightarrow> Inl e | Inr g \<Rightarrow> Inr (g, pw))))"

definition get_mol_complete_graph :: "dataset \<Rightarrow> nat \<Rightarrow> nat \<Rightarrow> nat \<Rightarrow> tensor0
     \<Rightarrow> error + (hetero \<times> (tensor0 \<rightharpoonup> pairs))" where
  "get_mol_complete_graph ds idx e_start e_end n_atoms =
     (if prefetch_graphs ds then
        (case cached ''mol_complete_graphs'' (mol_complete_graphs ds) idx of
           Inl e \<Rightarrow> Inl e | Inr g \<Rightarrow> Inr (g, pairwise_dict ds))
      else
        (case get_pairwise (pairwise_dict ds) n_atoms of
           Inl e \<Rightarrow> Inl e
         | Inr (p, pw) \<Rightarrow>
             (case dgl_heterograph (slice e_start e_end (fst (edge_indices ds)),
                                    slice e_start e_end (snd (edge_indices ds))) p of
                Inl e \<Rightarrow> Inl e | Inr g \<Rightarrow> Inr (g, pw))))"

subsection \<open>\<open>data_by_type\<close>\<close>

text \<open>
  Every graph branch starts with \<open>g = self.get_...(...).to(self.device)\<close> and then
  assigns attributes to \<open>g\<close>. \<open>to\<close> returns the graph object itself when the graph's
  device equals the requested one, and a copy otherwise; the prefetched graphs are built
  from the tables of the processed file, on the CPU. So with prefetching and the CPU as
  the dataset's device the branch writes to the cached object, and the model returns the
  dataset with that object updated -- also when the branch raises halfway. The device is
  modelled by its name.
\<close>

definition aliased :: "dataset \<Rightarrow> bool" where
  "aliased ds = (prefetch_graphs ds \<and> device ds = ''cpu'')"

text \<open>A sequence of statements on one object: after a raise the rest is skipped.\<close>

definition then_do :: "error option \<times> 's \<Rightarrow> ('s \<Rightarrow> error + 's) \<Rightarrow> error option \<times> 's" where
  "then_do st f =
     (case st of
        (Some e, s) \<Rightarrow> (Some e, s)
      | (None, s) \<Rightarrow> (case f s of Inl e \<Rightarrow> (Some e, s) | Inr s' \<Rightarrow> (None, s')))"

definition outcome :: "error option \<Rightarrow> item \<Rightarrow> error + item" where
  "outcome err it = (case err of Some e \<Rightarrow> Inl e | None \<Rightarrow> Inr it)"

definition finish_mol :: "dataset \<Rightarrow> nat \<Rightarrow> error option \<times> val graph \<Rightarrow> (error + item) \<times> dataset" where
  "finish_mol ds idx st =
     (outcome (fst st) (Graph (snd st)),
      if aliased ds then ds\<lparr>mol_graphs := map_option (\<lambda>gs. gs[idx := snd st]) (mol_graphs ds)\<rparr>
      else ds)"

definition finish_complete :: "dataset \<Rightarrow> nat \<Rightarrow> (tensor0 \<rightharpoonup> pairs) \<Rightarrow> error option \<times> val graph
     \<Rightarrow> (error + item) \<times> dataset" where
  "finish_complete ds idx pw st =
     (outcome (fst st) (Graph (snd st)),
      if aliased ds
      then ds\<lparr>complete_graphs := map_option (\<lambda>gs. gs[idx := snd st]) (complete_graphs ds),
               pairwise_dict := pw\<rparr>
      else ds\<lparr>pairwise_dict := pw\<rparr>)"

definition finish_mol_complete :: "dataset \<Rightarrow> nat \<Rightarrow> (tensor0 \<rightharpoonup> pairs) \<Rightarrow> error option \<times> hetero
     \<Rightarrow> (error + item) \<times> dataset" where
  "finish_mol_complete ds idx pw st =
     (outcome (fst st) (HeteroGraph (snd st)),
      if aliased ds
      then ds\<lparr>mol_complete_graphs := map_option (\<lambda>gs. gs[idx := snd st]) (mol_complete_graphs ds),
               pairwise_dict := pw\<rparr>
      else ds\<lparr>pairwise_dict := pw\<rparr>)"

text \<open>
  \<open>torch.norm(x[src] - x[dst], p=2, dim=-1).unsqueeze(-1)\<close>: one distance per edge.
\<close>

definition edge_distances :: "real list list \<Rightarrow> nat list \<Rightarrow> nat list \<Rightarrow> error + val list" where
  "edge_distances x src dst =
     (if \<exists>v \<in> set (src @ dst). length x \<le> v then Inl IndexError
      else Inr (map (\<lambda>(s, d). V [F (Some (float_sqrt (sum_list (map2 (\<lambda>a b. (a - b)\<^sup>2) (x ! s) (x ! d)))))])
                    (zip src dst)))"

text \<open>\<open>x[src] - x[dst]\<close>: one difference vector per edge.\<close>

definition edge_vectors :: "real list list \<Rightarrow> nat list \<Rightarrow> nat list \<Rightarrow> error + val list" where
  "edge_vectors x src dst =
     (if \<exists>v \<in> set (src @ dst). length x \<le> v then Inl IndexError
      else Inr (map (\<lambda>(s, d). V (map2 (\<lambda>a b. F (Some (a - b))) (x ! s) (x ! d))) (zip src dst)))"

text \<open>
  \<open>self.bond_padding_indices.clone().expand((n_atoms * n_atoms, -1))\<close> is a view of
  \<open>n_atoms * n_atoms\<close> rows onto the storage of the one padding row: all rows are the
  same memory. The indexed assignment \<open>e_features[bond_indices] = bond_features\<close> checks
  the indices and the shapes (the value rows must have the width of the target rows, or
  width one) and then writes every value row through the view, so that the shared row
  holds the value written last. \<open>expanded_put\<close> returns the shared row.
\<close>

definition expanded_put :: "int list \<Rightarrow> nat \<Rightarrow> nat list \<Rightarrow> int list list \<Rightarrow> nat \<Rightarrow> error + int list" where
  "expanded_put padding nrows idxs vals vwidth =
     (if \<exists>i \<in> set idxs. nrows \<le> i then Inl IndexError
      else if vwidth \<noteq> length padding \<and> vwidth \<noteq> 1
      then Inl (RuntimeError ''shape mismatch: value tensor cannot be broadcast to indexing result'')
      else if vals = [] then Inr padding
      else if vwidth = 1 then Inr (replicate (length padding) (hd (last vals)))
      else Inr (last vals))"

text \<open>\<open>e_features[src * n_atoms + dst]\<close> on that view.\<close>

definition expanded_get :: "int list \<Rightarrow> nat \<Rightarrow> nat list \<Rightarrow> error + val list" where
  "expanded_get row nrows idxs =
     (if \<exists>i \<in> set idxs. nrows \<le> i then Inl IndexError
      else Inr (map (\<lambda>i. V (map I row)) idxs))"

definition flat_index :: "nat \<Rightarrow> pairs \<Rightarrow> nat list" where
  "flat_index n_atoms p = map2 (\<lambda>s d. s * n_atoms + d) (fst p) (snd p)"

definition mol_edges :: "dataset \<Rightarrow> nat \<Rightarrow> nat \<Rightarrow> pairs" where
  "mol_edges ds e_start e_end =
     (slice e_start e_end (fst (edge_indices ds)), slice e_start e_end (snd (edge_indices ds)))"

definition set_d_rbf :: "env \<Rightarrow> val graph \<Rightarrow> error + val graph" where
  "set_d_rbf ev g =
     (case lookup (edata g) ''feat'' of
        Inl e \<Rightarrow> Inl e
      | Inr feat \<Rightarrow> set_edata ''d_rbf'' (dist_embedder ev feat) g)"

definition set_d :: "real list list \<Rightarrow> val graph \<Rightarrow> error + val graph" where
  "set_d x g =
     (case edge_distances x (edges_src g) (edges_dst g) of
        Inl e \<Rightarrow> Inl e
      | Inr d \<Rightarrow> set_edata ''d'' d g)"

text \<open>The branches, in the order of the source.\<close>

definition mol_graph_branch ::
  "dataset \<Rightarrow> nat \<Rightarrow> nat \<Rightarrow> nat \<Rightarrow> nat \<Rightarrow> tensor0 \<Rightarrow> (error + item) \<times> dataset" where
  "mol_graph_branch ds idx e_start e_end start n_atoms =
     (case get_graph ds idx e_start e_end n_atoms of
        Inl e \<Rightarrow> (Inl e, ds)
      | Inr g \<Rightarrow>
          finish_mol ds idx
            (then_do (then_do (then_do (None, g)
               (set_ndata ''feat'' (long_rows (slice start (start + tensor_value n_atoms) (features_tensor ds)))))
               (set_ndata ''x'' (float_rows (slice start (start + tensor_value n_atoms) (coordinates ds)))))
               (set_edata ''feat'' (long_rows (slice e_start e_end (e_features_tensor ds))))))"

definition mol_graph3d_branch ::
  "dataset \<Rightarrow> nat \<Rightarrow> nat \<Rightarrow> nat \<Rightarrow> nat \<Rightarrow> tensor0 \<Rightarrow> (error + item) \<times> dataset" where
  "mol_graph3d_branch ds idx e_start e_end start n_atoms =
     (case get_graph ds idx e_start e_end n_atoms of
        Inl e \<Rightarrow> (Inl e, ds)
      | Inr g \<Rightarrow>
          finish_mol ds idx
            (then_do (None, g)
               (set_ndata ''x'' (float_rows (slice start (start + tensor_value n_atoms) (coordinates ds))))))"

definition complete_graph_branch ::
  "env \<Rightarrow> dataset \<Rightarrow> nat \<Rightarrow> nat \<Rightarrow> nat \<Rightarrow> nat \<Rightarrow> tensor0 \<Rightarrow> (error + item) \<times> dataset" where
  "complete_graph_branch ev ds idx e_start e_end start n_atoms =
     (case get_complete_graph ds idx n_atoms of
        Inl e \<Rightarrow> (Inl e, ds)
      | Inr (g, pw) \<Rightarrow>
          (let x = slice start (start + tensor_value n_atoms) (coordinates ds);
               st = then_do (then_do (then_do (None, g)
                      (set_ndata ''feat'' (long_rows (slice start (start + tensor_value n_atoms) (features_tensor ds)))))
                      (set_ndata ''x'' (float_rows x)))
                      (set_d x)
           in case fst st of
                Some e \<Rightarrow> finish_complete ds idx pw st
              | None \<Rightarrow>
                  (case expanded_put (bond_padding_indices ds) (tensor_value n_atoms * tensor_value n_atoms)
                          (flat_index (tensor_value n_atoms) (mol_edges ds e_start e_end))
                          (slice e_start e_end (e_features_tensor ds))
                          (width (e_features_tensor ds)) of
                     Inl e \<Rightarrow> finish_complete ds idx pw (Some e, snd st)
                   | Inr row \<Rightarrow>
                       (case get_pairwise pw n_atoms of
                          Inl e \<Rightarrow> finish_complete ds idx pw (Some e, snd st)
                        | Inr (p, pw') \<Rightarrow>
                            (case expanded_get row (tensor_value n_atoms * tensor_value n_atoms) (flat_index (tensor_value n_atoms) p) of
                               Inl e \<Rightarrow> finish_complete ds idx pw' (Some e, snd st)
                             | Inr feat \<Rightarrow>
                                 finish_complete ds idx pw'
                                   (then_do (then_do (None, snd st) (set_edata ''feat'' feat))
                                      (if dist_embedding ds then set_d_rbf ev else Inr)))))))"

definition complete_graph3d_branch ::
  "env \<Rightarrow> dataset \<Rightarrow> nat \<Rightarrow> nat \<Rightarrow> tensor0 \<Rightarrow> (error + item) \<times> dataset" where
  "complete_graph3d_branch ev ds idx start n_atoms =
     (case get_complete_graph ds idx n_atoms of
        Inl e \<Rightarrow> (Inl e, ds)
      | Inr (g, pw) \<Rightarrow>
          (let x = slice start (start + tensor_value n_atoms) (coordinates ds) in
           finish_complete ds idx pw
             (then_do (then_do (then_do (None, g)
                (set_ndata ''x'' (float_rows x)))
                (set_d x))
                (if dist_embedding ds then set_d_rbf ev else Inr))))"

text \<open>
  \<open>self.e_features_tensor != None\<close> holds for every loaded dataset: the attribute is the
  edge feature table of the processed file.
\<close>

definition mol_complete_graph_branch ::
  "dataset \<Rightarrow> nat \<Rightarrow> nat \<Rightarrow> nat \<Rightarrow> nat \<Rightarrow> tensor0 \<Rightarrow> (error + item) \<times> dataset" where
  "mol_complete_graph_branch ds idx e_start e_end start n_atoms =
     (case get_mol_complete_graph ds idx e_start e_end n_atoms of
        Inl e \<Rightarrow> (Inl e, ds)
      | Inr (g, pw) \<Rightarrow>
          finish_mol_complete ds idx pw
            (then_do (then_do (then_do (None, g)
               (set_h_ndata ''feat'' (long_rows (slice start (start + tensor_value n_atoms) (features_tensor ds)))))
               (set_h_ndata ''x'' (float_rows (slice start (start + tensor_value n_atoms) (coordinates ds)))))
               (set_bond_edata ''feat'' (long_rows (slice e_start e_end (e_features_tensor ds))))))"

text \<open>
  The spectral graph. The sign flips are random: \<open>uniform_draw ev j\<close> is the uniform
  draw for component \<open>j\<close>. \<open>g.edges[u, v].data[k] = rows\<close> looks up the edge from \<open>u\<close> to
  \<open>v\<close> for every listed pair, raises if there is none, and overwrites those rows.
\<close>

definition sign_flip :: "env \<Rightarrow> nat \<Rightarrow> fnum list" where
  "sign_flip ev k = map (\<lambda>j. if uniform_draw ev j \<ge> 0.5 then Some 1 else Some (- 1)) [0..<k]"

definition pos_enc :: "fnum list \<Rightarrow> fnum list list \<Rightarrow> fnum list \<Rightarrow> nat \<Rightarrow> error + val list" where
  "pos_enc vals vecs flips n_atoms =
     (if length vecs \<noteq> n_atoms \<or> (\<exists>r \<in> set vecs. length r \<noteq> length vals)
      then Inl (RuntimeError ''stack expects each tensor to be equal size'')
      else Inr (map (\<lambda>r. V (map (\<lambda>j. V [F (vals ! j), F (fmul (r ! j) (flips ! j))])
                                 [0..<length vals])) vecs))"

fun edge_ids :: "(nat \<times> nat) list \<Rightarrow> (nat \<times> nat) list \<Rightarrow> error + nat list" where
  "edge_ids es [] = Inr []"
| "edge_ids es (uv # rest) =
     (if uv \<notin> set es then Inl (DGLError ''edge does not exist'')
      else (case edge_ids es rest of
              Inl e \<Rightarrow> Inl e
            | Inr ids \<Rightarrow> Inr (index_of es uv # ids)))"

definition set_edge_rows :: "string \<Rightarrow> pairs \<Rightarrow> val list \<Rightarrow> val graph \<Rightarrow> error + val graph" where
  "set_edge_rows k uv rows g =
     (case edge_ids (zip (edges_src g) (edges_dst g)) (zip (fst uv) (snd uv)) of
        Inl e \<Rightarrow> Inl e
      | Inr ids \<Rightarrow>
          if length rows \<noteq> length ids then Inl (DGLError ''expect one row per edge'')
          else (case lookup (edata g) k of
                  Inl e \<Rightarrow> Inl e
                | Inr old \<Rightarrow>
                    Inr (g\<lparr>edata := assign (edata g) k
                                     (fold (\<lambda>(i, r) acc. acc[i := r]) (zip ids rows) old)\<rparr>)))"

definition san_graph_branch ::
  "env \<Rightarrow> dataset \<Rightarrow> nat \<Rightarrow> nat \<Rightarrow> nat \<Rightarrow> nat \<Rightarrow> tensor0 \<Rightarrow> (error + item) \<times> dataset" where
  "san_graph_branch ev ds idx e_start e_end start n_atoms =
     (case get_complete_graph ds idx n_atoms of
        Inl e \<Rightarrow> (Inl e, ds)
      | Inr (g, pw) \<Rightarrow>
          (let e_features = long_rows (slice e_start e_end (e_features_tensor ds)) in
           finish_complete ds idx pw
            (then_do (then_do (then_do (then_do (then_do (then_do (then_do (None, g)
               (set_ndata ''feat'' (long_rows (slice start (start + tensor_value n_atoms) (features_tensor ds)))))
               (set_ndata ''x'' (float_rows (slice start (start + tensor_value n_atoms) (coordinates ds)))))
               (\<lambda>g. case cached ''eig_vals'' (eig_vals ds) idx of
                       Inl e \<Rightarrow> Inl e
                     | Inr vals \<Rightarrow>
                         (case eig_vecs ds of
                            None \<Rightarrow> Inl (AttributeError ''eig_vecs'')
                          | Some vecs \<Rightarrow>
                              (case pos_enc vals (slice start (start + tensor_value n_atoms) vecs)
                                      (sign_flip ev (length vals)) (tensor_value n_atoms) of
                                 Inl e \<Rightarrow> Inl e
                               | Inr pe \<Rightarrow> set_ndata ''pos_enc'' pe g))))
               (\<lambda>g. set_edata ''feat''
                       (replicate (number_of_edges g)
                          (V (replicate (width (e_features_tensor ds)) (F (Some 0))))) g))
               (\<lambda>g. set_edata ''real'' (replicate (number_of_edges g) (I 0)) g))
               (set_edge_rows ''feat'' (mol_edges ds e_start e_end) e_features))
               (set_edge_rows ''real'' (mol_edges ds e_start e_end)
                  (replicate (length e_features) (I 1))))))"

definition se3Transformer_branch ::
  "dataset \<Rightarrow> nat \<Rightarrow> string \<Rightarrow> nat \<Rightarrow> nat \<Rightarrow> nat \<Rightarrow> tensor0 \<Rightarrow> (error + item) \<times> dataset" where
  "se3Transformer_branch ds idx return_type e_start e_end start n_atoms =
     (case get_graph ds idx e_start e_end n_atoms of
        Inl e \<Rightarrow> (Inl e, ds)
      | Inr g \<Rightarrow>
          (let x0 = slice start (start + tensor_value n_atoms) (coordinates ds);
               x = (case transform ds of None \<Rightarrow> x0 | Some tf \<Rightarrow> tf x0)
           in finish_mol ds idx
                (then_do (then_do (then_do (None, g)
                   (set_ndata ''x'' (float_rows x)))
                   (\<lambda>g. case edge_vectors x (fst (mol_edges ds e_start e_end))
                                            (snd (mol_edges ds e_start e_end)) of
                           Inl e \<Rightarrow> Inl e
                         | Inr d \<Rightarrow> set_edata ''d'' d g))
                   (if return_type = ''se3Transformer_graph''
                    then set_edata ''feat'' (long_rows (slice e_start e_end (e_features_tensor ds)))
                    else Inr))))"

text \<open>
  \<open>data_by_type\<close>. The keys of \<open>self.meta_dict\<close> are \<open>mol_id\<close>, \<open>edge_slices\<close>,
  \<open>atom_slices\<close> and \<open>n_atoms\<close>; the branch for \<open>edge_indices\<close> asks it for another one.
\<close>

definition data_by_type ::
  "env \<Rightarrow> dataset \<Rightarrow> nat \<Rightarrow> string \<Rightarrow> nat \<Rightarrow> nat \<Rightarrow> nat \<Rightarrow> tensor0 \<Rightarrow> (error + item) \<times> dataset" where
  "data_by_type ev ds idx return_type e_start e_end start n_atoms =
     (if return_type = ''mol_graph'' then mol_graph_branch ds idx e_start e_end start n_atoms
      else if return_type = ''mol_graph3d'' then mol_graph3d_branch ds idx e_start e_end start n_atoms
      else if return_type = ''complete_graph''
        then complete_graph_branch ev ds idx e_start e_end start n_atoms
      else if return_type = ''complete_graph3d'' then complete_graph3d_branch ev ds idx start n_atoms
      else if return_type = ''mol_complete_graph''
        then mol_complete_graph_branch ds idx e_start e_end start n_atoms
      else if return_type = ''san_graph'' then san_graph_branch ev ds idx e_start e_end start n_atoms
      else if return_type = ''se3Transformer_graph'' \<or> return_type = ''se3Transformer_graph3d''
        then se3Transformer_branch ds idx return_type e_start e_end start n_atoms
      else if return_type = ''raw_features''
        then (Inr (Tensor (long_rows (slice start (start + tensor_value n_atoms) (features_tensor ds)))), ds)
      else if return_type = ''coordinates''
        then (Inr (Tensor (float_rows (slice start (start + tensor_value n_atoms) (coordinates ds)))), ds)
      else if return_type = ''mol_id''
        then (case item_at (mol_id ds) idx of Inl e \<Rightarrow> (Inl e, ds) | Inr m \<Rightarrow> (Inr (MolId m), ds))
      else if return_type = ''targets''
        then (case item_at (targets (target_data ds)) idx of
                Inl e \<Rightarrow> (Inl e, ds)
              | Inr row \<Rightarrow> (Inr (Tensor (map F row)), ds))
      else if return_type = ''edge_indices'' then (Inl (KeyError ''edge_indices''), ds)
      else if return_type = ''smiles''
        then (case item_at (mol_id ds) idx of
                Inl e \<Rightarrow> (Inl e, ds)
              | Inr m \<Rightarrow>
                  (case cached ''smiles'' (smiles ds) m of
                     Inl e \<Rightarrow> (Inl e, ds)
                   | Inr s \<Rightarrow> (Inr (Smiles s), ds)))
      else (Inl (Exception ''return type not supported: ''), ds))"

subsection \<open>\<open>__getitem__\<close>\<close>

text \<open>
  \<open>n_atoms = self.meta_dict['n_atoms'][idx]\<close> is a new zero-dimensional tensor, the
  same object for every return type of this access.
\<close>

fun collect :: "env \<Rightarrow> dataset \<Rightarrow> nat \<Rightarrow> nat \<Rightarrow> nat \<Rightarrow> nat \<Rightarrow> tensor0 \<Rightarrow> string list
     \<Rightarrow> (error + item list) \<times> dataset" where
  "collect ev ds idx e_start e_end start n_atoms [] = (Inr [], ds)"
| "collect ev ds idx e_start e_end start n_atoms (return_type # rest) =
     (case data_by_type ev ds idx return_type e_start e_end start n_atoms of
        (Inl e, ds1) \<Rightarrow> (Inl e, ds1)
      | (Inr it, ds1) \<Rightarrow>
          (case collect ev ds1 idx e_start e_end start n_atoms rest of
             (Inl e, ds2) \<Rightarrow> (Inl e, ds2)
           | (Inr its, ds2) \<Rightarrow> (Inr (it # its), ds2)))"

definition getitem :: "env \<Rightarrow> dataset \<Rightarrow> nat \<Rightarrow> (error + item list) \<times> dataset" where
  "getitem ev ds idx =
     (case item_at (edge_slices ds) idx of Inl e \<Rightarrow> (Inl e, ds) | Inr e_start \<Rightarrow>
      case item_at (edge_slices ds) (idx + 1) of Inl e \<Rightarrow> (Inl e, ds) | Inr e_end \<Rightarrow>
      case item_at (atom_slices ds) idx of Inl e \<Rightarrow> (Inl e, ds) | Inr start \<Rightarrow>
      case item_at (n_atoms_tab ds) idx of Inl e \<Rightarrow> (Inl e, ds) | Inr n \<Rightarrow>
        collect ev (ds\<lparr>tensor_count := Suc (tensor_count ds)\<rparr>) idx e_start e_end start
          (Tensor0 (tensor_count ds) n) (return_types ds))"

subsection \<open>Example inputs\<close>

text \<open>
  A processed file with one molecule, water: oxygen is atom 0, the hydrogens are atoms 1
  and 2, and each of the two bonds is stored in both directions. Atom rows have the nine
  entries and bond rows the three entries of the featurizer library.
\<close>

definition water_dd :: data_dict where
  "water_dd =
     \<lparr>dd_atom_features = [[7, 0, 2, 5, 0, 0, 2, 0, 0], [0, 0, 1, 5, 0, 0, 5, 0, 0],
                           [0, 0, 1, 5, 0, 0, 5, 0, 0]],
      dd_edge_features = [[0, 0, 0], [0, 0, 0], [0, 0, 0], [0, 0, 0]],
      dd_coordinates = [[0, 0, 0], [1, 0, 0], [0, 1, 0]],
      dd_edge_indices = ([0, 1, 0, 2], [1, 0, 2, 0]),
      dd_mol_id = [0],
      dd_edge_slices = [0, 4],
      dd_atom_slices = [0, 3],
      dd_n_atoms = [3],
      dd_eig_vals = [],
      dd_eig_vecs = [],
      dd_targets = [[0, 0, 0, 0, 0, 0, 0, 0, 0, 0, 0, 0, 0, 0, 0, 0, 0, 0, 0]]\<rparr>"

definition embed_id :: "val list \<Rightarrow> val list" where
  "embed_id rows = rows"

definition draw_half :: "nat \<Rightarrow> real" where
  "draw_half j = 1 / 2"

text \<open>The feature dimensions of the featurizer library: nine atom features, three bond features.\<close>

definition ogb_env :: env where
  "ogb_env = \<lparr>atom_feature_dims = [119, 4, 12, 12, 10, 6, 6, 2, 2],
               bond_feature_dims = [5, 6, 2],
               dist_embedder = embed_id,
               smiles_column = [''O''],
               uniform_draw = draw_half\<rparr>"

text \<open>The dataset over \<open>water_dd\<close> for one list of return types and the target \<open>mu\<close>, on the CPU,
  not normalized.\<close>

definition water_dataset :: "string list \<Rightarrow> bool \<Rightarrow> bool \<Rightarrow> error + dataset" where
  "water_dataset rts dist_emb_flag prefetch =
     QM9Dataset_init ogb_env (Some rts) (Some [''mu'']) False ''cpu'' dist_emb_flag prefetch None water_dd"

text \<open>The first element of what \<open>dataset[idx]\<close> gives, when the constructor succeeded.\<close>

definition access :: "env \<Rightarrow> error + dataset \<Rightarrow> nat \<Rightarrow> error + item list" where
  "access ev r idx = (case r of Inl e \<Rightarrow> Inl e | Inr ds \<Rightarrow> fst (getitem ev ds idx))"

definition constructed :: "error + dataset \<Rightarrow> bool" where
  "constructed r = (case r of Inl e \<Rightarrow> False | Inr ds \<Rightarrow> True)"

definition dataset_len :: "error + dataset \<Rightarrow> nat" where
  "dataset_len r = (case r of Inl e \<Rightarrow> 0 | Inr ds \<Rightarrow> len ds)"

definition padding_of :: "error + dataset \<Rightarrow> error + int list" where
  "padding_of r = (case r of Inl e \<Rightarrow> Inl e | Inr ds \<Rightarrow> Inr (bond_padding_indices ds))"

text \<open>
  The heterogeneous graph that \<open>get_mol_complete_graph\<close> hands out, for a new tensor
  with the value \<open>n_atoms\<close>.
\<close>

definition mol_complete_graph_of :: "error + dataset \<Rightarrow> nat \<Rightarrow> nat \<Rightarrow> nat \<Rightarrow> nat \<Rightarrow> error + hetero" where
  "mol_complete_graph_of r idx e_start e_end n_atoms =
     (case r of
        Inl e \<Rightarrow> Inl e
      | Inr ds \<Rightarrow>
          (case get_mol_complete_graph ds idx e_start e_end (Tensor0 (tensor_count ds) n_atoms) of
             Inl e \<Rightarrow> Inl e
           | Inr (g, pw) \<Rightarrow> Inr g))"

text \<open>A featurizer whose atom rows are as wide as its bond rows.\<close>

definition narrow_env :: env where
  "narrow_env = \<lparr>atom_feature_dims = [119, 4, 12],
                  bond_feature_dims = [5, 6, 2],
                  dist_embedder = embed_id,
                  smiles_column = [''O''],
                  uniform_draw = draw_half\<rparr>"

definition water_dataset_narrow :: "string list \<Rightarrow> bool \<Rightarrow> bool \<Rightarrow> error + dataset" where
  "water_dataset_narrow rts dist_emb_flag prefetch =
     QM9Dataset_init narrow_env (Some rts) (Some [''mu'']) False ''cpu'' dist_emb_flag prefetch None
       water_dd"

text \<open>
  What \<open>data_by_type\<close> gives for one return type and a new tensor with the value
  \<open>n_atoms\<close>, when the constructor succeeded.
\<close>

definition access_type ::
  "env \<Rightarrow> error + dataset \<Rightarrow> nat \<Rightarrow> string \<Rightarrow> nat \<Rightarrow> nat \<Rightarrow> nat \<Rightarrow> nat \<Rightarrow> error + item" where
  "access_type ev r idx return_type e_start e_end start n_atoms =
     (case r of
        Inl e \<Rightarrow> Inl e
      | Inr ds \<Rightarrow>
          fst (data_by_type ev ds idx return_type e_start e_end start
                 (Tensor0 (tensor_count ds) n_atoms)))"

definition water_complete :: "val list \<Rightarrow> val graph" where
  "water_complete emb =
     \<lparr>num_nodes = 3, edges_src = [0, 0, 1, 1, 2, 2], edges_dst = [1, 2, 0, 2, 0, 1],
      ndata = [(''feat'', [V [I 7, I 0, I 2, I 5, I 0, I 0, I 2, I 0, I 0],
                          V [I 0, I 0, I 1, I 5, I 0, I 0, I 5, I 0, I 0],
                          V [I 0, I 0, I 1, I 5, I 0, I 0, I 5, I 0, I 0]]),
               (''x'', [V [F (Some 0), F (Some 0), F (Some 0)],
                       V [F (Some 1), F (Some 0), F (Some 0)],
                       V [F (Some 0), F (Some 1), F (Some 0)]])],
      edata = [(''d'', [V [F (Some (float_sqrt 1))], V [F (Some (float_sqrt 1))],
                       V [F (Some (float_sqrt 1))], V [F (Some (float_sqrt 2))],
                       V [F (Some (float_sqrt 1))], V [F (Some (float_sqrt 2))]]),
               (''feat'', [V [I 0, I 0, I 0], V [I 0, I 0, I 0], V [I 0, I 0, I 0],
                          V [I 0, I 0, I 0], V [I 0, I 0, I 0], V [I 0, I 0, I 0]]),
               (''d_rbf'', emb)],
      batch_num_nodes = [3], batch_num_edges = [6]\<rparr>"

definition water_hetero :: "pairs \<Rightarrow> (string \<times> val list) list \<Rightarrow> (string \<times> val list) list \<Rightarrow> hetero" where
  "water_hetero bonds nd ed =
     \<lparr>h_num_nodes = 3, bond_src = fst bonds, bond_dst = snd bonds,
      complete_src = [0, 0, 1, 1, 2, 2], complete_dst = [1, 2, 0, 2, 0, 1],
      h_ndata = nd, bond_edata = ed\<rparr>"

text \<open>
  The dataset after the accesses \<open>dataset[idx]\<close> for the listed indices, one after the
  other, and what its dictionary \<open>self.pairwise\<close> then holds for a key.
\<close>

fun accesses :: "env \<Rightarrow> dataset \<Rightarrow> nat list \<Rightarrow> dataset" where
  "accesses ev ds [] = ds"
| "accesses ev ds (idx # rest) = accesses ev (snd (getitem ev ds idx)) rest"

definition cache_after :: "env \<Rightarrow> error + dataset \<Rightarrow> nat list \<Rightarrow> tensor0 \<Rightarrow> pairs option" where
  "cache_after ev r idxs key =
     (case r of Inl e \<Rightarrow> None | Inr ds \<Rightarrow> pairwise_dict (accesses ev ds idxs) key)"

section \<open>The spectral data of the build step (\<open>QM9Dataset.process\<close>)\<close>

text \<open>
  The matrix that \<open>process\<close> hands to the eigensolver. \<open>adj\<close> is the adjacency matrix
  of the molecule as rows; \<open>adj.sum(dim=0)\<close> are the column sums, the degrees. \<open>N\<close> is
  the one-dimensional tensor of the degrees to the power \<open>-0.5\<close> (not a finite number for
  degree zero), and \<open>*\<close> on tensors is the entrywise product: \<open>N * L * N\<close> broadcasts
  \<open>N\<close> along the rows, so entry \<open>(i, j)\<close> is \<open>N[j] * L[i][j] * N[j]\<close>.
\<close>

definition col_sum :: "real list list \<Rightarrow> nat \<Rightarrow> real" where
  "col_sum adj j = sum_list (map (\<lambda>row. row ! j) adj)"

definition laplacian :: "real list list \<Rightarrow> nat \<Rightarrow> nat \<Rightarrow> real" where
  "laplacian adj i j = (if i = j then col_sum adj i else 0) - adj ! i ! j"

definition inv_sqrt :: "real \<Rightarrow> fnum" where
  "inv_sqrt d = (if d \<le> 0 then None else Some (1 / float_sqrt d))"

definition eye :: "nat \<Rightarrow> nat \<Rightarrow> real" where
  "eye i j = (if i = j then 1 else 0)"

definition L_sym :: "real list list \<Rightarrow> fnum list list" where
  "L_sym adj =
     (let n = length adj;
          N = map (\<lambda>j. inv_sqrt (col_sum adj j)) [0..<n]
      in map (\<lambda>i. map (\<lambda>j. fsub (Some (eye i j))
                                (fmul (fmul (N ! j) (Some (laplacian adj i j))) (N ! j)))
                        [0..<n])
             [0..<n])"

text \<open>
  The matrix of the specification, \<open>I - D^{-1/2} (D - A) D^{-1/2}\<close> with matrix products:
  entry \<open>(i, j)\<close> is scaled by the degrees of both \<open>i\<close> and \<open>j\<close>.
\<close>

definition L_sym_spec :: "real list list \<Rightarrow> fnum list list" where
  "L_sym_spec adj =
     (let n = length adj;
          N = map (\<lambda>j. inv_sqrt (col_sum adj j)) [0..<n]
      in map (\<lambda>i. map (\<lambda>j. fsub (Some (eye i j))
                                (fmul (fmul (N ! i) (Some (laplacian adj i j))) (N ! j)))
                        [0..<n])
             [0..<n])"

text \<open>
  \<open>torch.symeig\<close> reads the upper triangle of its argument and takes the matrix to be
  symmetric. Eigenpairs are stated exactly, over the reals.
\<close>

definition upper_symmetric :: "real list list \<Rightarrow> real list list" where
  "upper_symmetric m =
     map (\<lambda>i. map (\<lambda>j. m ! (min i j) ! (max i j)) [0..<length m]) [0..<length m]"

definition mat_vec :: "real list list \<Rightarrow> real list \<Rightarrow> real list" where
  "mat_vec m v = map (\<lambda>row. sum_list (map2 (*) row v)) m"

definition eigenpair :: "real list list \<Rightarrow> real \<Rightarrow> real list \<Rightarrow> bool" where
  "eigenpair m lam v =
     (length v = length m \<and> (\<exists>x \<in> set v. x \<noteq> 0) \<and> mat_vec m v = map (\<lambda>x. lam * x) v)"

text \<open>Methane: the carbon is atom 0 and is bonded to the four hydrogens.\<close>

definition methane_adj :: "real list list" where
  "methane_adj = [[0, 1, 1, 1, 1], [1, 0, 0, 0, 0], [1, 0, 0, 0, 0], [1, 0, 0, 0, 0], [1, 0, 0, 0, 0]]"

definition star :: "real \<Rightarrow> real \<Rightarrow> real list list" where
  "star a b = [[0, a, a, a, a], [b, 0, 0, 0, 0], [b, 0, 0, 0, 0], [b, 0, 0, 0, 0], [b, 0, 0, 0, 0]]"

section \<open>Properties of the graph library model\<close>

lemma segment_of_append_less:
  "v < sum_list xs \<Longrightarrow> segment_of (xs @ ys) v = segment_of xs v"
  by (induction xs arbitrary: v) auto

lemma segment_of_append_ge:
  "sum_list xs \<le> v \<Longrightarrow> segment_of (xs @ ys) v = length xs + segment_of ys (v - sum_list xs)"
  by (induction xs arbitrary: v) auto

lemma wf_graph_edges_within:
  "wf_graph g = (sum_list (batch_num_nodes g) = num_nodes g
                 \<and> edges_within (batch_num_nodes g) 0 (num_nodes g) (edges_src g) (edges_dst g))"
  by (auto simp: wf_graph_def edges_within_def)

lemma edges_within_shift:
  assumes "edges_within sizes 0 n src dst"
  shows "edges_within sizes off n (map (\<lambda>v. off + v) src) (map (\<lambda>v. off + v) dst)"
  using assms unfolding edges_within_def
  by (auto simp: zip_map_map)

lemma edges_within_append:
  assumes a: "edges_within xs off n src dst" and sx: "sum_list xs = n"
    and b: "edges_within ys (off + n) k src' dst'"
  shows "edges_within (xs @ ys) off (n + k) (src @ src') (dst @ dst')"
proof -
  have len: "length src = length dst" "length src' = length dst'"
    using a b by (simp_all add: edges_within_def)
  have "\<forall>(s, d) \<in> set (zip src dst) \<union> set (zip src' dst').
            off \<le> s \<and> s < off + (n + k) \<and> off \<le> d \<and> d < off + (n + k)
            \<and> segment_of (xs @ ys) (s - off) = segment_of (xs @ ys) (d - off)"
  proof (intro ballI, clarify)
    fix s d assume "(s, d) \<in> set (zip src dst) \<union> set (zip src' dst')"
    then consider "(s, d) \<in> set (zip src dst)" | "(s, d) \<in> set (zip src' dst')" by blast
    then show "off \<le> s \<and> s < off + (n + k) \<and> off \<le> d \<and> d < off + (n + k)
            \<and> segment_of (xs @ ys) (s - off) = segment_of (xs @ ys) (d - off)"
    proof cases
      case 1
      with a have h: "off \<le> s" "s < off + n" "off \<le> d" "d < off + n"
        "segment_of xs (s - off) = segment_of xs (d - off)"
        by (auto simp: edges_within_def)
      have "s - off < sum_list xs" "d - off < sum_list xs" using h sx by auto
      then show ?thesis using h by (simp add: segment_of_append_less)
    next
      case 2
      with b have h: "off + n \<le> s" "s < off + n + k" "off + n \<le> d" "d < off + n + k"
        "segment_of ys (s - (off + n)) = segment_of ys (d - (off + n))"
        by (auto simp: edges_within_def)
      have "sum_list xs \<le> s - off" "sum_list xs \<le> d - off" using h sx by auto
      moreover have "s - off - sum_list xs = s - (off + n)" "d - off - sum_list xs = d - (off + n)"
        using sx by auto
      ultimately show ?thesis using h by (simp add: segment_of_append_ge)
    qed
  qed
  then show ?thesis using len by (simp add: edges_within_def)
qed

lemma edges_within_shifted:
  assumes "\<forall>g \<in> set gs. wf_graph g"
  shows "edges_within (concat (map batch_num_nodes gs)) off (sum_list (map num_nodes gs))
           (shifted off (map (\<lambda>g. (num_nodes g, edges_src g)) gs))
           (shifted off (map (\<lambda>g. (num_nodes g, edges_dst g)) gs))"
  using assms
proof (induction gs arbitrary: off)
  case Nil
  then show ?case by (simp add: edges_within_def)
next
  case (Cons g gs)
  have g: "sum_list (batch_num_nodes g) = num_nodes g"
    "edges_within (batch_num_nodes g) 0 (num_nodes g) (edges_src g) (edges_dst g)"
    using Cons.prems by (simp_all add: wf_graph_edges_within)
  have rest: "edges_within (concat (map batch_num_nodes gs)) (off + num_nodes g)
           (sum_list (map num_nodes gs))
           (shifted (off + num_nodes g) (map (\<lambda>g. (num_nodes g, edges_src g)) gs))
           (shifted (off + num_nodes g) (map (\<lambda>g. (num_nodes g, edges_dst g)) gs))"
    using Cons.IH Cons.prems by simp
  show ?case
    using edges_within_append[OF edges_within_shift[OF g(2), of off] g(1) rest]
    by simp
qed

lemma dgl_batch_fields:
  assumes "dgl_batch gs = Inr b"
  shows "gs \<noteq> []"
    and "num_nodes b = sum_list (map num_nodes gs)"
    and "edges_src b = shifted 0 (map (\<lambda>g. (num_nodes g, edges_src g)) gs)"
    and "edges_dst b = shifted 0 (map (\<lambda>g. (num_nodes g, edges_dst g)) gs)"
    and "batch_num_nodes b = concat (map batch_num_nodes gs)"
    and "batch_num_edges b = concat (map batch_num_edges gs)"
    and "edata b = map (\<lambda>k. (k, cat_attr (map edata gs) k)) (remdups (map fst (edata (hd gs))))"
    and "ndata b = map (\<lambda>k. (k, cat_attr (map ndata gs) k)) (remdups (map fst (ndata (hd gs))))"
  using assms unfolding dgl_batch_def by (auto split: if_splits)

lemma wf_graph_dgl_batch:
  assumes "\<forall>g \<in> set gs. wf_graph g" and "dgl_batch gs = Inr b"
  shows "wf_graph b"
proof -
  note f = dgl_batch_fields[OF assms(2)]
  have "sum_list (concat (map batch_num_nodes gs)) = sum_list (map num_nodes gs)"
    using assms(1) by (induction gs) (auto simp: wf_graph_def)
  then show ?thesis
    using edges_within_shifted[OF assms(1), of 0] f
    by (simp add: wf_graph_edges_within)
qed

lemma add_noise_w_fields:
  assumes "add_noise_w add noise i g = Inr c"
  shows "num_nodes c = num_nodes g" and "edges_src c = edges_src g"
    and "edges_dst c = edges_dst g" and "batch_num_nodes c = batch_num_nodes g"
  using assms unfolding add_noise_w_def set_edata_def
  by (auto split: sum.splits if_splits)

lemma noised_copies_fields:
  assumes "noised_copies add noise g idxs = Inr copies"
  shows "length copies = length idxs
       \<and> (\<forall>c \<in> set copies. num_nodes c = num_nodes g \<and> edges_src c = edges_src g
              \<and> edges_dst c = edges_dst g \<and> batch_num_nodes c = batch_num_nodes g)"
  using assms
proof (induction idxs arbitrary: copies)
  case Nil
  then show ?case by simp
next
  case (Cons i rest)
  from Cons.prems obtain c cs where
    c: "add_noise_w add noise i g = Inr c" and cs: "noised_copies add noise g rest = Inr cs"
    and eq: "copies = c # cs"
    by (auto split: sum.splits)
  show ?case using Cons.IH[OF cs] add_noise_w_fields[OF c] eq by simp
qed

lemma wf_graph_same_shape:
  assumes "num_nodes c = num_nodes g" "edges_src c = edges_src g"
    "edges_dst c = edges_dst g" "batch_num_nodes c = batch_num_nodes g"
  shows "wf_graph c = wf_graph g"
  using assms by (simp add: wf_graph_def)

lemma sum_list_const:
  "(\<forall>x \<in> set xs. f x = k) \<Longrightarrow> sum_list (map f xs) = length xs * k"
  by (induction xs) simp_all

lemma concat_const:
  "(\<forall>x \<in> set xs. f x = ys) \<Longrightarrow> concat (map f xs) = concat (replicate (length xs) ys)"
  by (induction xs) simp_all

lemma map_of_keyed:
  "map_of (map (\<lambda>k. (k, f k)) ks) k = (if k \<in> set ks then Some (f k) else None)"
  by (induction ks) auto

lemma map_of_Some_fst: "map_of d k = Some v \<Longrightarrow> k \<in> set (map fst d)"
  by (induction d) (auto split: if_splits)

lemma map_add_zero: "map ((+) (0::nat)) xs = xs"
  by (induction xs) simp_all

lemma wf_graph_nth:
  assumes "wf_graph g" and "k < number_of_edges g"
  shows "segment_of (batch_num_nodes g) (edges_src g ! k)
         = segment_of (batch_num_nodes g) (edges_dst g ! k)"
proof -
  have len: "length (edges_src g) = length (edges_dst g)" using assms(1) by (simp add: wf_graph_def)
  then have "(edges_src g ! k, edges_dst g ! k) \<in> set (zip (edges_src g) (edges_dst g))"
    using assms(2) by (metis in_set_zip fst_conv snd_conv number_of_edges_def)
  then show ?thesis using assms(1) by (auto simp: wf_graph_def)
qed

lemma map_of_assign_same: "map_of (assign d k v) k = Some v"
  by (induction d) auto

section \<open>Properties of the pairwise index cache\<close>

lemma take_drop_upt_filter:
  assumes "i < n"
  shows "take i [0..<n] @ drop (Suc i) [0..<n] = filter (\<lambda>j. j \<noteq> i) [0..<n]"
proof -
  have split: "[0..<n] = [0..<i] @ i # [Suc i..<n]"
  proof -
    have "[0..<n] = [0..<i] @ [i..<n]"
      using upt_add_eq_append[of 0 i "n - i"] assms by simp
    then show ?thesis using upt_conv_Cons[OF assms] by simp
  qed
  have f1: "filter (\<lambda>j. j \<noteq> i) [0..<i] = [0..<i]" by (rule filter_True) auto
  have f2: "filter (\<lambda>j. j \<noteq> i) [Suc i..<n] = [Suc i..<n]" by (rule filter_True) auto
  have t: "take i [0..<n] = [0..<i]" using assms by simp
  have d: "drop (Suc i) [0..<n] = [Suc i..<n]" by simp
  have "filter (\<lambda>j. j \<noteq> i) [0..<n] = filter (\<lambda>j. j \<noteq> i) ([0..<i] @ i # [Suc i..<n])"
    using split by simp
  also have "\<dots> = [0..<i] @ [Suc i..<n]" using f1 f2 by simp
  finally show ?thesis using t d by simp
qed

lemma length_filter_neq_upt: "i < n \<Longrightarrow> length (filter (\<lambda>j. j \<noteq> i) [0..<n]) = n - 1"
proof -
  assume i: "i < n"
  have "length (filter (\<lambda>j. j \<noteq> i) [0..<n]) = length (take i [0..<n] @ drop (Suc i) [0..<n])"
    using take_drop_upt_filter[OF i] by simp
  also have "\<dots> = n - 1" using i by simp
  finally show ?thesis .
qed

lemma zip_concat_map:
  "(\<And>x. x \<in> set xs \<Longrightarrow> length (f x) = length (g x)) \<Longrightarrow>
   zip (concat (map f xs)) (concat (map g xs)) = concat (map (\<lambda>x. zip (f x) (g x)) xs)"
  by (induction xs) simp_all

lemma zip_replicate_Pair: "zip (replicate (length ys) i) ys = map (Pair i) ys"
  by (induction ys) simp_all

lemma length_concat_const:
  "(\<And>x. x \<in> set xs \<Longrightarrow> length (f x) = k) \<Longrightarrow> length (concat (map f xs)) = length xs * k"
  by (induction xs) simp_all

lemma compute_pairwise_pos:
  assumes "0 < n"
  shows "compute_pairwise n =
           Inr (concat (map (replicate (n - 1)) [0..<n]),
                concat (map (\<lambda>i. filter (\<lambda>j. j \<noteq> i) [0..<n]) [0..<n]))"
proof -
  have m: "map (\<lambda>idx. take idx (arange n) @ drop (idx + 1) (arange n)) [0..<n]
        = map (\<lambda>i. filter (\<lambda>j. j \<noteq> i) [0..<n]) [0..<n]"
    unfolding arange_def
    by (rule map_cong[OF refl]) (simp add: take_drop_upt_filter del: take_upt drop_upt)
  have ne: "map (\<lambda>i. filter (\<lambda>j. j \<noteq> i) [0..<n]) [0..<n] \<noteq> []" using assms by simp
  show ?thesis
    unfolding compute_pairwise_def Let_def m cat_def repeat_interleave_def
    using assms ne by (simp add: arange_def)
qed

lemma zip_compute_pairwise:
  assumes "0 < n" and "compute_pairwise n = Inr (src, dst)"
  shows "zip src dst = complete_pairs n"
    and "length src = n * (n - 1)" and "length dst = n * (n - 1)"
proof -
  from assms compute_pairwise_pos[of n]
  have s: "src = concat (map (replicate (n - 1)) [0..<n])"
    and d: "dst = concat (map (\<lambda>i. filter (\<lambda>j. j \<noteq> i) [0..<n]) [0..<n])"
    by simp_all
  have len: "\<And>i. i \<in> set [0..<n] \<Longrightarrow> length (filter (\<lambda>j. j \<noteq> i) [0..<n]) = n - 1"
    by (simp add: length_filter_neq_upt)
  have "zip src dst = concat (map (\<lambda>i. zip (replicate (n - 1) i) (filter (\<lambda>j. j \<noteq> i) [0..<n])) [0..<n])"
    unfolding s d by (rule zip_concat_map) (simp add: length_filter_neq_upt)
  also have "\<dots> = concat (map (out_edges n) [0..<n])"
  proof -
    have "map (\<lambda>i. zip (replicate (n - 1) i) (filter (\<lambda>j. j \<noteq> i) [0..<n])) [0..<n]
          = map (out_edges n) [0..<n]"
    proof (rule map_cong[OF refl])
      fix i assume "i \<in> set [0..<n]"
      then have "n - 1 = length (filter (\<lambda>j. j \<noteq> i) [0..<n])" using len by simp
      then show "zip (replicate (n - 1) i) (filter (\<lambda>j. j \<noteq> i) [0..<n]) = out_edges n i"
        by (simp add: out_edges_def zip_replicate_Pair)
    qed
    then show ?thesis by (simp only:)
  qed
  finally show "zip src dst = complete_pairs n" by (simp add: complete_pairs_def)
  show "length src = n * (n - 1)" unfolding s
    using length_concat_const[of "[0..<n]" "replicate (n - 1)" "n - 1"] by simp
  show "length dst = n * (n - 1)" unfolding d
    using length_concat_const[of "[0..<n]" "\<lambda>i. filter (\<lambda>j. j \<noteq> i) [0..<n]" "n - 1"] len by simp
qed

lemma complete_pairs_no_self: "(a, b) \<in> set (complete_pairs n) \<Longrightarrow> a \<noteq> b"
  by (auto simp: complete_pairs_def out_edges_def)

lemma get_pairwise_cases:
  assumes "pairwise_ok pw" and "0 < tensor_value k"
  shows "\<exists>p pw'. get_pairwise pw k = Inr (p, pw') \<and> compute_pairwise (tensor_value k) = Inr p
           \<and> pw' k = Some p \<and> pairwise_ok pw'"
proof (cases "pw k")
  case None
  obtain p where p: "compute_pairwise (tensor_value k) = Inr p"
    using compute_pairwise_pos[OF assms(2)] by blast
  have "pairwise_ok (pw(k \<mapsto> p))"
    using assms(1) p by (simp add: pairwise_ok_def)
  then show ?thesis using None p by (simp add: get_pairwise_def)
next
  case (Some p)
  then show ?thesis using assms(1) unfolding get_pairwise_def pairwise_ok_def by (cases p) auto
qed

text \<open>
  What holds of every call: for a tensor of value \<open>n \<ge> 1\<close> and a dictionary that only
  \<open>get_pairwise\<close> has written to, the call returns exactly \<open>n * (n - 1)\<close> (source,
  destination) pairs, none of them a self-pair, listed as node 0's out-edges, then node
  1's, and so on; afterwards the dictionary holds them under the tensor object of the
  call, a second call with that same object returns them from the dictionary, and a call
  with any tensor of the same value returns sequences equal to them.
\<close>

lemma get_pairwise_pairs:
  assumes "pairwise_ok pw" and "0 < tensor_value k"
  shows "\<exists>src dst pw'.
           get_pairwise pw k = Inr ((src, dst), pw')
         \<and> length src = tensor_value k * (tensor_value k - 1)
         \<and> length dst = tensor_value k * (tensor_value k - 1)
         \<and> (\<forall>i < tensor_value k * (tensor_value k - 1). src ! i \<noteq> dst ! i)
         \<and> zip src dst = complete_pairs (tensor_value k)
         \<and> pw' k = Some (src, dst)
         \<and> get_pairwise pw' k = Inr ((src, dst), pw')
         \<and> pairwise_ok pw'
         \<and> (\<forall>k'. tensor_value k' = tensor_value k \<longrightarrow>
                 (\<exists>pw''. get_pairwise pw' k' = Inr ((src, dst), pw'')))"
proof -
  let ?n = "tensor_value k"
  from get_pairwise_cases[OF assms] obtain p pw' where
    g: "get_pairwise pw k = Inr (p, pw')" and c: "compute_pairwise ?n = Inr p"
    and m: "pw' k = Some p" and ok: "pairwise_ok pw'" by blast
  obtain src dst where p: "p = (src, dst)" by (cases p)
  note z = zip_compute_pairwise[OF assms(2) c[unfolded p]]
  have noself: "\<forall>i < ?n * (?n - 1). src ! i \<noteq> dst ! i"
  proof (intro allI impI)
    fix i assume i: "i < ?n * (?n - 1)"
    then have "(src ! i, dst ! i) \<in> set (zip src dst)"
      using z(2,3) by (metis in_set_zip fst_conv snd_conv)
    then show "src ! i \<noteq> dst ! i" using z(1) complete_pairs_no_self by simp
  qed
  have again: "get_pairwise pw' k = Inr ((src, dst), pw')"
    using m p by (simp add: get_pairwise_def)
  have same_value: "\<forall>k'. tensor_value k' = ?n \<longrightarrow>
                      (\<exists>pw''. get_pairwise pw' k' = Inr ((src, dst), pw''))"
  proof (intro allI impI)
    fix k' assume v: "tensor_value k' = ?n"
    then have pos: "0 < tensor_value k'" using assms(2) by simp
    from get_pairwise_cases[OF ok pos] obtain q pw'' where
      "get_pairwise pw' k' = Inr (q, pw'')" and "compute_pairwise (tensor_value k') = Inr q"
      by blast
    then show "\<exists>pw''. get_pairwise pw' k' = Inr ((src, dst), pw'')"
      using c p v by auto
  qed
  show ?thesis using g p z noself m again ok same_value by blast
qed

text \<open>
  What decides between the two branches is the tensor object, not its value: a call with
  an object that the dictionary does not hold runs the \<open>else\<close> branch and adds an entry,
  whatever entries the dictionary holds for other objects of the same value; and a call
  leaves every other object as absent, or present, as it was.
\<close>

lemma get_pairwise_miss:
  assumes "pw b = None" and "0 < tensor_value b"
  shows "\<exists>p. compute_pairwise (tensor_value b) = Inr p
            \<and> get_pairwise pw b = Inr (p, pw(b \<mapsto> p))"
proof -
  obtain p where "compute_pairwise (tensor_value b) = Inr p"
    using compute_pairwise_pos[OF assms(2)] by blast
  then show ?thesis using assms(1) by (simp add: get_pairwise_def)
qed

lemma get_pairwise_other_object:
  assumes "get_pairwise pw a = Inr (p, pw1)" and "b \<noteq> a"
  shows "pw1 b = pw b"
  using assms unfolding get_pairwise_def
  by (auto split: option.splits sum.splits)

text \<open>
  Claim C5 fails on the code in its last part. The pairs are right, and a second call
  returns sequences equal to the first call's, but the dictionary does not memoize by
  atom count. Two tensors of value 3 that are two objects, which is what two rounds of a
  prefetch loop or two accesses pass: after the first call the dictionary holds nothing
  for the second tensor, the second call runs the \<open>else\<close> branch again and adds a second
  entry. Only a call with the very same tensor object is answered from the dictionary.
  On the dataset: after one access to molecule 0 without prefetching the dictionary holds
  an entry for the tensor of that access and none for the tensor of the next access;
  after a second access to the same molecule it holds an entry for each.
\<close>

theorem get_pairwise_not_memoized:
  "two_calls (Tensor0 0 3) (Tensor0 1 3)
     = Inr \<lparr>first_result = ([0, 0, 1, 1, 2, 2], [1, 2, 0, 2, 0, 1]),
            found_for_second = None,
            second_result = ([0, 0, 1, 1, 2, 2], [1, 2, 0, 2, 0, 1]),
            entry_of_first = Some ([0, 0, 1, 1, 2, 2], [1, 2, 0, 2, 0, 1]),
            entry_of_second = Some ([0, 0, 1, 1, 2, 2], [1, 2, 0, 2, 0, 1])\<rparr>
   \<and> two_calls (Tensor0 0 3) (Tensor0 0 3)
     = Inr \<lparr>first_result = ([0, 0, 1, 1, 2, 2], [1, 2, 0, 2, 0, 1]),
            found_for_second = Some ([0, 0, 1, 1, 2, 2], [1, 2, 0, 2, 0, 1]),
            second_result = ([0, 0, 1, 1, 2, 2], [1, 2, 0, 2, 0, 1]),
            entry_of_first = Some ([0, 0, 1, 1, 2, 2], [1, 2, 0, 2, 0, 1]),
            entry_of_second = Some ([0, 0, 1, 1, 2, 2], [1, 2, 0, 2, 0, 1])\<rparr>
   \<and> constructed (water_dataset [''mol_complete_graph''] False False)
   \<and> cache_after ogb_env (water_dataset [''mol_complete_graph''] False False) []
       (Tensor0 0 3) = None
   \<and> cache_after ogb_env (water_dataset [''mol_complete_graph''] False False) [0]
       (Tensor0 0 3) = Some ([0, 0, 1, 1, 2, 2], [1, 2, 0, 2, 0, 1])
   \<and> cache_after ogb_env (water_dataset [''mol_complete_graph''] False False) [0]
       (Tensor0 1 3) = None
   \<and> cache_after ogb_env (water_dataset [''mol_complete_graph''] False False) [0, 0]
       (Tensor0 0 3) = Some ([0, 0, 1, 1, 2, 2], [1, 2, 0, 2, 0, 1])
   \<and> cache_after ogb_env (water_dataset [''mol_complete_graph''] False False) [0, 0]
       (Tensor0 1 3) = Some ([0, 0, 1, 1, 2, 2], [1, 2, 0, 2, 0, 1])"
  by code_simp
section \<open>Properties of batch assembly\<close>

lemma remove_nodes_shrinks:
  "remove_nodes nids g = Inr g' \<Longrightarrow> num_nodes g' \<le> num_nodes g"
proof -
  assume a: "remove_nodes nids g = Inr g'"
  have "length (filter (\<lambda>v. v \<notin> set nids) [0..<num_nodes g]) \<le> num_nodes g"
    using length_filter_le[of "\<lambda>v. v \<notin> set nids" "[0..<num_nodes g]"] by simp
  then show ?thesis
    using a unfolding remove_nodes_def Let_def by (auto split: if_splits)
qed

lemma drop_step_frame:
  assumes "drop_step num_drop rand a store pos = Inr (store', pos')"
  shows "length store' = length store"
    and "\<And>b. b \<noteq> a \<Longrightarrow> store' ! b = store ! b"
    and "num_nodes (store' ! a) \<le> num_nodes (store ! a)"
  using assms remove_nodes_shrinks unfolding drop_step_def
  by (auto split: if_splits sum.splits prod.splits)

lemma drop_loop_frame:
  assumes "drop_loop num_drop rand addrs store pos = Inr (store', pos')"
  shows "length store' = length store
       \<and> (\<forall>b. b \<notin> set addrs \<longrightarrow> store' ! b = store ! b)
       \<and> (\<forall>b. num_nodes (store' ! b) \<le> num_nodes (store ! b))"
  using assms
proof (induction addrs arbitrary: store pos)
  case Nil
  then show ?case by simp
next
  case (Cons a rest)
  from Cons.prems obtain s1 p1 where
    step: "drop_step num_drop rand a store pos = Inr (s1, p1)"
    and loop: "drop_loop num_drop rand rest s1 p1 = Inr (store', pos')"
    by (auto split: sum.splits prod.splits)
  note st = drop_step_frame[OF step]
  note ih = Cons.IH[OF loop]
  have shrink1: "\<forall>b. num_nodes (s1 ! b) \<le> num_nodes (store ! b)"
    using st(2,3) by (metis order_refl)
  have "\<forall>b. num_nodes (store' ! b) \<le> num_nodes (store ! b)"
    using ih shrink1 by (meson order_trans)
  moreover have "\<forall>b. b \<notin> set (a # rest) \<longrightarrow> store' ! b = store ! b"
    using ih st(2) by simp
  ultimately show ?case using ih st(1) by simp
qed

lemma batch_after_drop_fields:
  assumes "batch_after_drop store batch = Inr (store', bg, bg3d)"
  shows "store' = store"
    and "dgl_batch (map (\<lambda>s. store ! fst s) batch) = Inr bg"
    and "dgl_batch (map (\<lambda>s. store ! snd s) batch) = Inr bg3d"
  using assms unfolding batch_after_drop_def deref_all_def
  by (auto split: if_splits sum.splits simp: comp_def)

lemma length_filter_upt_card:
  assumes "S \<subseteq> {..<n}"
  shows "length (filter (\<lambda>v. v \<notin> S) [0..<n]) = n - card S"
proof -
  have fin: "finite S" using assms finite_subset by blast
  have "length (filter (\<lambda>v. v \<notin> S) [0..<n]) = card (set (filter (\<lambda>v. v \<notin> S) [0..<n]))"
    by (rule distinct_card[symmetric]) simp
  also have "set (filter (\<lambda>v. v \<notin> S) [0..<n]) = {..<n} - S" by auto
  also have "card ({..<n} - S) = card {..<n} - card S"
    using card_Diff_subset[OF fin assms] .
  finally show ?thesis by simp
qed

lemma length_keep_rows:
  "length xs \<le> length rows \<Longrightarrow> length (keep_rows (map P xs) rows) = length (filter P xs)"
proof (induction xs arbitrary: rows)
  case Nil
  then show ?case by (simp add: keep_rows_def)
next
  case (Cons x xs)
  then obtain r rs where rows: "rows = r # rs" by (cases rows) auto
  have "length (keep_rows (map P xs) rs) = length (filter P xs)"
    using Cons.IH[of rs] Cons.prems rows by simp
  then show ?case using rows by (simp add: keep_rows_def)
qed

lemma remove_nodes_effect:
  assumes rem: "remove_nodes nids g = Inr g'" and ne: "nids \<noteq> []"
  shows "set nids \<subseteq> {..<num_nodes g}"
    and "num_nodes g' = num_nodes g - card (set nids)"
    and "num_nodes g' < num_nodes g"
    and "length (edges_src g')
         = length (filter (\<lambda>(s, d). s \<notin> set nids \<and> d \<notin> set nids)
                          (zip (edges_src g) (edges_dst g)))"
proof -
  have inr: "\<not> (\<exists>v \<in> set nids. num_nodes g \<le> v)"
    using rem ne unfolding remove_nodes_def by (auto split: if_splits)
  then show sub: "set nids \<subseteq> {..<num_nodes g}" by auto
  have n': "num_nodes g' = length (filter (\<lambda>v. v \<notin> set nids) [0..<num_nodes g])"
    using rem ne inr unfolding remove_nodes_def Let_def by auto
  then show cnt: "num_nodes g' = num_nodes g - card (set nids)"
    using length_filter_upt_card[OF sub] by simp
  have "0 < card (set nids)" using ne by (simp add: card_gt_0_iff)
  moreover have "card (set nids) \<le> num_nodes g"
    using card_mono[OF _ sub] by simp
  ultimately show "num_nodes g' < num_nodes g" using cnt by simp
  have "edges_src g'
        = map (\<lambda>v. length (filter (\<lambda>u. u < v) (filter (\<lambda>v. v \<notin> set nids) [0..<num_nodes g])))
              (keep_rows (map (\<lambda>(s, d). s \<notin> set nids \<and> d \<notin> set nids)
                              (zip (edges_src g) (edges_dst g))) (edges_src g))"
    using rem ne inr unfolding remove_nodes_def Let_def by auto
  then show "length (edges_src g')
         = length (filter (\<lambda>(s, d). s \<notin> set nids \<and> d \<notin> set nids)
                          (zip (edges_src g) (edges_dst g)))"
    by (simp add: length_keep_rows)
qed

lemma drop_step_effect:
  assumes "drop_step num_drop rand a store pos = Inr (s1, p1)"
  shows "p1 = pos + 1 + rand pos mod num_drop"
    and "rand pos mod num_drop = 0 \<Longrightarrow> s1 = store"
    and "0 < rand pos mod num_drop \<Longrightarrow>
           remove_nodes (map (\<lambda>i. rand (pos + 1 + i) mod num_nodes (store ! a))
                             [0..<rand pos mod num_drop]) (store ! a) = Inr (s1 ! a)"
  using assms unfolding drop_step_def randint_def number_of_nodes_def
  by (auto split: if_splits sum.splits prod.splits)

lemma drop_loop_effect:
  assumes "drop_loop num_drop rand addrs store pos = Inr (store', pos')"
    and "k < length addrs"
    and "\<forall>j < length addrs. j \<noteq> k \<longrightarrow> addrs ! j \<noteq> addrs ! k"
  shows "(rand (draw_pos num_drop rand pos k) mod num_drop = 0 \<longrightarrow>
            store' ! (addrs ! k) = store ! (addrs ! k))
       \<and> (0 < rand (draw_pos num_drop rand pos k) mod num_drop \<longrightarrow>
            remove_nodes
              (map (\<lambda>i. rand (draw_pos num_drop rand pos k + 1 + i)
                          mod num_nodes (store ! (addrs ! k)))
                   [0..<rand (draw_pos num_drop rand pos k) mod num_drop])
              (store ! (addrs ! k)) = Inr (store' ! (addrs ! k)))"
  using assms
proof (induction addrs arbitrary: store pos k)
  case Nil
  then show ?case by simp
next
  case (Cons a rest)
  from Cons.prems(1) obtain s1 p1 where
    step: "drop_step num_drop rand a store pos = Inr (s1, p1)"
    and loop: "drop_loop num_drop rand rest s1 p1 = Inr (store', pos')"
    by (auto split: sum.splits prod.splits)
  note eff = drop_step_effect[OF step]
  note fr = drop_step_frame[OF step]
  show ?case
  proof (cases k)
    case 0
    have "a \<notin> set rest"
    proof
      assume "a \<in> set rest"
      then obtain j where j: "j < length rest" "rest ! j = a" by (auto simp: in_set_conv_nth)
      then have "(a # rest) ! Suc j \<noteq> (a # rest) ! k" using Cons.prems(3) 0 by auto
      then show False using j 0 by simp
    qed
    then have same: "store' ! a = s1 ! a" using drop_loop_frame[OF loop] by blast
    show ?thesis using 0 same eff(2,3) by auto
  next
    case (Suc k')
    have k': "k' < length rest" using Cons.prems(2) Suc by simp
    have neq: "rest ! k' \<noteq> a"
    proof -
      have "(a # rest) ! 0 \<noteq> (a # rest) ! k" using Cons.prems(3) Suc by blast
      then show ?thesis using Suc by auto
    qed
    have uniq: "\<forall>j < length rest. j \<noteq> k' \<longrightarrow> rest ! j \<noteq> rest ! k'"
    proof (intro allI impI)
      fix j assume "j < length rest" "j \<noteq> k'"
      then have "(a # rest) ! Suc j \<noteq> (a # rest) ! k" using Cons.prems(3) Suc by auto
      then show "rest ! j \<noteq> rest ! k'" using Suc by simp
    qed
    have s1: "s1 ! (rest ! k') = store ! (rest ! k')" using fr(2)[OF neq] .
    have dp: "draw_pos num_drop rand pos k = draw_pos num_drop rand p1 k'"
      using Suc eff(1) by simp
    from Cons.IH[OF loop k' uniq] show ?thesis
      unfolding dp s1 using Suc by simp
  qed
qed

text \<open>
  Claim C4, as stated, fails: the node-dropping collate functions call \<open>remove_nodes\<close>
  on the graph objects they are handed. With a drop count of 1, the 3D variant leaves the
  caller's 3D graph with two of its three nodes, and the 2D variant does so to the caller's
  2D graph.
\<close>

theorem node_drop_collate_counterexample:
  "NodeDrop3dCollate_call 2 rand_ones [chain3, chain3] [(0, 1)]
     = Inr ([chain3, chain3_dropped], chain3, chain3_dropped)
   \<and> NodeDrop2dCollate_call 2 rand_ones [chain3, chain3] [(0, 1)]
     = Inr ([chain3_dropped, chain3], chain3_dropped, chain3)
   \<and> chain3_dropped \<noteq> chain3
   \<and> num_nodes chain3 = 3 \<and> num_nodes chain3_dropped = 2"
  by code_simp

text \<open>
  Claim C4, amended. Node-dropping batch assembly removes the drawn nodes in place from
  the input graph objects of the kind it drops from: the 3D graphs in the 3D variant, the
  2D graphs in the 2D variant. For a sample whose graph of that kind is no other sample's,
  the object after the call is the object before it when the drawn count is zero, and
  otherwise the result of \<open>remove_nodes\<close> with the drawn node indices: it has lost as
  many nodes as distinct indices were drawn, at least one, and every edge that touches a
  drawn node. Such an object can only lose nodes. Every other graph object is the same
  after the call as before it, and the two returned batches are the disjoint unions of
  the input objects as they are after the dropping.
\<close>

theorem node_drop_collate_frame:
  shows "(NodeDrop3dCollate_call num_drop rand store batch = Inr (store', bg, bg3d) \<longrightarrow>
            length store' = length store
          \<and> (\<forall>a. a \<notin> set (map snd batch) \<longrightarrow> store' ! a = store ! a)
          \<and> (\<forall>a. num_nodes (store' ! a) \<le> num_nodes (store ! a))
          \<and> dgl_batch (map (\<lambda>s. store' ! fst s) batch) = Inr bg
          \<and> dgl_batch (map (\<lambda>s. store' ! snd s) batch) = Inr bg3d
          \<and> (\<forall>k < length batch.
                (\<forall>j < length batch. j \<noteq> k \<longrightarrow> snd (batch ! j) \<noteq> snd (batch ! k)) \<longrightarrow>
                (let a = snd (batch ! k);
                     p = draw_pos num_drop rand 0 k;
                     r = rand p mod num_drop;
                     nids = map (\<lambda>i. rand (p + 1 + i) mod num_nodes (store ! a)) [0..<r]
                 in (r = 0 \<longrightarrow> store' ! a = store ! a)
                  \<and> (0 < r \<longrightarrow>
                        remove_nodes nids (store ! a) = Inr (store' ! a)
                      \<and> num_nodes (store' ! a) = num_nodes (store ! a) - card (set nids)
                      \<and> num_nodes (store' ! a) < num_nodes (store ! a)
                      \<and> length (edges_src (store' ! a))
                        = length (filter (\<lambda>(s, d). s \<notin> set nids \<and> d \<notin> set nids)
                                    (zip (edges_src (store ! a)) (edges_dst (store ! a))))))))
       \<and> (NodeDrop2dCollate_call num_drop rand store batch = Inr (store', bg, bg3d) \<longrightarrow>
            length store' = length store
          \<and> (\<forall>a. a \<notin> set (map fst batch) \<longrightarrow> store' ! a = store ! a)
          \<and> (\<forall>a. num_nodes (store' ! a) \<le> num_nodes (store ! a))
          \<and> dgl_batch (map (\<lambda>s. store' ! fst s) batch) = Inr bg
          \<and> dgl_batch (map (\<lambda>s. store' ! snd s) batch) = Inr bg3d
          \<and> (\<forall>k < length batch.
                (\<forall>j < length batch. j \<noteq> k \<longrightarrow> fst (batch ! j) \<noteq> fst (batch ! k)) \<longrightarrow>
                (let a = fst (batch ! k);
                     p = draw_pos num_drop rand 0 k;
                     r = rand p mod num_drop;
                     nids = map (\<lambda>i. rand (p + 1 + i) mod num_nodes (store ! a)) [0..<r]
                 in (r = 0 \<longrightarrow> store' ! a = store ! a)
                  \<and> (0 < r \<longrightarrow>
                        remove_nodes nids (store ! a) = Inr (store' ! a)
                      \<and> num_nodes (store' ! a) = num_nodes (store ! a) - card (set nids)
                      \<and> num_nodes (store' ! a) < num_nodes (store ! a)
                      \<and> length (edges_src (store' ! a))
                        = length (filter (\<lambda>(s, d). s \<notin> set nids \<and> d \<notin> set nids)
                                    (zip (edges_src (store ! a)) (edges_dst (store ! a))))))))"
proof (intro conjI impI)
  assume call: "NodeDrop3dCollate_call num_drop rand store batch = Inr (store', bg, bg3d)"
  then obtain s1 p1 where
    loop: "drop_loop num_drop rand (map snd batch) store 0 = Inr (s1, p1)"
    and fin: "batch_after_drop s1 batch = Inr (store', bg, bg3d)"
    unfolding NodeDrop3dCollate_call_def by (auto split: if_splits sum.splits prod.splits)
  note b = batch_after_drop_fields[OF fin]
  note f = drop_loop_frame[OF loop]
  show "length store' = length store" using f b(1) by simp
  show "\<forall>a. a \<notin> set (map snd batch) \<longrightarrow> store' ! a = store ! a" using f b(1) by simp
  show "\<forall>a. num_nodes (store' ! a) \<le> num_nodes (store ! a)" using f b(1) by simp
  show "dgl_batch (map (\<lambda>s. store' ! fst s) batch) = Inr bg" using b by simp
  show "dgl_batch (map (\<lambda>s. store' ! snd s) batch) = Inr bg3d" using b by simp
  show "\<forall>k < length batch.
          (\<forall>j < length batch. j \<noteq> k \<longrightarrow> snd (batch ! j) \<noteq> snd (batch ! k)) \<longrightarrow>
          (let a = snd (batch ! k);
               p = draw_pos num_drop rand 0 k;
               r = rand p mod num_drop;
               nids = map (\<lambda>i. rand (p + 1 + i) mod num_nodes (store ! a)) [0..<r]
           in (r = 0 \<longrightarrow> store' ! a = store ! a)
            \<and> (0 < r \<longrightarrow>
                  remove_nodes nids (store ! a) = Inr (store' ! a)
                \<and> num_nodes (store' ! a) = num_nodes (store ! a) - card (set nids)
                \<and> num_nodes (store' ! a) < num_nodes (store ! a)
                \<and> length (edges_src (store' ! a))
                  = length (filter (\<lambda>(s, d). s \<notin> set nids \<and> d \<notin> set nids)
                              (zip (edges_src (store ! a)) (edges_dst (store ! a))))))"
  proof (intro allI impI)
    fix k assume k: "k < length batch"
      and u: "\<forall>j < length batch. j \<noteq> k \<longrightarrow> snd (batch ! j) \<noteq> snd (batch ! k)"
    let ?a = "snd (batch ! k)"
    let ?p = "draw_pos num_drop rand 0 k"
    let ?r = "rand ?p mod num_drop"
    let ?nids = "map (\<lambda>i. rand (?p + 1 + i) mod num_nodes (store ! ?a)) [0..<?r]"
    have k': "k < length (map snd batch)" using k by simp
    have u': "\<forall>j < length (map snd batch). j \<noteq> k \<longrightarrow> map snd batch ! j \<noteq> map snd batch ! k"
      using u k by simp
    have ak: "map snd batch ! k = ?a" using k by simp
    note e = drop_loop_effect[OF loop k' u', unfolded ak b(1)[symmetric]]
    have zero: "?r = 0 \<longrightarrow> store' ! ?a = store ! ?a" by (rule conjunct1[OF e])
    have pos: "0 < ?r \<longrightarrow>
                  remove_nodes ?nids (store ! ?a) = Inr (store' ! ?a)
                \<and> num_nodes (store' ! ?a) = num_nodes (store ! ?a) - card (set ?nids)
                \<and> num_nodes (store' ! ?a) < num_nodes (store ! ?a)
                \<and> length (edges_src (store' ! ?a))
                  = length (filter (\<lambda>(s, d). s \<notin> set ?nids \<and> d \<notin> set ?nids)
                              (zip (edges_src (store ! ?a)) (edges_dst (store ! ?a))))"
    proof
      assume r: "0 < ?r"
      then have rem: "remove_nodes ?nids (store ! ?a) = Inr (store' ! ?a)"
        using conjunct2[OF e] by simp
      have ne: "?nids \<noteq> []" using r by simp
      show "remove_nodes ?nids (store ! ?a) = Inr (store' ! ?a)
                \<and> num_nodes (store' ! ?a) = num_nodes (store ! ?a) - card (set ?nids)
                \<and> num_nodes (store' ! ?a) < num_nodes (store ! ?a)
                \<and> length (edges_src (store' ! ?a))
                  = length (filter (\<lambda>(s, d). s \<notin> set ?nids \<and> d \<notin> set ?nids)
                              (zip (edges_src (store ! ?a)) (edges_dst (store ! ?a))))"
        using rem remove_nodes_effect(2,3,4)[OF rem ne] by blast
    qed
    show "let a = snd (batch ! k);
               p = draw_pos num_drop rand 0 k;
               r = rand p mod num_drop;
               nids = map (\<lambda>i. rand (p + 1 + i) mod num_nodes (store ! a)) [0..<r]
           in (r = 0 \<longrightarrow> store' ! a = store ! a)
            \<and> (0 < r \<longrightarrow>
                  remove_nodes nids (store ! a) = Inr (store' ! a)
                \<and> num_nodes (store' ! a) = num_nodes (store ! a) - card (set nids)
                \<and> num_nodes (store' ! a) < num_nodes (store ! a)
                \<and> length (edges_src (store' ! a))
                  = length (filter (\<lambda>(s, d). s \<notin> set nids \<and> d \<notin> set nids)
                              (zip (edges_src (store ! a)) (edges_dst (store ! a)))))"
      unfolding Let_def using zero pos by blast
  qed
next
  assume call: "NodeDrop2dCollate_call num_drop rand store batch = Inr (store', bg, bg3d)"
  then obtain s1 p1 where
    loop: "drop_loop num_drop rand (map fst batch) store 0 = Inr (s1, p1)"
    and fin: "batch_after_drop s1 batch = Inr (store', bg, bg3d)"
    unfolding NodeDrop2dCollate_call_def by (auto split: if_splits sum.splits prod.splits)
  note b = batch_after_drop_fields[OF fin]
  note f = drop_loop_frame[OF loop]
  show "length store' = length store" using f b(1) by simp
  show "\<forall>a. a \<notin> set (map fst batch) \<longrightarrow> store' ! a = store ! a" using f b(1) by simp
  show "\<forall>a. num_nodes (store' ! a) \<le> num_nodes (store ! a)" using f b(1) by simp
  show "dgl_batch (map (\<lambda>s. store' ! fst s) batch) = Inr bg" using b by simp
  show "dgl_batch (map (\<lambda>s. store' ! snd s) batch) = Inr bg3d" using b by simp
  show "\<forall>k < length batch.
          (\<forall>j < length batch. j \<noteq> k \<longrightarrow> fst (batch ! j) \<noteq> fst (batch ! k)) \<longrightarrow>
          (let a = fst (batch ! k);
               p = draw_pos num_drop rand 0 k;
               r = rand p mod num_drop;
               nids = map (\<lambda>i. rand (p + 1 + i) mod num_nodes (store ! a)) [0..<r]
           in (r = 0 \<longrightarrow> store' ! a = store ! a)
            \<and> (0 < r \<longrightarrow>
                  remove_nodes nids (store ! a) = Inr (store' ! a)
                \<and> num_nodes (store' ! a) = num_nodes (store ! a) - card (set nids)
                \<and> num_nodes (store' ! a) < num_nodes (store ! a)
                \<and> length (edges_src (store' ! a))
                  = length (filter (\<lambda>(s, d). s \<notin> set nids \<and> d \<notin> set nids)
                              (zip (edges_src (store ! a)) (edges_dst (store ! a))))))"
  proof (intro allI impI)
    fix k assume k: "k < length batch"
      and u: "\<forall>j < length batch. j \<noteq> k \<longrightarrow> fst (batch ! j) \<noteq> fst (batch ! k)"
    let ?a = "fst (batch ! k)"
    let ?p = "draw_pos num_drop rand 0 k"
    let ?r = "rand ?p mod num_drop"
    let ?nids = "map (\<lambda>i. rand (?p + 1 + i) mod num_nodes (store ! ?a)) [0..<?r]"
    have k': "k < length (map fst batch)" using k by simp
    have u': "\<forall>j < length (map fst batch). j \<noteq> k \<longrightarrow> map fst batch ! j \<noteq> map fst batch ! k"
      using u k by simp
    have ak: "map fst batch ! k = ?a" using k by simp
    note e = drop_loop_effect[OF loop k' u', unfolded ak b(1)[symmetric]]
    have zero: "?r = 0 \<longrightarrow> store' ! ?a = store ! ?a" by (rule conjunct1[OF e])
    have pos: "0 < ?r \<longrightarrow>
                  remove_nodes ?nids (store ! ?a) = Inr (store' ! ?a)
                \<and> num_nodes (store' ! ?a) = num_nodes (store ! ?a) - card (set ?nids)
                \<and> num_nodes (store' ! ?a) < num_nodes (store ! ?a)
                \<and> length (edges_src (store' ! ?a))
                  = length (filter (\<lambda>(s, d). s \<notin> set ?nids \<and> d \<notin> set ?nids)
                              (zip (edges_src (store ! ?a)) (edges_dst (store ! ?a))))"
    proof
      assume r: "0 < ?r"
      then have rem: "remove_nodes ?nids (store ! ?a) = Inr (store' ! ?a)"
        using conjunct2[OF e] by simp
      have ne: "?nids \<noteq> []" using r by simp
      show "remove_nodes ?nids (store ! ?a) = Inr (store' ! ?a)
                \<and> num_nodes (store' ! ?a) = num_nodes (store ! ?a) - card (set ?nids)
                \<and> num_nodes (store' ! ?a) < num_nodes (store ! ?a)
                \<and> length (edges_src (store' ! ?a))
                  = length (filter (\<lambda>(s, d). s \<notin> set ?nids \<and> d \<notin> set ?nids)
                              (zip (edges_src (store ! ?a)) (edges_dst (store ! ?a))))"
        using rem remove_nodes_effect(2,3,4)[OF rem ne] by blast
    qed
    show "let a = fst (batch ! k);
               p = draw_pos num_drop rand 0 k;
               r = rand p mod num_drop;
               nids = map (\<lambda>i. rand (p + 1 + i) mod num_nodes (store ! a)) [0..<r]
           in (r = 0 \<longrightarrow> store' ! a = store ! a)
            \<and> (0 < r \<longrightarrow>
                  remove_nodes nids (store ! a) = Inr (store' ! a)
                \<and> num_nodes (store' ! a) = num_nodes (store ! a) - card (set nids)
                \<and> num_nodes (store' ! a) < num_nodes (store ! a)
                \<and> length (edges_src (store' ! a))
                  = length (filter (\<lambda>(s, d). s \<notin> set nids \<and> d \<notin> set nids)
                              (zip (edges_src (store ! a)) (edges_dst (store ! a)))))"
      unfolding Let_def using zero pos by blast
  qed
qed

text \<open>
  An example with two samples and the random stream 1, 2, 3, \<dots>: the round of the first
  sample draws one node, node 2, and the chain keeps the bond between nodes 0 and 1; the
  round of the second sample starts at position 2 of the stream and draws node 1, which
  takes every bond with it.
\<close>

theorem node_drop_collate_frame_witness:
  "NodeDrop3dCollate_call 2 rand_ones [chain3, chain3] [(0, 1)]
     = Inr ([chain3, chain3_dropped], chain3, chain3_dropped)
   \<and> (0::nat) \<notin> set (map snd [(0, 1)])
   \<and> [chain3, chain3_dropped] ! 0 = [chain3, chain3] ! 0
   \<and> NodeDrop2dCollate_call 2 rand_ones [chain3, chain3] [(0, 1)]
     = Inr ([chain3_dropped, chain3], chain3_dropped, chain3)
   \<and> (1::nat) \<notin> set (map fst [(0, 1)])
   \<and> [chain3_dropped, chain3] ! 1 = [chain3, chain3] ! 1
   \<and> NodeDrop3dCollate_call 2 rand_succ [chain3, chain3, chain3, chain3] [(0, 1), (2, 3)]
     = Inr ([chain3, chain3_no2, chain3, chain3_dropped],
            chain3_twice [[0, 0, 0], [1, 0, 0], [2, 0, 0], [0, 0, 0], [1, 0, 0], [2, 0, 0]]
                         [[1], [1], [1], [1], [1], [1], [1], [1]],
            dropped_twice)
   \<and> draw_pos 2 rand_succ 0 0 = 0
   \<and> remove_nodes [2] chain3 = Inr chain3_no2
   \<and> num_nodes chain3_no2 = num_nodes chain3 - card (set [2::nat])
   \<and> length (edges_src chain3_no2) = 2
   \<and> draw_pos 2 rand_succ 0 1 = 2
   \<and> remove_nodes [1] chain3 = Inr chain3_dropped
   \<and> num_nodes chain3_dropped = num_nodes chain3 - card (set [1::nat])
   \<and> num_nodes chain3_dropped < num_nodes chain3
   \<and> length (edges_src chain3_dropped) = 0"
proof -
  have c3: "NodeDrop3dCollate_call 2 rand_ones [chain3, chain3] [(0, 1)]
     = Inr ([chain3, chain3_dropped], chain3, chain3_dropped)"
    by code_simp
  have c2: "NodeDrop2dCollate_call 2 rand_ones [chain3, chain3] [(0, 1)]
     = Inr ([chain3_dropped, chain3], chain3_dropped, chain3)"
    by code_simp
  have n0: "(0::nat) \<notin> set (map snd [(0, 1)])" by simp
  have n1: "(1::nat) \<notin> set (map fst [(0, 1)])" by simp
  have f3: "[chain3, chain3_dropped] ! 0 = [chain3, chain3] ! 0"
    using node_drop_collate_frame[of 2 rand_ones "[chain3, chain3]" "[(0, 1)]"
            "[chain3, chain3_dropped]" chain3 chain3_dropped] c3 n0
    by blast
  have f2: "[chain3_dropped, chain3] ! 1 = [chain3, chain3] ! 1"
    using node_drop_collate_frame[of 2 rand_ones "[chain3, chain3]" "[(0, 1)]"
            "[chain3_dropped, chain3]" chain3_dropped chain3] c2 n1
    by blast
  let ?store = "[chain3, chain3, chain3, chain3]"
  let ?store' = "[chain3, chain3_no2, chain3, chain3_dropped]"
  let ?batch = "[(0, 1), (2, 3)] :: (nat \<times> nat) list"
  let ?bg = "chain3_twice [[0, 0, 0], [1, 0, 0], [2, 0, 0], [0, 0, 0], [1, 0, 0], [2, 0, 0]]
                          [[1], [1], [1], [1], [1], [1], [1], [1]]"
  have c4: "NodeDrop3dCollate_call 2 rand_succ ?store ?batch = Inr (?store', ?bg, dropped_twice)"
    by code_simp
  have dp0: "draw_pos 2 rand_succ 0 0 = 0" by simp
  have dp1: "draw_pos 2 rand_succ 0 1 = 2" by code_simp
  have r0: "rand_succ 0 mod 2 = 1" by code_simp
  have r1: "rand_succ 2 mod 2 = 1" by code_simp
  have nn: "num_nodes chain3 = 3" by code_simp
  have i0: "rand_succ (Suc 0) mod 3 = 2" by code_simp
  have i1: "rand_succ 3 mod 3 = 1" by code_simp
  have one: "[0..<1] = [0]" by (simp add: upt_rec)
  note frame = node_drop_collate_frame[of 2 rand_succ ?store ?batch ?store' ?bg dropped_twice]
  have all: "\<forall>k < length ?batch.
          (\<forall>j < length ?batch. j \<noteq> k \<longrightarrow> snd (?batch ! j) \<noteq> snd (?batch ! k)) \<longrightarrow>
          (let a = snd (?batch ! k);
               p = draw_pos 2 rand_succ 0 k;
               r = rand_succ p mod 2;
               nids = map (\<lambda>i. rand_succ (p + 1 + i) mod num_nodes (?store ! a)) [0..<r]
           in (r = 0 \<longrightarrow> ?store' ! a = ?store ! a)
            \<and> (0 < r \<longrightarrow>
                  remove_nodes nids (?store ! a) = Inr (?store' ! a)
                \<and> num_nodes (?store' ! a) = num_nodes (?store ! a) - card (set nids)
                \<and> num_nodes (?store' ! a) < num_nodes (?store ! a)
                \<and> length (edges_src (?store' ! a))
                  = length (filter (\<lambda>(s, d). s \<notin> set nids \<and> d \<notin> set nids)
                              (zip (edges_src (?store ! a)) (edges_dst (?store ! a))))))"
    using frame c4 by blast
  have u0: "\<forall>j < length ?batch. j \<noteq> 0 \<longrightarrow> snd (?batch ! j) \<noteq> snd (?batch ! 0)"
    by (simp add: less_Suc_eq)
  have u1: "\<forall>j < length ?batch. j \<noteq> 1 \<longrightarrow> snd (?batch ! j) \<noteq> snd (?batch ! 1)"
    by (simp add: less_Suc_eq)
  have k0: "(0::nat) < length ?batch" and k1: "(1::nat) < length ?batch" by simp_all
  from all k0 u0
  have "let a = snd (?batch ! 0);
               p = draw_pos 2 rand_succ 0 0;
               r = rand_succ p mod 2;
               nids = map (\<lambda>i. rand_succ (p + 1 + i) mod num_nodes (?store ! a)) [0..<r]
           in (r = 0 \<longrightarrow> ?store' ! a = ?store ! a)
            \<and> (0 < r \<longrightarrow>
                  remove_nodes nids (?store ! a) = Inr (?store' ! a)
                \<and> num_nodes (?store' ! a) = num_nodes (?store ! a) - card (set nids)
                \<and> num_nodes (?store' ! a) < num_nodes (?store ! a)
                \<and> length (edges_src (?store' ! a))
                  = length (filter (\<lambda>(s, d). s \<notin> set nids \<and> d \<notin> set nids)
                              (zip (edges_src (?store ! a)) (edges_dst (?store ! a)))))"
    by blast
  then have e0: "remove_nodes [2] chain3 = Inr chain3_no2
             \<and> num_nodes chain3_no2 = num_nodes chain3 - card (set [2::nat])
             \<and> length (edges_src chain3_no2)
               = length (filter (\<lambda>(s, d). s \<notin> set [2::nat] \<and> d \<notin> set [2::nat])
                           (zip (edges_src chain3) (edges_dst chain3)))"
    unfolding Let_def dp0 r0 by (simp add: nn one i0)
  from all k1 u1
  have "let a = snd (?batch ! 1);
               p = draw_pos 2 rand_succ 0 1;
               r = rand_succ p mod 2;
               nids = map (\<lambda>i. rand_succ (p + 1 + i) mod num_nodes (?store ! a)) [0..<r]
           in (r = 0 \<longrightarrow> ?store' ! a = ?store ! a)
            \<and> (0 < r \<longrightarrow>
                  remove_nodes nids (?store ! a) = Inr (?store' ! a)
                \<and> num_nodes (?store' ! a) = num_nodes (?store ! a) - card (set nids)
                \<and> num_nodes (?store' ! a) < num_nodes (?store ! a)
                \<and> length (edges_src (?store' ! a))
                  = length (filter (\<lambda>(s, d). s \<notin> set nids \<and> d \<notin> set nids)
                              (zip (edges_src (?store ! a)) (edges_dst (?store ! a)))))"
    by blast
  then have e1: "remove_nodes [1] chain3 = Inr chain3_dropped
             \<and> num_nodes chain3_dropped = num_nodes chain3 - card (set [1::nat])
             \<and> num_nodes chain3_dropped < num_nodes chain3
             \<and> length (edges_src chain3_dropped)
               = length (filter (\<lambda>(s, d). s \<notin> set [1::nat] \<and> d \<notin> set [1::nat])
                           (zip (edges_src chain3) (edges_dst chain3)))"
    unfolding Let_def dp1 r1 by (simp add: nn one i1)
  have l0: "length (filter (\<lambda>(s, d). s \<notin> set [2::nat] \<and> d \<notin> set [2::nat])
                           (zip (edges_src chain3) (edges_dst chain3))) = 2"
    by code_simp
  have l1: "length (filter (\<lambda>(s, d). s \<notin> set [1::nat] \<and> d \<notin> set [1::nat])
                           (zip (edges_src chain3) (edges_dst chain3))) = 0"
    by code_simp
  from c3 n0 f3 c2 n1 f2 c4 dp0 dp1 e0 e1 l0 l1 show ?thesis by simp
qed
lemma noised_example:
  "NoisedDistancesCollate_call add_rows noise_tens 1 [(chain3, chain3, [] :: nat list)]
   = Inr (chain3,
          chain3_twice [[0, 0, 0], [1, 0, 0], [2, 0, 0], [0, 0, 0], [1, 0, 0], [2, 0, 0]]
                       [[1], [1], [1], [1], [11], [12], [13], [14]],
          None)"
  by code_simp

lemma dgl_batch_chain3: "dgl_batch [chain3] = Inr chain3"
  by code_simp

lemma wf_graph_chain3: "wf_graph chain3"
  by code_simp

lemma length_shifted: "length (shifted off xs) = sum_list (map (\<lambda>x. length (snd x)) xs)"
  by (induction off xs rule: shifted.induct) simp_all

lemma length_cat_attr:
  assumes "\<forall>d \<in> set ds. \<exists>w. map_of (fst d) k = Some w \<and> length w = snd d"
  shows "length (cat_attr (map fst ds) k) = sum_list (map snd ds)"
  using assms by (induction ds) (auto simp: cat_attr_def)

lemma keys_assign: "set (map fst (assign d k v)) = insert k (set (map fst d))"
proof (induction d)
  case Nil
  then show ?case by simp
next
  case (Cons kv d)
  obtain k' v' where kv: "kv = (k', v')" by (cases kv)
  show ?case using Cons.IH unfolding kv by (cases "k' = k") auto
qed

lemma same_keys_Cons:
  "same_keys (d # ds) = (\<forall>d' \<in> set ds. set (map fst d') = set (map fst d))"
  by (simp add: same_keys_def)

lemma dgl_batch_returns:
  assumes "gs \<noteq> []" "same_keys (map ndata gs)" "same_keys (map edata gs)"
  shows "\<exists>b. dgl_batch gs = Inr b"
  using assms by (simp add: dgl_batch_def)

lemma noised_copies_returns:
  assumes w: "map_of (edata g) ''w'' = Some w" and len: "length w = number_of_edges g"
  shows "\<exists>copies. noised_copies add noise g idxs = Inr copies
           \<and> (\<forall>c \<in> set copies. ndata c = ndata g
                  \<and> set (map fst (edata c)) = set (map fst (edata g)))"
proof (induction idxs)
  case Nil
  then show ?case by simp
next
  case (Cons i rest)
  let ?w' = "map (\<lambda>(j, x). add x (noise i j)) (enumerate 0 w)"
  have step: "add_noise_w add noise i g = Inr (g\<lparr>edata := assign (edata g) ''w'' ?w'\<rparr>)"
    using w len by (simp add: add_noise_w_def lookup_def set_edata_def)
  have "''w'' \<in> set (map fst (edata g))" using w map_of_Some_fst by fastforce
  then have keys: "set (map fst (assign (edata g) ''w'' ?w')) = set (map fst (edata g))"
    unfolding keys_assign by blast
  from Cons.IH obtain copies where
    c: "noised_copies add noise g rest = Inr copies"
    and p: "\<forall>c \<in> set copies. ndata c = ndata g \<and> set (map fst (edata c)) = set (map fst (edata g))"
    by blast
  show ?case using step c p keys by simp
qed

lemma return_with_targets_returns:
  assumes "length cols \<le> 1"
  shows "\<exists>t. return_with_targets a b cols = Inr (a, b, t)"
proof (cases cols)
  case Nil
  then show ?thesis by (simp add: return_with_targets_def)
next
  case (Cons c rest)
  then have "rest = []" using assms by simp
  then show ?thesis using Cons by (simp add: return_with_targets_def stack_star_def)
qed

lemma noised_distances_collate_props:
  assumes call: "NoisedDistancesCollate_call add noise m batch = Inr (bg, bg3d, tg)"
    and wf: "\<forall>s \<in> set batch. wf_graph (fst (snd s))"
  shows "\<exists>b3. dgl_batch (map (\<lambda>s. fst (snd s)) batch) = Inr b3
           \<and> number_of_nodes bg3d = (m + 1) * number_of_nodes b3
           \<and> batch_num_nodes bg3d = concat (replicate (m + 1) (batch_num_nodes b3))
           \<and> take (number_of_edges b3) (edges_src bg3d) = edges_src b3
           \<and> take (number_of_edges b3) (edges_dst bg3d) = edges_dst b3
           \<and> (\<forall>w. lookup (edata b3) ''w'' = Inr w \<longrightarrow>
                 (\<exists>rest. lookup (edata bg3d) ''w'' = Inr (w @ rest)))
           \<and> (\<forall>k < number_of_edges bg3d.
                 segment_of (batch_num_nodes bg3d) (edges_src bg3d ! k)
                 = segment_of (batch_num_nodes bg3d) (edges_dst bg3d ! k))"
proof -
  from call obtain b3 copies where
    b3: "dgl_batch (map (\<lambda>s. fst (snd s)) batch) = Inr b3"
    and copies: "noised_copies add noise b3 [0..<m] = Inr copies"
    and final: "dgl_batch (b3 # copies) = Inr bg3d"
    unfolding NoisedDistancesCollate_call_def return_with_targets_def
    by (auto split: if_splits sum.splits)
  note cf = noised_copies_fields[OF copies]
  note ff = dgl_batch_fields[OF final]
  have len: "length copies = m" using cf by simp
  have nodes: "number_of_nodes bg3d = (m + 1) * number_of_nodes b3"
    using ff(2) cf sum_list_const[of copies num_nodes "num_nodes b3"]
    by (simp add: number_of_nodes_def)
  have sizes: "batch_num_nodes bg3d = concat (replicate (m + 1) (batch_num_nodes b3))"
    using ff(5) cf concat_const[of copies batch_num_nodes "batch_num_nodes b3"] by simp
  have src: "take (number_of_edges b3) (edges_src bg3d) = edges_src b3"
    using ff(3) by (simp add: number_of_edges_def map_add_zero)
  have "length (edges_dst b3) = length (edges_src b3)"
  proof -
    have "wf_graph b3" using wf_graph_dgl_batch[OF _ b3] wf by simp
    then show ?thesis by (simp add: wf_graph_def)
  qed
  then have dst: "take (number_of_edges b3) (edges_dst bg3d) = edges_dst b3"
    using ff(4) by (simp add: number_of_edges_def map_add_zero)
  have wf_b3: "wf_graph b3" using wf_graph_dgl_batch[OF _ b3] wf by simp
  have "\<forall>c \<in> set (b3 # copies). wf_graph c"
    using wf_b3 cf wf_graph_same_shape by (metis set_ConsD)
  then have wf_final: "wf_graph bg3d" using wf_graph_dgl_batch[OF _ final] by blast
  have weights: "\<forall>w. lookup (edata b3) ''w'' = Inr w \<longrightarrow>
                 (\<exists>rest. lookup (edata bg3d) ''w'' = Inr (w @ rest))"
  proof (intro allI impI)
    fix w assume "lookup (edata b3) ''w'' = Inr w"
    then have w: "map_of (edata b3) ''w'' = Some w"
      by (simp add: lookup_def split: option.splits)
    then have key: "''w'' \<in> set (remdups (map fst (edata b3)))"
      using map_of_Some_fst by fastforce
    have "map_of (edata bg3d) ''w'' = Some (cat_attr (map edata (b3 # copies)) ''w'')"
      unfolding ff(7) map_of_keyed using key by simp
    also have "cat_attr (map edata (b3 # copies)) ''w'' = w @ cat_attr (map edata copies) ''w''"
      using w by (simp add: cat_attr_def)
    finally show "\<exists>rest. lookup (edata bg3d) ''w'' = Inr (w @ rest)"
      by (simp add: lookup_def)
  qed
  have cross: "\<forall>k < number_of_edges bg3d.
                 segment_of (batch_num_nodes bg3d) (edges_src bg3d ! k)
                 = segment_of (batch_num_nodes bg3d) (edges_dst bg3d ! k)"
    using wf_graph_nth[OF wf_final] by blast
  show ?thesis using b3 nodes sizes src dst weights cross by blast
qed


lemma batched_w:
  assumes ne: "gs \<noteq> []" and b: "dgl_batch gs = Inr b3"
    and w: "\<forall>g \<in> set gs. \<exists>w. map_of (edata g) ''w'' = Some w \<and> length w = number_of_edges g"
  shows "map_of (edata b3) ''w'' = Some (cat_attr (map edata gs) ''w'')"
    and "length (cat_attr (map edata gs) ''w'') = number_of_edges b3"
proof -
  note f = dgl_batch_fields[OF b]
  have "hd gs \<in> set gs" using ne by simp
  then have hdw: "''w'' \<in> set (map fst (edata (hd gs)))"
    using w map_of_Some_fst by fastforce
  show "map_of (edata b3) ''w'' = Some (cat_attr (map edata gs) ''w'')"
    unfolding f(7) map_of_keyed using hdw by simp
  have "length (cat_attr (map fst (map (\<lambda>g. (edata g, length (edges_src g))) gs)) ''w'')
        = sum_list (map snd (map (\<lambda>g. (edata g, length (edges_src g))) gs))"
    by (rule length_cat_attr) (use w in \<open>auto simp: number_of_edges_def\<close>)
  then have "length (cat_attr (map edata gs) ''w'') = sum_list (map (\<lambda>g. length (edges_src g)) gs)"
    by (simp add: comp_def)
  also have "\<dots> = number_of_edges b3"
    unfolding number_of_edges_def f(3) length_shifted by (simp add: comp_def)
  finally show "length (cat_attr (map edata gs) ''w'') = number_of_edges b3" .
qed

lemma noised_distances_collate_returns:
  assumes ne: "batch \<noteq> []"
    and k2: "same_keys (map ndata (map fst batch))" "same_keys (map edata (map fst batch))"
    and k3: "same_keys (map ndata (map (\<lambda>s. fst (snd s)) batch))"
            "same_keys (map edata (map (\<lambda>s. fst (snd s)) batch))"
    and w: "\<forall>s \<in> set batch. \<exists>w. map_of (edata (fst (snd s))) ''w'' = Some w
                              \<and> length w = number_of_edges (fst (snd s))"
    and t: "length (columns (map (\<lambda>s. snd (snd s)) batch)) \<le> 1"
  shows "\<exists>bg bg3d tg. NoisedDistancesCollate_call add noise m batch = Inr (bg, bg3d, tg)"
proof -
  let ?g3 = "map (\<lambda>s. fst (snd s)) batch"
  obtain bg where bg: "dgl_batch (map fst batch) = Inr bg"
    using dgl_batch_returns[OF _ k2] ne by auto
  obtain b3 where b3: "dgl_batch ?g3 = Inr b3"
    using dgl_batch_returns[OF _ k3] ne by auto
  have w3: "\<forall>g \<in> set ?g3. \<exists>w. map_of (edata g) ''w'' = Some w \<and> length w = number_of_edges g"
    using w by auto
  have ne3: "?g3 \<noteq> []" using ne by simp
  note bw = batched_w[OF ne3 b3 w3]
  from noised_copies_returns[OF bw, of add noise "[0..<m]"] obtain copies where
    c: "noised_copies add noise b3 [0..<m] = Inr copies"
    and p: "\<forall>c \<in> set copies. ndata c = ndata b3 \<and> set (map fst (edata c)) = set (map fst (edata b3))"
    by blast
  have "same_keys (map ndata (b3 # copies))" "same_keys (map edata (b3 # copies))"
    using p by (auto simp: same_keys_def)
  then obtain fin where fin: "dgl_batch (b3 # copies) = Inr fin"
    using dgl_batch_returns[of "b3 # copies"] by auto
  from return_with_targets_returns[OF t, of bg fin] obtain tg where
    "return_with_targets bg fin (columns (map (\<lambda>s. snd (snd s)) batch)) = Inr (bg, fin, tg)"
    by blast
  then show ?thesis using ne bg b3 c fin
    by (simp add: NoisedDistancesCollate_call_def)
qed

text \<open>
  Claim C8. On a non-empty batch of well-formed graphs that carry the same attribute
  names, whose 3D graphs have an edge weight \<open>w\<close> for every edge, and with at most one
  target per sample, noised-distance batch assembly with \<open>num_noised = m\<close> returns.
  The batched 3D graph it returns has \<open>m + 1\<close> times the node count of the batched
  unnoised input \<open>b3\<close> (its batch sizes are those of \<open>b3\<close>, \<open>m + 1\<close> times over);
  its first edges are the edges of \<open>b3\<close> and its edge weights \<open>w\<close> start with the
  weights of \<open>b3\<close>, one per edge of \<open>b3\<close> and unchanged; and no edge connects nodes
  of two different source graphs or replicas.
\<close>

theorem noised_distances_collate:
  assumes ne: "batch \<noteq> []"
    and k2: "same_keys (map ndata (map fst batch))" "same_keys (map edata (map fst batch))"
    and k3: "same_keys (map ndata (map (\<lambda>s. fst (snd s)) batch))"
            "same_keys (map edata (map (\<lambda>s. fst (snd s)) batch))"
    and w: "\<forall>s \<in> set batch. \<exists>w. map_of (edata (fst (snd s))) ''w'' = Some w
                              \<and> length w = number_of_edges (fst (snd s))"
    and t: "length (columns (map (\<lambda>s. snd (snd s)) batch)) \<le> 1"
    and wf: "\<forall>s \<in> set batch. wf_graph (fst (snd s))"
  shows "\<exists>bg bg3d tg b3 w0 rest.
           NoisedDistancesCollate_call add noise m batch = Inr (bg, bg3d, tg)
         \<and> dgl_batch (map (\<lambda>s. fst (snd s)) batch) = Inr b3
         \<and> number_of_nodes bg3d = (m + 1) * number_of_nodes b3
         \<and> batch_num_nodes bg3d = concat (replicate (m + 1) (batch_num_nodes b3))
         \<and> take (number_of_edges b3) (edges_src bg3d) = edges_src b3
         \<and> take (number_of_edges b3) (edges_dst bg3d) = edges_dst b3
         \<and> lookup (edata b3) ''w'' = Inr w0 \<and> length w0 = number_of_edges b3
         \<and> lookup (edata bg3d) ''w'' = Inr (w0 @ rest)
         \<and> (\<forall>k < number_of_edges bg3d.
               segment_of (batch_num_nodes bg3d) (edges_src bg3d ! k)
               = segment_of (batch_num_nodes bg3d) (edges_dst bg3d ! k))"
proof -
  let ?g3 = "map (\<lambda>s. fst (snd s)) batch"
  from noised_distances_collate_returns[OF ne k2 k3 w t, of add noise m]
  obtain bg bg3d tg where
    call: "NoisedDistancesCollate_call add noise m batch = Inr (bg, bg3d, tg)" by blast
  from noised_distances_collate_props[OF call wf] obtain b3 where
    b3: "dgl_batch ?g3 = Inr b3"
    and nodes: "number_of_nodes bg3d = (m + 1) * number_of_nodes b3"
    and sizes: "batch_num_nodes bg3d = concat (replicate (m + 1) (batch_num_nodes b3))"
    and src: "take (number_of_edges b3) (edges_src bg3d) = edges_src b3"
    and dst: "take (number_of_edges b3) (edges_dst bg3d) = edges_dst b3"
    and weights: "\<forall>w. lookup (edata b3) ''w'' = Inr w \<longrightarrow>
                   (\<exists>rest. lookup (edata bg3d) ''w'' = Inr (w @ rest))"
    and cross: "\<forall>k < number_of_edges bg3d.
                 segment_of (batch_num_nodes bg3d) (edges_src bg3d ! k)
                 = segment_of (batch_num_nodes bg3d) (edges_dst bg3d ! k)"
    by blast
  have w3: "\<forall>g \<in> set ?g3. \<exists>w. map_of (edata g) ''w'' = Some w \<and> length w = number_of_edges g"
    using w by auto
  have ne3: "?g3 \<noteq> []" using ne by simp
  note bw = batched_w[OF ne3 b3 w3]
  let ?w0 = "cat_attr (map edata ?g3) ''w''"
  have l0: "lookup (edata b3) ''w'' = Inr ?w0" using bw(1) by (simp add: lookup_def)
  then obtain rest where r: "lookup (edata bg3d) ''w'' = Inr (?w0 @ rest)"
    using weights by blast
  show ?thesis using call b3 nodes sizes src dst l0 bw(2) r cross by blast
qed

theorem noised_distances_collate_witness:
  "[(chain3, chain3, [] :: nat list)] \<noteq> []
   \<and> same_keys (map ndata (map fst [(chain3, chain3, [] :: nat list)]))
   \<and> same_keys (map edata (map fst [(chain3, chain3, [] :: nat list)]))
   \<and> map_of (edata chain3) ''w'' = Some [[1], [1], [1], [1]]
   \<and> length [[1], [1], [1], [1 :: nat]] = number_of_edges chain3
   \<and> length (columns [[] :: nat list]) \<le> 1
   \<and> wf_graph chain3
   \<and> NoisedDistancesCollate_call add_rows noise_tens 1 [(chain3, chain3, [] :: nat list)]
       = Inr (chain3,
              chain3_twice [[0, 0, 0], [1, 0, 0], [2, 0, 0], [0, 0, 0], [1, 0, 0], [2, 0, 0]]
                           [[1], [1], [1], [1], [11], [12], [13], [14]],
              None)
   \<and> number_of_nodes
         (chain3_twice [[0, 0, 0], [1, 0, 0], [2, 0, 0], [0, 0, 0], [1, 0, 0], [2, 0, 0]]
                       [[1], [1], [1], [1], [11], [12], [13], [14]])
       = (1 + 1) * number_of_nodes chain3"
proof -
  let ?batch = "[(chain3, chain3, [] :: nat list)]"
  let ?big = "chain3_twice [[0, 0, 0], [1, 0, 0], [2, 0, 0], [0, 0, 0], [1, 0, 0], [2, 0, 0]]
                           [[1], [1], [1], [1], [11], [12], [13], [14]]"
  have ne: "?batch \<noteq> []" by simp
  have k2: "same_keys (map ndata (map fst ?batch))" "same_keys (map edata (map fst ?batch))"
    by code_simp+
  have k3: "same_keys (map ndata (map (\<lambda>s. fst (snd s)) ?batch))"
           "same_keys (map edata (map (\<lambda>s. fst (snd s)) ?batch))"
    by code_simp+
  have w0: "map_of (edata chain3) ''w'' = Some [[1], [1], [1], [1]]" by code_simp
  have l0: "length [[1], [1], [1], [1 :: nat]] = number_of_edges chain3" by code_simp
  have w: "\<forall>s \<in> set ?batch. \<exists>w. map_of (edata (fst (snd s))) ''w'' = Some w
                              \<and> length w = number_of_edges (fst (snd s))"
    using w0 l0 by simp
  have t0: "length (columns [[] :: nat list]) \<le> 1" by code_simp
  then have t: "length (columns (map (\<lambda>s. snd (snd s)) ?batch)) \<le> 1" by simp
  have wf: "\<forall>s \<in> set ?batch. wf_graph (fst (snd s))" by (simp add: wf_graph_chain3)
  from noised_distances_collate[OF ne k2 k3 w t wf, of add_rows noise_tens 1]
  have "number_of_nodes ?big = (1 + 1) * number_of_nodes chain3"
    using noised_example by (auto simp: dgl_batch_chain3)
  then show ?thesis
    using ne k2 w0 l0 t0 wf_graph_chain3 noised_example by blast
qed

lemma conformer_copies_eq:
  assumes "conformer_copies conf g idxs = Inr copies"
  shows "copies = map (\<lambda>i. g\<lparr>ndata := assign (ndata g) ''x''
                                 (col_slice (i * 3) ((i + 1) * 3) conf)\<rparr>) idxs"
  using assms
proof (induction idxs arbitrary: copies)
  case Nil
  then show ?case by simp
next
  case (Cons i rest)
  from Cons.prems obtain c cs where
    c: "set_ndata ''x'' (col_slice (i * 3) ((i + 1) * 3) conf) g = Inr c"
    and cs: "conformer_copies conf g rest = Inr cs" and eq: "copies = c # cs"
    by (auto split: sum.splits)
  have "c = g\<lparr>ndata := assign (ndata g) ''x'' (col_slice (i * 3) ((i + 1) * 3) conf)\<rparr>"
    using c by (auto simp: set_ndata_def split: if_splits)
  then show ?case using Cons.IH[OF cs] eq by simp
qed

lemma cat_attr_copies:
  "cat_attr (map (\<lambda>i. assign d ''x'' (f i)) idxs) ''x'' = concat (map f idxs)"
  by (induction idxs) (simp_all add: cat_attr_def map_of_assign_same)

lemma shifted_replicate_src:
  "shifted off (map (\<lambda>g. (num_nodes g, edges_src g)) (map h idxs))
   = shifted off (map (\<lambda>i. (num_nodes (h i), edges_src (h i))) idxs)"
  by (simp add: comp_def)

lemma map_const_replicate:
  "(\<forall>x \<in> set xs. f x = y) \<Longrightarrow> map f xs = replicate (length xs) y"
  by (induction xs) simp_all

text \<open>
  Claim C7, as stated, fails on the first replica: with two conformers for the three-atom
  chain, the first three node positions of the result are the 3D graph's own positions,
  not the first slice of the conformer rows.
\<close>

theorem conformer_collate_counterexample:
  "ConformerCollate_call 2 [(chain3, chain3, chain3_conformers, [] :: nat list)]
   = Inr (chain3,
          chain3_twice [[0, 0, 0], [1, 0, 0], [2, 0, 0], [6, 6, 6], [6, 6, 6], [6, 6, 6]]
                       [[1], [1], [1], [1], [1], [1], [1], [1]],
          None)
   \<and> lookup (ndata (chain3_twice
                        [[0, 0, 0], [1, 0, 0], [2, 0, 0], [6, 6, 6], [6, 6, 6], [6, 6, 6]]
                        [[1], [1], [1], [1], [1], [1], [1], [1]])) ''x''
       \<noteq> Inr (conformer_positions_spec 2 chain3_conformers)"
  by code_simp

text \<open>
  Claim C7, amended. Conformer batch assembly with \<open>m \<ge> 1\<close> conformers produces
  \<open>m\<close> replicas of the batched 3D graph merged by disjoint union. Replica 0 is the
  batched 3D graph with its own node positions; replica \<open>i\<close>, for \<open>1 \<le> i < m\<close>,
  carries columns \<open>3i, 3i+1, 3i+2\<close> of the conformer rows.
\<close>

theorem conformer_collate:
  assumes call: "ConformerCollate_call m batch = Inr (bg, bc, tg)" and m: "0 < m"
  shows "\<exists>b3 conf.
           dgl_batch (map (\<lambda>s. fst (snd s)) batch) = Inr b3
         \<and> cat_rows (map (\<lambda>s. fst (snd (snd s))) batch) = Inr conf
         \<and> number_of_nodes bc = m * number_of_nodes b3
         \<and> batch_num_nodes bc = concat (replicate m (batch_num_nodes b3))
         \<and> edges_src bc = shifted 0 (replicate m (num_nodes b3, edges_src b3))
         \<and> edges_dst bc = shifted 0 (replicate m (num_nodes b3, edges_dst b3))
         \<and> (\<forall>x0. lookup (ndata b3) ''x'' = Inr x0 \<longrightarrow>
               lookup (ndata bc) ''x''
               = Inr (x0 @ concat (map (\<lambda>i. col_slice (i * 3) ((i + 1) * 3) conf) [1..<m])))"
proof -
  from call obtain conf b3 copies where
    conf: "cat_rows (map (\<lambda>s. fst (snd (snd s))) batch) = Inr conf"
    and b3: "dgl_batch (map (\<lambda>s. fst (snd s)) batch) = Inr b3"
    and copies: "conformer_copies conf b3 [1..<m] = Inr copies"
    and final: "dgl_batch (b3 # copies) = Inr bc"
    unfolding ConformerCollate_call_def return_with_targets_def
    by (auto split: if_splits sum.splits)
  let ?h = "\<lambda>i. b3\<lparr>ndata := assign (ndata b3) ''x'' (col_slice (i * 3) ((i + 1) * 3) conf)\<rparr>"
  have ceq: "copies = map ?h [1..<m]" using conformer_copies_eq[OF copies] .
  note ff = dgl_batch_fields[OF final]
  have len: "Suc (length copies) = m" using ceq m by simp
  have same: "\<forall>c \<in> set copies. num_nodes c = num_nodes b3 \<and> edges_src c = edges_src b3
                \<and> edges_dst c = edges_dst b3 \<and> batch_num_nodes c = batch_num_nodes b3"
    using ceq by auto
  have nodes: "number_of_nodes bc = m * number_of_nodes b3"
    using ff(2) same sum_list_const[of copies num_nodes "num_nodes b3"] len
    by (simp add: number_of_nodes_def flip: len)
  have sizes: "batch_num_nodes bc = concat (replicate m (batch_num_nodes b3))"
    using ff(5) same concat_const[of copies batch_num_nodes "batch_num_nodes b3"]
    by (simp flip: len)
  have msrc: "map (\<lambda>g. (num_nodes g, edges_src g)) (b3 # copies)
              = replicate m (num_nodes b3, edges_src b3)"
    using map_const_replicate[of copies "\<lambda>g. (num_nodes g, edges_src g)" "(num_nodes b3, edges_src b3)"]
      same by (simp flip: len)
  have mdst: "map (\<lambda>g. (num_nodes g, edges_dst g)) (b3 # copies)
              = replicate m (num_nodes b3, edges_dst b3)"
    using map_const_replicate[of copies "\<lambda>g. (num_nodes g, edges_dst g)" "(num_nodes b3, edges_dst b3)"]
      same by (simp flip: len)
  have pos: "\<forall>x0. lookup (ndata b3) ''x'' = Inr x0 \<longrightarrow>
               lookup (ndata bc) ''x''
               = Inr (x0 @ concat (map (\<lambda>i. col_slice (i * 3) ((i + 1) * 3) conf) [1..<m]))"
  proof (intro allI impI)
    fix x0 assume "lookup (ndata b3) ''x'' = Inr x0"
    then have x0: "map_of (ndata b3) ''x'' = Some x0"
      by (simp add: lookup_def split: option.splits)
    then have key: "''x'' \<in> set (remdups (map fst (ndata b3)))"
      using map_of_Some_fst by fastforce
    have "map_of (ndata bc) ''x'' = Some (cat_attr (map ndata (b3 # copies)) ''x'')"
      unfolding ff(8) map_of_keyed using key by simp
    also have "cat_attr (map ndata (b3 # copies)) ''x''
               = x0 @ cat_attr (map ndata copies) ''x''"
      using x0 by (simp add: cat_attr_def)
    also have "cat_attr (map ndata copies) ''x''
               = concat (map (\<lambda>i. col_slice (i * 3) ((i + 1) * 3) conf) [1..<m])"
      using cat_attr_copies[of "ndata b3" "\<lambda>i. col_slice (i * 3) ((i + 1) * 3) conf" "[1..<m]"]
      by (simp add: ceq comp_def)
    finally show "lookup (ndata bc) ''x''
               = Inr (x0 @ concat (map (\<lambda>i. col_slice (i * 3) ((i + 1) * 3) conf) [1..<m]))"
      by (simp add: lookup_def)
  qed
  have esrc: "edges_src bc = shifted 0 (replicate m (num_nodes b3, edges_src b3))"
    using ff(3) unfolding msrc .
  have edst: "edges_dst bc = shifted 0 (replicate m (num_nodes b3, edges_dst b3))"
    using ff(4) unfolding mdst .
  show ?thesis using b3 conf nodes sizes pos esrc edst by blast
qed

theorem conformer_collate_witness:
  "ConformerCollate_call 2 [(chain3, chain3, chain3_conformers, [] :: nat list)]
   = Inr (chain3,
          chain3_twice [[0, 0, 0], [1, 0, 0], [2, 0, 0], [6, 6, 6], [6, 6, 6], [6, 6, 6]]
                       [[1], [1], [1], [1], [1], [1], [1], [1]],
          None)
   \<and> (0::nat) < 2
   \<and> lookup (ndata chain3) ''x'' = Inr [[0, 0, 0], [1, 0, 0], [2, 0, 0]]
   \<and> lookup (ndata (chain3_twice
                        [[0, 0, 0], [1, 0, 0], [2, 0, 0], [6, 6, 6], [6, 6, 6], [6, 6, 6]]
                        [[1], [1], [1], [1], [1], [1], [1], [1]])) ''x''
       = Inr ([[0, 0, 0], [1, 0, 0], [2, 0, 0]]
              @ concat (map (\<lambda>i. col_slice (i * 3) ((i + 1) * 3) chain3_conformers) [1..<2]))"
proof -
  have call: "ConformerCollate_call 2 [(chain3, chain3, chain3_conformers, [] :: nat list)]
   = Inr (chain3,
          chain3_twice [[0, 0, 0], [1, 0, 0], [2, 0, 0], [6, 6, 6], [6, 6, 6], [6, 6, 6]]
                       [[1], [1], [1], [1], [1], [1], [1], [1]],
          None)"
    by code_simp
  have m: "(0::nat) < 2" by simp
  have x: "lookup (ndata chain3) ''x'' = Inr [[0, 0, 0], [1, 0, 0], [2, 0, 0]]"
    by code_simp
  have c: "cat_rows [chain3_conformers] = Inr chain3_conformers"
    by code_simp
  from conformer_collate[OF call m] x c
  have "lookup (ndata (chain3_twice
                        [[0, 0, 0], [1, 0, 0], [2, 0, 0], [6, 6, 6], [6, 6, 6], [6, 6, 6]]
                        [[1], [1], [1], [1], [1], [1], [1], [1]])) ''x''
       = Inr ([[0, 0, 0], [1, 0, 0], [2, 0, 0]]
              @ concat (map (\<lambda>i. col_slice (i * 3) ((i + 1) * 3) chain3_conformers) [1..<2]))"
    by (simp add: dgl_batch_chain3)
  with call m x show ?thesis by blast
qed

section \<open>Properties of target normalization\<close>

lemma init_targets_fields:
  assumes "init_targets tt nrm raw = Inr st"
  shows "\<exists>sel. index_select_cols raw (task_indices st) = Inr sel
           \<and> targets_mean st = map (\<lambda>j. mean_col (column sel j)) [0..<length (task_indices st)]
           \<and> targets_std st = map (\<lambda>j. std_col (column sel j)) [0..<length (task_indices st)]
           \<and> targets st = (if nrm
                 then map (\<lambda>row. map (\<lambda>j. fdiv (fsub (Some (row ! j)) (targets_mean st ! j))
                                                 (targets_std st ! j))
                                       [0..<length (task_indices st)]) sel
                 else map (map Some) sel)"
  using assms unfolding init_targets_def Let_def
  by (auto split: if_splits sum.splits)

lemma index_select_cols_shape:
  assumes "index_select_cols t idxs = Inr sel"
  shows "length sel = length t" and "\<And>i. i < length t \<Longrightarrow> length (sel ! i) = length idxs"
  using assms unfolding index_select_cols_def by (auto split: if_splits)

lemma std_Some_mean_Some: "std_col xs = Some s \<Longrightarrow> \<exists>m. mean_col xs = Some m"
  unfolding std_col_def by (auto split: option.splits)

lemma roundtrip_entry:
  assumes "s \<noteq> 0"
  shows "fadd (fmul (fdiv (fsub (Some x) (Some m)) (Some s)) (Some s)) (Some m) = Some x"
  using assms by (simp add: fadd_def fmul_def fdiv_def fsub_def)

lemma mean_col_Some:
  assumes "mean_col xs = Some m"
  shows "xs \<noteq> []" and "m = sum_list xs / real (length xs)"
  using assms unfolding mean_col_def fdiv_def by (auto split: if_splits)

lemma std_col_Some:
  assumes "std_col xs = Some s"
  shows "\<exists>m. mean_col xs = Some m \<and> real (length xs) - 1 \<noteq> 0
            \<and> s = sqrt (sum_list (map (\<lambda>x. (x - m)\<^sup>2) xs) / (real (length xs) - 1))"
  using assms unfolding std_col_def fdiv_def float_sqrt_def
  by (auto split: option.splits if_splits)

lemma index_select_cols_rows:
  assumes "index_select_cols t idxs = Inr sel"
  shows "sel = map (\<lambda>row. map (\<lambda>c. row ! c) idxs) t"
  using assms unfolding index_select_cols_def by (auto split: if_splits)

lemma sum_list_column: "sum_list (column sel j) = sum_list (map (\<lambda>row. row ! j) sel)"
  by (simp add: column_def)

lemma sum_list_sq_column:
  "sum_list (map (\<lambda>x. (x - m)\<^sup>2) (column sel j)) = sum_list (map (\<lambda>row. (row ! j - m)\<^sup>2) sel)"
  by (simp add: column_def comp_def)

text \<open>
  Claim C9. With normalization enabled, the constructor keeps, for every selected
  property, the mean of its column over the whole table (the sum over the number of
  molecules \<open>N\<close>) and the standard deviation of its column over the whole table (the
  square root of the sum of squared deviations from that mean over \<open>N - 1\<close>), and every
  stored target entry is the selected raw entry minus that mean, divided by that standard
  deviation. For every molecule the denormalization \<open>prediction * std + mean\<close> maps the
  stored row back to the selected raw row, exactly over the reals. The standard deviation
  of every selected property has to be a non-zero number: a constant column, or a table
  of fewer than two rows, gives no finite quotient.
\<close>

theorem normalize_roundtrip:
  assumes init: "init_targets target_tasks True raw = Inr st"
    and std_ok: "\<forall>j < length (task_indices st). \<exists>s. targets_std st ! j = Some s \<and> s \<noteq> 0"
    and i: "i < length raw"
  shows "\<exists>sel. index_select_cols raw (task_indices st) = Inr sel
           \<and> sel = map (\<lambda>row. map (\<lambda>c. row ! c) (task_indices st)) raw
           \<and> length (targets st) = length raw
           \<and> length (targets_mean st) = length (task_indices st)
           \<and> length (targets_std st) = length (task_indices st)
           \<and> (\<forall>j < length (task_indices st).
                 \<exists>mu sigma.
                     mu = sum_list (map (\<lambda>row. row ! j) sel) / real (length raw)
                   \<and> sigma = sqrt (sum_list (map (\<lambda>row. (row ! j - mu)\<^sup>2) sel)
                                    / (real (length raw) - 1))
                   \<and> targets_mean st ! j = Some mu
                   \<and> targets_std st ! j = Some sigma
                   \<and> targets st ! i ! j = Some ((sel ! i ! j - mu) / sigma))
           \<and> (\<forall>j < length (task_indices st).
                 targets st ! i ! j
                   = fdiv (fsub (Some (sel ! i ! j)) (targets_mean st ! j)) (targets_std st ! j))
           \<and> denormalize st (targets st ! i) = map Some (sel ! i)"
proof -
  let ?k = "length (task_indices st)"
  from init_targets_fields[OF init] obtain sel where
    sel: "index_select_cols raw (task_indices st) = Inr sel"
    and means: "targets_mean st = map (\<lambda>j. mean_col (column sel j)) [0..<?k]"
    and stds: "targets_std st = map (\<lambda>j. std_col (column sel j)) [0..<?k]"
    and tgt: "targets st = map (\<lambda>row. map (\<lambda>j. fdiv (fsub (Some (row ! j)) (targets_mean st ! j))
                                                 (targets_std st ! j)) [0..<?k]) sel"
    by auto
  note shape = index_select_cols_shape[OF sel]
  note rows = index_select_cols_rows[OF sel]
  have isel: "i < length sel" using i shape(1) by simp
  have row: "targets st ! i = map (\<lambda>j. fdiv (fsub (Some (sel ! i ! j)) (targets_mean st ! j))
                                                 (targets_std st ! j)) [0..<?k]"
    using tgt isel by simp
  have entries: "\<forall>j < ?k. targets st ! i ! j
                   = fdiv (fsub (Some (sel ! i ! j)) (targets_mean st ! j)) (targets_std st ! j)"
    using row by simp
  have len_tgt: "length (targets st) = length raw" using tgt shape(1) by simp
  have len_mean: "length (targets_mean st) = ?k" using means by simp
  have len_std: "length (targets_std st) = ?k" using stds by simp
  have len_row: "length (targets st ! i) = ?k" using row by simp
  have len_sel: "length (sel ! i) = ?k" using shape(2)[OF i] .
  have stats: "\<forall>j < ?k. \<exists>mu sigma.
                     mu = sum_list (map (\<lambda>row. row ! j) sel) / real (length raw)
                   \<and> sigma = sqrt (sum_list (map (\<lambda>row. (row ! j - mu)\<^sup>2) sel)
                                    / (real (length raw) - 1))
                   \<and> targets_mean st ! j = Some mu
                   \<and> targets_std st ! j = Some sigma
                   \<and> sigma \<noteq> 0
                   \<and> targets st ! i ! j = Some ((sel ! i ! j - mu) / sigma)"
  proof (intro allI impI)
    fix j assume j: "j < ?k"
    from std_ok j obtain s where s: "targets_std st ! j = Some s" "s \<noteq> 0" by blast
    have sc: "std_col (column sel j) = Some s" using s(1) stds j by simp
    from std_col_Some[OF sc] obtain m where
      mc: "mean_col (column sel j) = Some m"
      and sv: "s = sqrt (sum_list (map (\<lambda>x. (x - m)\<^sup>2) (column sel j))
                          / (real (length (column sel j)) - 1))"
      by blast
    have lc: "length (column sel j) = length raw" using shape(1) by (simp add: column_def)
    have mv: "m = sum_list (map (\<lambda>row. row ! j) sel) / real (length raw)"
      using mean_col_Some(2)[OF mc] lc by (simp add: sum_list_column)
    have sv': "s = sqrt (sum_list (map (\<lambda>row. (row ! j - m)\<^sup>2) sel) / (real (length raw) - 1))"
      using sv lc by (simp add: sum_list_sq_column)
    have m: "targets_mean st ! j = Some m" using mc means j by simp
    have "targets st ! i ! j = Some ((sel ! i ! j - m) / s)"
      using entries j s m by (simp add: fdiv_def fsub_def)
    with mv sv' m s show "\<exists>mu sigma.
                     mu = sum_list (map (\<lambda>row. row ! j) sel) / real (length raw)
                   \<and> sigma = sqrt (sum_list (map (\<lambda>row. (row ! j - mu)\<^sup>2) sel)
                                    / (real (length raw) - 1))
                   \<and> targets_mean st ! j = Some mu
                   \<and> targets_std st ! j = Some sigma
                   \<and> sigma \<noteq> 0
                   \<and> targets st ! i ! j = Some ((sel ! i ! j - mu) / sigma)"
      by blast
  qed
  have "denormalize st (targets st ! i) = map Some (sel ! i)"
  proof (rule nth_equalityI)
    show "length (denormalize st (targets st ! i)) = length (map Some (sel ! i))"
      using len_row len_sel by (simp add: denormalize_def)
  next
    fix j assume "j < length (denormalize st (targets st ! i))"
    then have j: "j < ?k" using len_row by (simp add: denormalize_def)
    from stats j obtain mu sigma where
      m: "targets_mean st ! j = Some mu" and s: "targets_std st ! j = Some sigma"
      and nz: "sigma \<noteq> 0" and t: "targets st ! i ! j = Some ((sel ! i ! j - mu) / sigma)"
      by blast
    have "denormalize st (targets st ! i) ! j
          = fadd (fmul (targets st ! i ! j) (targets_std st ! j)) (targets_mean st ! j)"
      using j len_row by (simp add: denormalize_def)
    also have "\<dots> = Some (sel ! i ! j)"
      using t s m nz by (simp add: fadd_def fmul_def)
    finally show "denormalize st (targets st ! i) ! j = map Some (sel ! i) ! j"
      using j len_sel by simp
  qed
  moreover have "\<forall>j < ?k. \<exists>mu sigma.
                     mu = sum_list (map (\<lambda>row. row ! j) sel) / real (length raw)
                   \<and> sigma = sqrt (sum_list (map (\<lambda>row. (row ! j - mu)\<^sup>2) sel)
                                    / (real (length raw) - 1))
                   \<and> targets_mean st ! j = Some mu
                   \<and> targets_std st ! j = Some sigma
                   \<and> targets st ! i ! j = Some ((sel ! i ! j - mu) / sigma)"
    using stats by blast
  ultimately show ?thesis using sel rows len_tgt len_mean len_std entries by blast
qed

text \<open>
  An example with two properties requested in the order \<open>B\<close>, \<open>A\<close>: the column of
  \<open>B\<close> is 14, 10, 18 with mean 14 and standard deviation 4, the column of \<open>A\<close> is
  1, 3, 5 with mean 3 and standard deviation 2.
\<close>

lemma init_targets_example:
  "init_targets (Some [''B'', ''A'']) True [[1, 14], [3, 10], [5, 18]] =
     Inr \<lparr>task_indices = [1, 0],
          targets = [[Some 0, Some (- 1)], [Some (- 1), Some 0], [Some 1, Some 1]],
          targets_mean = [Some 14, Some 3], targets_std = [Some 4, Some 2]\<rparr>"
proof -
  have sel: "index_select_cols [[1, 14], [3, 10], [5, 18::real]] [Suc 0, 0]
             = Inr [[14, 1], [10, 3], [18, 5]]"
    by (simp add: index_select_cols_def)
  have r16: "sqrt 16 = 4" using real_sqrt_abs[of 4] by simp
  have r4: "sqrt 4 = 2" using real_sqrt_abs[of 2] by simp
  have m0: "mean_col [14, 10, 18] = Some 14" by (simp add: mean_col_def fdiv_def)
  have m1: "mean_col [1, 3, 5] = Some 3" by (simp add: mean_col_def fdiv_def)
  have s0: "std_col [14, 10, 18] = Some 4"
    by (simp add: std_col_def m0 fdiv_def float_sqrt_def r16)
  have s1: "std_col [1, 3, 5] = Some 2"
    by (simp add: std_col_def m1 fdiv_def float_sqrt_def r4)
  have u: "[0..<2] = [0, Suc 0]" by (simp add: upt_rec)
  show ?thesis
    by (simp add: init_targets_def resolve_target_tasks_def unit_conversion_keys_def sel
                  column_def m0 m1 s0 s1 fdiv_def fsub_def Let_def u)
qed

theorem normalize_roundtrip_witness:
  "init_targets (Some [''B'', ''A'']) True [[1, 14], [3, 10], [5, 18]] =
     Inr \<lparr>task_indices = [1, 0],
          targets = [[Some 0, Some (- 1)], [Some (- 1), Some 0], [Some 1, Some 1]],
          targets_mean = [Some 14, Some 3], targets_std = [Some 4, Some 2]\<rparr>
   \<and> denormalize \<lparr>task_indices = [1, 0],
                    targets = [[Some 0, Some (- 1)], [Some (- 1), Some 0], [Some 1, Some 1]],
                    targets_mean = [Some 14, Some 3], targets_std = [Some 4, Some 2]\<rparr>
                  [Some 1, Some 1]
       = [Some 18, Some 5]
   \<and> sqrt (((14 - 14)\<^sup>2 + (10 - 14)\<^sup>2 + (18 - 14)\<^sup>2) / (3 - 1)) = (4::real)
   \<and> (14 + 10 + 18) / 3 = (14::real)"
proof -
  let ?raw = "[[1, 14], [3, 10], [5, 18::real]]"
  let ?st = "\<lparr>task_indices = [1, 0],
              targets = [[Some 0, Some (- 1)], [Some (- 1), Some 0], [Some 1, Some (1::real)]],
              targets_mean = [Some 14, Some 3], targets_std = [Some 4, Some (2::real)]\<rparr>"
  have h1: "init_targets (Some [''B'', ''A'']) True ?raw = Inr ?st"
    by (rule init_targets_example)
  have h2: "\<forall>j < length (task_indices ?st). \<exists>s. targets_std ?st ! j = Some s \<and> s \<noteq> 0"
    by (simp add: less_Suc_eq)
  have h3: "(2::nat) < length ?raw" by simp
  have sel: "index_select_cols ?raw [Suc 0, 0] = Inr [[14, 1], [10, 3], [18, 5]]"
    by (simp add: index_select_cols_def)
  from normalize_roundtrip[OF h1 h2 h3] obtain sl where
    a: "index_select_cols ?raw (task_indices ?st) = Inr sl"
    and stats: "\<forall>j < length (task_indices ?st). \<exists>mu sigma.
                     mu = sum_list (map (\<lambda>row. row ! j) sl) / real (length ?raw)
                   \<and> sigma = sqrt (sum_list (map (\<lambda>row. (row ! j - mu)\<^sup>2) sl)
                                    / (real (length ?raw) - 1))
                   \<and> targets_mean ?st ! j = Some mu
                   \<and> targets_std ?st ! j = Some sigma
                   \<and> targets ?st ! 2 ! j = Some ((sl ! 2 ! j - mu) / sigma)"
    and d: "denormalize ?st (targets ?st ! 2) = map Some (sl ! 2)"
    by blast
  have sl: "sl = [[14, 1], [10, 3], [18, 5]]" using a sel by simp
  have den: "denormalize ?st [Some 1, Some 1] = [Some 18, Some 5]"
    using d sl by simp
  have "(0::nat) < length (task_indices ?st)" by simp
  with stats obtain mu sigma where
    m1: "mu = sum_list (map (\<lambda>row. row ! 0) sl) / real (length ?raw)"
    and s1: "sigma = sqrt (sum_list (map (\<lambda>row. (row ! 0 - mu)\<^sup>2) sl)
                             / (real (length ?raw) - 1))"
    and m2: "targets_mean ?st ! 0 = Some mu"
    and s2: "targets_std ?st ! 0 = Some sigma"
    by blast
  have mu14: "mu = 14" using m2 by simp
  have sg4: "sigma = 4" using s2 by simp
  have mu: "(14 + 10 + 18) / 3 = (14::real)" by simp
  have sg: "sqrt (((14 - 14)\<^sup>2 + (10 - 14)\<^sup>2 + (18 - 14)\<^sup>2) / (3 - 1)) = (4::real)"
    using s1 unfolding sg4 mu14 sl by simp
  from h1 den sg mu show ?thesis by blast
qed
section \<open>Properties of the dataset\<close>

lemma prefetch_complete_graphs_edata:
  "prefetch_complete_graphs pw oid ns = Inr (gs, pw') \<Longrightarrow> \<forall>g \<in> set gs. edata g = []"
proof (induction ns arbitrary: pw oid gs)
  case Nil
  then show ?case by simp
next
  case (Cons n ns)
  from Cons.prems obtain p pw1 g rest where
    g: "dgl_graph (fst p) (snd p) None = Inr g"
    and r: "prefetch_complete_graphs pw1 (Suc oid) ns = Inr (rest, pw')" and eq: "gs = g # rest"
    by (auto split: sum.splits prod.splits)
  have "edata g = []" using g by (auto simp: dgl_graph_def Let_def split: if_splits)
  then show ?case using Cons.IH[OF r] eq by simp
qed

lemma init_record:
  assumes "QM9Dataset_init ev rts tt nf dev de pf tf dd = Inr ds"
  shows "\<exists>rts' mgs cgs pw1 oid1 mcgs pw2 oid2.
           check_return_types rts = Inr rts'
         \<and> init_mol_graphs rts' pf dd = Inr mgs
         \<and> init_complete_graphs rts' pf dd = Inr (cgs, pw1, oid1)
         \<and> init_mol_complete_graphs rts' pf pw1 oid1 dd = Inr (mcgs, pw2, oid2)
         \<and> dist_embedding ds = de
         \<and> prefetch_graphs ds = pf \<and> mol_graphs ds = mgs \<and> complete_graphs ds = cgs
         \<and> mol_complete_graphs ds = mcgs \<and> pairwise_dict ds = pw2
         \<and> tensor_count ds = oid2
         \<and> edge_indices ds = dd_edge_indices dd \<and> edge_slices ds = dd_edge_slices dd
         \<and> n_atoms_tab ds = dd_n_atoms dd"
proof -
  from assms obtain rts' tasks mgs cgs pw1 oid1 mcgs pw2 oid2 ts where
    "check_return_types rts = Inr rts'"
    "init_mol_graphs rts' pf dd = Inr mgs"
    "init_complete_graphs rts' pf dd = Inr (cgs, pw1, oid1)"
    "init_mol_complete_graphs rts' pf pw1 oid1 dd = Inr (mcgs, pw2, oid2)"
    "ds = \<lparr>return_types = rts', device = dev, dist_embedding = de,
                prefetch_graphs = pf, transform = tf,
                features_tensor = dd_atom_features dd,
                e_features_tensor = dd_edge_features dd,
                coordinates = dd_coordinates dd,
                edge_indices = dd_edge_indices dd,
                mol_id = dd_mol_id dd, edge_slices = dd_edge_slices dd,
                atom_slices = dd_atom_slices dd, n_atoms_tab = dd_n_atoms dd,
                atom_padding_indices = atom_feature_dims ev,
                bond_padding_indices = atom_feature_dims ev,
                eig_vals = (if ''san_graph'' \<in> set rts' then Some (dd_eig_vals dd) else None),
                eig_vecs = (if ''san_graph'' \<in> set rts' then Some (dd_eig_vecs dd) else None),
                smiles = (if ''smiles'' \<in> set rts' then Some (smiles_column ev) else None),
                mol_graphs = mgs, complete_graphs = cgs, mol_complete_graphs = mcgs,
                pairwise_dict = pw2, tensor_count = oid2, target_data = ts\<rparr>"
    unfolding QM9Dataset_init_def
    by (auto split: sum.splits prod.splits)
  then show ?thesis by simp
qed

lemma init_fields:
  assumes "QM9Dataset_init ev rts tt nf dev de pf tf dd = Inr ds"
  shows "dist_embedding ds = de" and "prefetch_graphs ds = pf"
    and "\<forall>gs. complete_graphs ds = Some gs \<longrightarrow> (\<forall>g \<in> set gs. edata g = [])"
proof -
  from init_record[OF assms] obtain rts' cgs pw1 oid1 where
    c: "init_complete_graphs rts' pf dd = Inr (cgs, pw1, oid1)"
    and d: "dist_embedding ds = de" "prefetch_graphs ds = pf" "complete_graphs ds = cgs"
    by auto
  show "dist_embedding ds = de" "prefetch_graphs ds = pf" using d by simp_all
  have "\<forall>gs. cgs = Some gs \<longrightarrow> (\<forall>g \<in> set gs. edata g = [])"
    using c prefetch_complete_graphs_edata unfolding init_complete_graphs_def
    by (fastforce split: if_splits sum.splits prod.splits)
  then show "\<forall>gs. complete_graphs ds = Some gs \<longrightarrow> (\<forall>g \<in> set gs. edata g = [])"
    using d by simp
qed

lemma then_do_None: "then_do (None, s) f = (case f s of Inl e \<Rightarrow> (Some e, s) | Inr s' \<Rightarrow> (None, s'))"
  by (simp add: then_do_def)

lemma then_do_Some: "then_do (Some e, s) f = (Some e, s)"
  by (simp add: then_do_def)

lemma map_of_assign_other: "k' \<noteq> k \<Longrightarrow> map_of (assign d k v) k' = map_of d k'"
  by (induction d) auto

lemma get_complete_graph_fresh:
  assumes init: "QM9Dataset_init ev rts tt nf dev de pf tf dd = Inr ds"
    and get: "get_complete_graph ds idx n = Inr (g, pw)"
  shows "edata g = []"
proof (cases "prefetch_graphs ds")
  case True
  then obtain gs where gs: "complete_graphs ds = Some gs" and g: "item_at gs idx = Inr g"
    using get unfolding get_complete_graph_def cached_def
    by (auto split: option.splits sum.splits)
  have "g \<in> set gs" using g by (auto simp: item_at_def split: if_splits)
  then show ?thesis using init_fields(3)[OF init] gs by blast
next
  case False
  then obtain p where "dgl_graph (fst p) (snd p) None = Inr g"
    using get unfolding get_complete_graph_def
    by (auto split: sum.splits prod.splits)
  then show ?thesis by (auto simp: dgl_graph_def Let_def split: if_splits)
qed

lemma set_ndata_edata: "set_ndata k rows g = Inr g' \<Longrightarrow> edata g' = edata g"
  by (auto simp: set_ndata_def split: if_splits)

lemma set_d_edata: "set_d x g = Inr g' \<Longrightarrow> edata g' = assign (edata g) ''d'' (the (map_of (edata g') ''d''))"
  by (auto simp: set_d_def set_edata_def map_of_assign_same split: sum.splits if_splits)

lemma set_d_no_feat:
  assumes "set_d x g = Inr g'" and "map_of (edata g) ''feat'' = None"
  shows "map_of (edata g') ''feat'' = None"
  using assms
  by (auto simp: set_d_def set_edata_def map_of_assign_other split: sum.splits if_splits)

lemma set_d_rbf_no_feat:
  "map_of (edata g) ''feat'' = None \<Longrightarrow> set_d_rbf ev g = Inl (KeyError ''feat'')"
  by (simp add: set_d_rbf_def lookup_def)

lemma complete_graph3d_branch_raises:
  assumes de: "dist_embedding ds"
    and fresh: "\<forall>g pw. get_complete_graph ds idx n = Inr (g, pw) \<longrightarrow> edata g = []"
  shows "\<exists>e. fst (complete_graph3d_branch ev ds idx start n) = Inl e"
    and "\<And>g pw g1 g2. get_complete_graph ds idx n = Inr (g, pw) \<Longrightarrow>
           set_ndata ''x'' (float_rows (slice start (start + tensor_value n) (coordinates ds))) g
             = Inr g1 \<Longrightarrow>
           set_d (slice start (start + tensor_value n) (coordinates ds)) g1 = Inr g2 \<Longrightarrow>
           fst (complete_graph3d_branch ev ds idx start n) = Inl (KeyError ''feat'')"
proof -
  let ?x = "slice start (start + tensor_value n) (coordinates ds)"
  have key: "\<And>g pw g1 g2. get_complete_graph ds idx n = Inr (g, pw) \<Longrightarrow>
           set_ndata ''x'' (float_rows ?x) g = Inr g1 \<Longrightarrow> set_d ?x g1 = Inr g2 \<Longrightarrow>
           fst (complete_graph3d_branch ev ds idx start n) = Inl (KeyError ''feat'')"
  proof -
    fix g pw g1 g2
    assume get: "get_complete_graph ds idx n = Inr (g, pw)"
      and s1: "set_ndata ''x'' (float_rows ?x) g = Inr g1" and s2: "set_d ?x g1 = Inr g2"
    have "edata g1 = []" using fresh get set_ndata_edata[OF s1] by simp
    then have "map_of (edata g2) ''feat'' = None" using set_d_no_feat[OF s2] by simp
    then have "set_d_rbf ev g2 = Inl (KeyError ''feat'')" by (rule set_d_rbf_no_feat)
    then show "fst (complete_graph3d_branch ev ds idx start n) = Inl (KeyError ''feat'')"
      using get s1 s2 de
      by (simp add: complete_graph3d_branch_def Let_def then_do_None then_do_Some
                    finish_complete_def outcome_def)
  qed
  show "\<And>g pw g1 g2. get_complete_graph ds idx n = Inr (g, pw) \<Longrightarrow>
           set_ndata ''x'' (float_rows ?x) g = Inr g1 \<Longrightarrow> set_d ?x g1 = Inr g2 \<Longrightarrow>
           fst (complete_graph3d_branch ev ds idx start n) = Inl (KeyError ''feat'')"
    by (rule key)
  show "\<exists>e. fst (complete_graph3d_branch ev ds idx start n) = Inl e"
  proof (cases "get_complete_graph ds idx n")
    case (Inl e)
    then show ?thesis by (simp add: complete_graph3d_branch_def)
  next
    case (Inr r)
    obtain g pw where r: "r = (g, pw)" by (cases r)
    note get = Inr[unfolded r]
    show ?thesis
    proof (cases "set_ndata ''x'' (float_rows ?x) g")
      case (Inl e)
      then show ?thesis using get
        by (simp add: complete_graph3d_branch_def Let_def then_do_None then_do_Some
                      finish_complete_def outcome_def)
    next
      case s1: (Inr g1)
      show ?thesis
      proof (cases "set_d ?x g1")
        case (Inl e)
        then show ?thesis using get s1
          by (simp add: complete_graph3d_branch_def Let_def then_do_None then_do_Some
                        finish_complete_def outcome_def)
      next
        case (Inr g2)
        then show ?thesis using key[OF get s1] by blast
      qed
    qed
  qed
qed

lemma feat_then_d_rbf:
  assumes "then_do (then_do (None, g3) (set_edata ''feat'' rows)) (set_d_rbf ev) = (None, g)"
  shows "lookup (edata g) ''feat'' = Inr rows \<and> lookup (edata g) ''d_rbf'' = Inr (dist_embedder ev rows)"
proof -
  from assms obtain g4 where g4: "set_edata ''feat'' rows g3 = Inr g4"
    and g: "set_d_rbf ev g4 = Inr g"
    by (auto simp: then_do_def split: sum.splits)
  have f4: "map_of (edata g4) ''feat'' = Some rows"
    using g4 by (auto simp: set_edata_def map_of_assign_same split: if_splits)
  then have "edata g = assign (edata g4) ''d_rbf'' (dist_embedder ev rows)"
    using g by (auto simp: set_d_rbf_def lookup_def set_edata_def split: if_splits)
  then show ?thesis using f4
    by (simp add: lookup_def map_of_assign_same map_of_assign_other)
qed

lemma outcome_Inr: "outcome err it = Inr it' \<longleftrightarrow> err = None \<and> it' = it"
  by (auto simp: outcome_def split: option.splits)

lemma complete_graph_branch_d_rbf:
  assumes de: "dist_embedding ds"
    and ret: "fst (complete_graph_branch ev ds idx e_start e_end start n) = Inr (Graph g)"
  shows "\<exists>feat. lookup (edata g) ''feat'' = Inr feat
            \<and> lookup (edata g) ''d_rbf'' = Inr (dist_embedder ev feat)"
proof -
  from ret de obtain g3 rows where
    "then_do (then_do (None, g3) (set_edata ''feat'' rows)) (set_d_rbf ev) = (None, g)"
    unfolding complete_graph_branch_def Let_def finish_complete_def
    by (auto simp: outcome_Inr prod_eq_iff split: sum.splits prod.splits option.splits)
  then show ?thesis using feat_then_d_rbf by blast
qed

lemma data_by_type_complete_graph3d:
  "data_by_type ev ds idx ''complete_graph3d'' e_start e_end start n
   = complete_graph3d_branch ev ds idx start n"
  by (simp add: data_by_type_def)

lemma data_by_type_complete_graph:
  "data_by_type ev ds idx ''complete_graph'' e_start e_end start n
   = complete_graph_branch ev ds idx e_start e_end start n"
  by (simp add: data_by_type_def)

text \<open>
  Claim C10. On a dataset constructed with \<open>dist_embedding\<close> enabled, \<open>data_by_type\<close>
  for \<open>complete_graph3d\<close> raises for every molecule and never returns a graph; once the
  positions and the distances are assigned, the error is the lookup error for the edge
  attribute \<open>feat\<close>, which the constructor's complete graphs do not carry. And where the
  \<open>complete_graph\<close> branch returns a graph, its embedding \<open>d_rbf\<close> is the embedder
  applied to the edge attribute \<open>feat\<close>, not to the distances \<open>d\<close>.
\<close>

theorem complete_graph3d_dist_embedding:
  assumes init: "QM9Dataset_init ev rts tt nf dev True pf tf dd = Inr ds"
  shows "(\<exists>e. fst (data_by_type ev ds idx ''complete_graph3d'' e_start e_end start n_atoms) = Inl e)
       \<and> (\<forall>g pw g1 g2.
             get_complete_graph ds idx n_atoms = Inr (g, pw)
             \<and> set_ndata ''x''
                   (float_rows (slice start (start + tensor_value n_atoms) (coordinates ds))) g
                 = Inr g1
             \<and> set_d (slice start (start + tensor_value n_atoms) (coordinates ds)) g1 = Inr g2
             \<longrightarrow> fst (data_by_type ev ds idx ''complete_graph3d'' e_start e_end start n_atoms)
                 = Inl (KeyError ''feat''))
       \<and> (\<forall>g. fst (data_by_type ev ds idx ''complete_graph'' e_start e_end start n_atoms)
                = Inr (Graph g)
             \<longrightarrow> (\<exists>feat. lookup (edata g) ''feat'' = Inr feat
                       \<and> lookup (edata g) ''d_rbf'' = Inr (dist_embedder ev feat)))"
proof -
  have de: "dist_embedding ds" using init_fields(1)[OF init] by simp
  have fresh: "\<forall>g pw. get_complete_graph ds idx n_atoms = Inr (g, pw) \<longrightarrow> edata g = []"
    using get_complete_graph_fresh[OF init] by blast
  note r = complete_graph3d_branch_raises[OF de fresh, where ev=ev and start=start]
  show ?thesis
    unfolding data_by_type_complete_graph3d data_by_type_complete_graph
    using r complete_graph_branch_d_rbf[OF de] by blast
qed

theorem complete_graph3d_dist_embedding_witness:
  "constructed (water_dataset [''complete_graph3d''] True True)
   \<and> access_type ogb_env (water_dataset [''complete_graph3d''] True True) 0
         ''complete_graph3d'' 0 4 0 3 = Inl (KeyError ''feat'')
   \<and> constructed (water_dataset_narrow [''complete_graph''] True False)
   \<and> access_type narrow_env (water_dataset_narrow [''complete_graph''] True False) 0
         ''complete_graph'' 0 4 0 3
       = Inr (Graph (water_complete
                [V [I 0, I 0, I 0], V [I 0, I 0, I 0], V [I 0, I 0, I 0],
                 V [I 0, I 0, I 0], V [I 0, I 0, I 0], V [I 0, I 0, I 0]]))
   \<and> lookup (edata (water_complete
                [V [I 0, I 0, I 0], V [I 0, I 0, I 0], V [I 0, I 0, I 0],
                 V [I 0, I 0, I 0], V [I 0, I 0, I 0], V [I 0, I 0, I 0]])) ''d_rbf''
       = Inr (dist_embedder narrow_env
                [V [I 0, I 0, I 0], V [I 0, I 0, I 0], V [I 0, I 0, I 0],
                 V [I 0, I 0, I 0], V [I 0, I 0, I 0], V [I 0, I 0, I 0]])"
proof -
  let ?W = "water_dataset [''complete_graph3d''] True True"
  let ?N = "water_dataset_narrow [''complete_graph''] True False"
  let ?rows = "[V [I 0, I 0, I 0], V [I 0, I 0, I 0], V [I 0, I 0, I 0],
                V [I 0, I 0, I 0], V [I 0, I 0, I 0], V [I 0, I 0, I 0]]"
  have cw: "constructed ?W" by code_simp
  have cn: "constructed ?N" by code_simp
  have aw: "access_type ogb_env ?W 0 ''complete_graph3d'' 0 4 0 3 = Inl (KeyError ''feat'')"
    by code_simp
  have an: "access_type narrow_env ?N 0 ''complete_graph'' 0 4 0 3
            = Inr (Graph (water_complete ?rows))"
    apply code_simp
    apply (simp add: float_sqrt_def)
    done
  have lf: "lookup (edata (water_complete ?rows)) ''feat'' = Inr ?rows"
    by code_simp
  from cn obtain ds where ds: "?N = Inr ds"
    by (auto simp: constructed_def split: sum.splits)
  then have init: "QM9Dataset_init narrow_env (Some [''complete_graph'']) (Some [''mu'']) False
                     ''cpu'' True False None water_dd = Inr ds"
    by (simp add: water_dataset_narrow_def)
  have ret: "fst (data_by_type narrow_env ds 0 ''complete_graph'' 0 4 0 (Tensor0 (tensor_count ds) 3))
             = Inr (Graph (water_complete ?rows))"
    using an ds by (simp add: access_type_def)
  from complete_graph3d_dist_embedding[OF init, of 0 0 4 0 "Tensor0 (tensor_count ds) 3"] ret
  obtain feat where "lookup (edata (water_complete ?rows)) ''feat'' = Inr feat"
    and "lookup (edata (water_complete ?rows)) ''d_rbf'' = Inr (dist_embedder narrow_env feat)"
    by blast
  then have "lookup (edata (water_complete ?rows)) ''d_rbf'' = Inr (dist_embedder narrow_env ?rows)"
    using lf by simp
  with cw cn aw an show ?thesis by blast
qed

lemma data_by_type_no_branch:
  "data_by_type ev ds idx ''pairwise_distances'' e_start e_end start n_atoms
     = (Inl (Exception ''return type not supported: ''), ds)"
  "data_by_type ev ds idx ''pairwise_distances_squared'' e_start e_end start n_atoms
     = (Inl (Exception ''return type not supported: ''), ds)"
  "data_by_type ev ds idx ''pairwise_indices'' e_start e_end start n_atoms
     = (Inl (Exception ''return type not supported: ''), ds)"
  "data_by_type ev ds idx ''dist_embedding'' e_start e_end start n_atoms
     = (Inl (Exception ''return type not supported: ''), ds)"
  "data_by_type ev ds idx ''one_hot_bond_types'' e_start e_end start n_atoms
     = (Inl (Exception ''return type not supported: ''), ds)"
  "data_by_type ev ds idx ''atomic_number_long'' e_start e_end start n_atoms
     = (Inl (Exception ''return type not supported: ''), ds)"
  "data_by_type ev ds idx ''edge_indices'' e_start e_end start n_atoms
     = (Inl (KeyError ''edge_indices''), ds)"
  by (simp_all add: data_by_type_def)

lemma validated_without_branch:
  "set [''pairwise_distances'', ''pairwise_distances_squared'', ''pairwise_indices'',
        ''dist_embedding'', ''one_hot_bond_types'', ''atomic_number_long'', ''edge_indices'']
   \<subseteq> set return_type_options"
  by code_simp

lemma collect_length:
  "collect ev ds idx e_start e_end start n_atoms rts = (Inr its, ds') \<Longrightarrow> length its = length rts"
proof (induction rts arbitrary: ds its)
  case Nil
  then show ?case by simp
next
  case (Cons rt rts)
  from Cons.prems obtain it ds1 rest where
    "collect ev ds1 idx e_start e_end start n_atoms rts = (Inr rest, ds')" and "its = it # rest"
    by (auto split: prod.splits sum.splits)
  then show ?case using Cons.IH by auto
qed

text \<open>
  Claim C3 fails on the code. The return type \<open>atomic_number_long\<close> is in the option list
  that the constructor validates against, and the class documentation lists it as data the
  dataset returns; the constructor accepts it, the dataset has one molecule, and the access
  at index 0 raises because \<open>data_by_type\<close> has no branch for it. The validated return
  type \<open>edge_indices\<close> raises as well: its branch asks \<open>meta_dict\<close> for a key it does not
  have.
\<close>

theorem validated_return_type_raises:
  "constructed (water_dataset [''atomic_number_long''] False False)
   \<and> 0 < dataset_len (water_dataset [''atomic_number_long''] False False)
   \<and> access ogb_env (water_dataset [''atomic_number_long''] False False) 0
       = Inl (Exception ''return type not supported: '')
   \<and> constructed (water_dataset [''edge_indices''] False False)
   \<and> access ogb_env (water_dataset [''edge_indices''] False False) 0
       = Inl (KeyError ''edge_indices'')"
  by code_simp

lemma prefetch_mol_graphs_nth:
  assumes "prefetch_mol_graphs ei es k ns = Inr gs"
  shows "length gs = length ns
       \<and> (\<forall>i < length ns. \<exists>e_start e_end.
             item_at es (k + i) = Inr e_start \<and> item_at es (k + i + 1) = Inr e_end
             \<and> dgl_graph (slice e_start e_end (fst ei)) (slice e_start e_end (snd ei))
                  (Some (ns ! i)) = Inr (gs ! i))"
  using assms
proof (induction ns arbitrary: k gs)
  case Nil
  then show ?case by simp
next
  case (Cons n ns)
  from Cons.prems obtain e_start e_end g rest where
    s: "item_at es k = Inr e_start" and e: "item_at es (k + 1) = Inr e_end"
    and g: "dgl_graph (slice e_start e_end (fst ei)) (slice e_start e_end (snd ei)) (Some n) = Inr g"
    and r: "prefetch_mol_graphs ei es (k + 1) ns = Inr rest" and eq: "gs = g # rest"
    by (auto split: sum.splits)
  note ih = Cons.IH[OF r]
  have "\<forall>i < length (n # ns). \<exists>e_start e_end.
             item_at es (k + i) = Inr e_start \<and> item_at es (k + i + 1) = Inr e_end
             \<and> dgl_graph (slice e_start e_end (fst ei)) (slice e_start e_end (snd ei))
                  (Some ((n # ns) ! i)) = Inr (gs ! i)"
  proof (intro allI impI)
    fix i assume i: "i < length (n # ns)"
    show "\<exists>e_start e_end.
             item_at es (k + i) = Inr e_start \<and> item_at es (k + i + 1) = Inr e_end
             \<and> dgl_graph (slice e_start e_end (fst ei)) (slice e_start e_end (snd ei))
                  (Some ((n # ns) ! i)) = Inr (gs ! i)"
    proof (cases i)
      case 0
      then show ?thesis using s e g eq by simp
    next
      case (Suc j)
      then have "j < length ns" using i by simp
      with ih show ?thesis using eq Suc by simp
    qed
  qed
  then show ?case using ih eq by simp
qed

lemma get_pairwise_inv:
  assumes ok: "pairwise_ok pw" and g: "get_pairwise pw n = Inr (p, pw1)"
  shows "compute_pairwise (tensor_value n) = Inr p" and "pairwise_ok pw1"
proof -
  obtain a b where p: "p = (a, b)" by (cases p)
  show "compute_pairwise (tensor_value n) = Inr p"
  proof (cases "pw n")
    case None
    then show ?thesis using g by (auto simp: get_pairwise_def split: sum.splits)
  next
    case (Some q)
    then have "q = p" using g by (simp add: get_pairwise_def)
    then show ?thesis using ok Some p by (simp add: pairwise_ok_def)
  qed
  then have "pairwise_ok (pw(n \<mapsto> p))" using ok p by (simp add: pairwise_ok_def)
  moreover have "pw1 = pw \<or> pw1 = pw(n \<mapsto> p)"
    using g by (auto simp: get_pairwise_def split: option.splits sum.splits)
  ultimately show "pairwise_ok pw1" using ok by auto
qed

lemma prefetch_complete_graphs_nth:
  assumes "prefetch_complete_graphs pw oid ns = Inr (gs, pw')" and "pairwise_ok pw"
  shows "pairwise_ok pw' \<and> length gs = length ns
       \<and> (\<forall>i < length ns. \<exists>p. compute_pairwise (ns ! i) = Inr p
             \<and> dgl_graph (fst p) (snd p) None = Inr (gs ! i))"
  using assms
proof (induction ns arbitrary: pw oid gs)
  case Nil
  then show ?case by simp
next
  case (Cons n ns)
  from Cons.prems(1) obtain p pw1 g rest where
    gp: "get_pairwise pw (Tensor0 oid n) = Inr (p, pw1)"
    and g: "dgl_graph (fst p) (snd p) None = Inr g"
    and r: "prefetch_complete_graphs pw1 (Suc oid) ns = Inr (rest, pw')" and eq: "gs = g # rest"
    by (auto split: sum.splits prod.splits)
  have cp: "compute_pairwise n = Inr p" and ok1: "pairwise_ok pw1"
    using get_pairwise_inv[OF Cons.prems(2) gp] by simp_all
  note ih = Cons.IH[OF r ok1]
  have "\<forall>i < length (n # ns). \<exists>p. compute_pairwise ((n # ns) ! i) = Inr p
             \<and> dgl_graph (fst p) (snd p) None = Inr (gs ! i)"
  proof (intro allI impI)
    fix i assume i: "i < length (n # ns)"
    show "\<exists>p. compute_pairwise ((n # ns) ! i) = Inr p
             \<and> dgl_graph (fst p) (snd p) None = Inr (gs ! i)"
    proof (cases i)
      case 0
      then show ?thesis using cp g eq by auto
    next
      case (Suc j)
      then have "j < length ns" using i by simp
      with ih show ?thesis using eq Suc by simp
    qed
  qed
  then show ?case using ih eq by simp
qed

lemma get_pairwise_ok:
  assumes "pairwise_ok pw" and "compute_pairwise (tensor_value n) = Inr p"
  shows "\<exists>pw'. get_pairwise pw n = Inr (p, pw')"
  using assms unfolding get_pairwise_def pairwise_ok_def
  by (cases "pw n") auto

text \<open>
  For the bonded and the complete topology the two modes agree: at the arguments that
  \<open>__getitem__\<close> passes, with \<open>n_atoms\<close> a tensor whose value is the molecule's atom
  count, the prefetched graph is the graph that the access builds without prefetching.
\<close>

lemma prefetch_agrees_bonded_and_complete:
  assumes init1: "QM9Dataset_init ev rts tt nf dev de True tf dd = Inr ds1"
    and init0: "QM9Dataset_init ev rts tt nf dev de False tf dd = Inr ds0"
    and idx: "idx < length (dd_n_atoms dd)"
    and s: "item_at (dd_edge_slices dd) idx = Inr e_start"
    and e: "item_at (dd_edge_slices dd) (idx + 1) = Inr e_end"
    and n: "item_at (dd_n_atoms dd) idx = Inr (tensor_value n_atoms)"
  shows "(mol_graphs ds1 \<noteq> None \<longrightarrow>
            get_graph ds1 idx e_start e_end n_atoms = get_graph ds0 idx e_start e_end n_atoms)
       \<and> (complete_graphs ds1 \<noteq> None \<longrightarrow>
            (\<exists>g pw1 pw0. get_complete_graph ds1 idx n_atoms = Inr (g, pw1)
                        \<and> get_complete_graph ds0 idx n_atoms = Inr (g, pw0)))"
proof (intro conjI impI)
  from init_record[OF init1] obtain rts' mgs cgs pw1 oid1 where r1:
    "check_return_types rts = Inr rts'"
    "init_mol_graphs rts' True dd = Inr mgs"
    "init_complete_graphs rts' True dd = Inr (cgs, pw1, oid1)"
    "prefetch_graphs ds1" "mol_graphs ds1 = mgs" "complete_graphs ds1 = cgs"
    by auto
  from init_record[OF init0] obtain cgs0 pw10 oid10 mcgs0 pw20 oid20 where r0:
    "init_complete_graphs rts' False dd = Inr (cgs0, pw10, oid10)"
    "init_mol_complete_graphs rts' False pw10 oid10 dd = Inr (mcgs0, pw20, oid20)"
    "\<not> prefetch_graphs ds0" "pairwise_dict ds0 = pw20"
    "edge_indices ds0 = dd_edge_indices dd"
    using r1(1) by auto
  have n_eq: "tensor_value n_atoms = dd_n_atoms dd ! idx" using n idx by (simp add: item_at_def)
  {
    assume "mol_graphs ds1 \<noteq> None"
    then obtain gs where gs: "mgs = Some gs" using r1(5) by auto
    then have p: "prefetch_mol_graphs (dd_edge_indices dd) (dd_edge_slices dd) 0 (dd_n_atoms dd) = Inr gs"
      using r1(2) unfolding init_mol_graphs_def by (auto split: if_splits sum.splits)
    from prefetch_mol_graphs_nth[OF p] idx s e
    have len: "length gs = length (dd_n_atoms dd)"
      and g: "dgl_graph (slice e_start e_end (fst (dd_edge_indices dd)))
                        (slice e_start e_end (snd (dd_edge_indices dd)))
                        (Some (dd_n_atoms dd ! idx)) = Inr (gs ! idx)"
      by auto
    have "get_graph ds1 idx e_start e_end n_atoms = Inr (gs ! idx)"
      using r1(4,5) gs len idx by (simp add: get_graph_def cached_def item_at_def)
    moreover have "get_graph ds0 idx e_start e_end n_atoms = Inr (gs ! idx)"
      using r0(3,5) g n_eq by (simp add: get_graph_def)
    ultimately show "get_graph ds1 idx e_start e_end n_atoms = get_graph ds0 idx e_start e_end n_atoms"
      by simp
  }
  {
    assume "complete_graphs ds1 \<noteq> None"
    then obtain gs where gs: "cgs = Some gs" using r1(6) by auto
    then obtain pw' where p: "prefetch_complete_graphs Map.empty 0 (dd_n_atoms dd) = Inr (gs, pw')"
      using r1(3) unfolding init_complete_graphs_def by (auto split: if_splits sum.splits prod.splits)
    have ok: "pairwise_ok Map.empty" by (simp add: pairwise_ok_def)
    from prefetch_complete_graphs_nth[OF p ok] idx obtain pr where
      len: "length gs = length (dd_n_atoms dd)"
      and cp: "compute_pairwise (dd_n_atoms dd ! idx) = Inr pr"
      and g: "dgl_graph (fst pr) (snd pr) None = Inr (gs ! idx)"
      by blast
    have a1: "get_complete_graph ds1 idx n_atoms = Inr (gs ! idx, pairwise_dict ds1)"
      using r1(4,6) gs len idx by (simp add: get_complete_graph_def cached_def item_at_def)
    have "pw20 = Map.empty"
      using r0(1,2) unfolding init_complete_graphs_def init_mol_complete_graphs_def by simp
    then have "pairwise_ok (pairwise_dict ds0)" using r0(4) ok by simp
    from get_pairwise_ok[OF this cp[folded n_eq]] obtain pw0 where
      "get_pairwise (pairwise_dict ds0) n_atoms = Inr (pr, pw0)" by blast
    then have "get_complete_graph ds0 idx n_atoms = Inr (gs ! idx, pw0)"
      using r0(3) g by (simp add: get_complete_graph_def)
    with a1 show "\<exists>g pw1 pw0. get_complete_graph ds1 idx n_atoms = Inr (g, pw1)
                        \<and> get_complete_graph ds0 idx n_atoms = Inr (g, pw0)"
      by blast
  }
qed

text \<open>
  Claim C2 fails on the code for the heterogeneous graph. For water, with two bonds, the
  prefetched graph's \<open>bond\<close> relation holds the six all-pairs edges, while the graph built
  on access holds the four directed bond edges; the access with prefetching then raises
  when the four bond feature rows are assigned to six edges.
\<close>

theorem prefetch_mol_complete_graph_differs:
  "mol_complete_graph_of (water_dataset [''mol_complete_graph''] False True) 0 0 4 3
     = Inr (water_hetero ([0, 0, 1, 1, 2, 2], [1, 2, 0, 2, 0, 1]) [] [])
   \<and> mol_complete_graph_of (water_dataset [''mol_complete_graph''] False False) 0 0 4 3
     = Inr (water_hetero ([0, 1, 0, 2], [1, 0, 2, 0]) [] [])
   \<and> access ogb_env (water_dataset [''mol_complete_graph''] False True) 0
     = Inl (DGLError ''expect one row per edge'')
   \<and> access ogb_env (water_dataset [''mol_complete_graph''] False False) 0
     = Inr [HeteroGraph (water_hetero ([0, 1, 0, 2], [1, 0, 2, 0])
              [(''feat'', [V [I 7, I 0, I 2, I 5, I 0, I 0, I 2, I 0, I 0],
                          V [I 0, I 0, I 1, I 5, I 0, I 0, I 5, I 0, I 0],
                          V [I 0, I 0, I 1, I 5, I 0, I 0, I 5, I 0, I 0]]),
               (''x'', [V [F (Some 0), F (Some 0), F (Some 0)],
                       V [F (Some 1), F (Some 0), F (Some 0)],
                       V [F (Some 0), F (Some 1), F (Some 0)]])]
              [(''feat'', [V [I 0, I 0, I 0], V [I 0, I 0, I 0],
                          V [I 0, I 0, I 0], V [I 0, I 0, I 0]])])]"
  by code_simp

text \<open>
  Claim C1 fails on the code. The constructor takes the padding row for bonds from the
  atom feature dimensions, nine entries, not from the bond feature dimensions; the
  \<open>complete_graph\<close> access then raises when the three-entry bond rows are assigned into
  the nine-entry padding rows, with and without prefetching, so no edge of the complete
  graph receives a feature.
\<close>

theorem complete_graph_edge_features_raise:
  "padding_of (water_dataset [''complete_graph''] False False) = Inr (atom_feature_dims ogb_env)
   \<and> atom_feature_dims ogb_env \<noteq> bond_feature_dims ogb_env
   \<and> access ogb_env (water_dataset [''complete_graph''] False False) 0
       = Inl (RuntimeError ''shape mismatch: value tensor cannot be broadcast to indexing result'')
   \<and> access ogb_env (water_dataset [''complete_graph''] False True) 0
       = Inl (RuntimeError ''shape mismatch: value tensor cannot be broadcast to indexing result'')"
  by code_simp

section \<open>Properties of the spectral data\<close>

lemma inv_sqrt_1: "inv_sqrt 1 = Some 1" by (simp add: inv_sqrt_def float_sqrt_def)
lemma inv_sqrt_4: "inv_sqrt 4 = Some (1 / 2)" by (simp add: inv_sqrt_def float_sqrt_def)

lemma methane_degrees: "map (\<lambda>j. inv_sqrt (col_sum methane_adj j)) [0..<5]
   = [Some (1/2), Some 1, Some 1, Some 1, Some 1]"
proof -
  have u: "[0..<5] = [0, 1, 2, 3, 4]" by code_simp
  show ?thesis unfolding u
    by (simp add: col_sum_def methane_adj_def inv_sqrt_1 inv_sqrt_4)
qed

lemma L_sym_methane: "L_sym methane_adj = map (map Some) (star 1 (1 / 4))"
proof -
  have u: "[0..<5] = [0, 1, 2, 3, 4]" by code_simp
  have n: "length methane_adj = 5" by (simp add: methane_adj_def)
  show ?thesis
    unfolding L_sym_def Let_def n methane_degrees
    unfolding u
    by (simp add: laplacian_def col_sum_def methane_adj_def eye_def fsub_def fmul_def star_def)
qed

lemma L_sym_spec_methane: "L_sym_spec methane_adj = map (map Some) (star (1 / 2) (1 / 2))"
proof -
  have u: "[0..<5] = [0, 1, 2, 3, 4]" by code_simp
  have n: "length methane_adj = 5" by (simp add: methane_adj_def)
  show ?thesis
    unfolding L_sym_spec_def Let_def n methane_degrees
    unfolding u
    by (simp add: laplacian_def col_sum_def methane_adj_def eye_def fsub_def fmul_def star_def)
qed

lemma upper_star: "upper_symmetric (star 1 (1 / 4)) = star 1 1"
proof -
  have u: "[0..<5] = [0, 1, 2, 3, 4]" by code_simp
  have n: "length (star 1 (1/4)) = 5" by (simp add: star_def)
  show ?thesis unfolding upper_symmetric_def n u by (simp add: star_def)
qed

lemma upper_star_spec: "upper_symmetric (star (1 / 2) (1 / 2)) = star (1 / 2) (1 / 2)"
proof -
  have u: "[0..<5] = [0, 1, 2, 3, 4]" by code_simp
  have n: "length (star (1/2) (1/2)) = 5" by (simp add: star_def)
  show ?thesis unfolding upper_symmetric_def n u by (simp add: star_def)
qed

lemma eig_code: "eigenpair (star 1 1) (- 2) [2, - 1, - 1, - 1, - 1]"
  by (simp add: eigenpair_def mat_vec_def star_def)

lemma length5: "length v = 5 \<Longrightarrow> \<exists>a b c d e. v = [a, b, c, d, e]"
  by (auto simp: length_Suc_conv eval_nat_numeral)

lemma no_eig_spec: "\<not> (\<exists>v. eigenpair (star (1 / 2) (1 / 2)) (- 2) v)"
proof
  assume "\<exists>v. eigenpair (star (1 / 2) (1 / 2)) (- 2) v"
  then obtain v where v: "eigenpair (star (1 / 2) (1 / 2)) (- 2) v" by blast
  then have "length v = 5" by (simp add: eigenpair_def star_def)
  then obtain a b c d e where abc: "v = [a, b, c, d, e]" using length5 by blast
  from v have eqs: "a / 2 = - 2 * b" "a / 2 = - 2 * c" "a / 2 = - 2 * d" "a / 2 = - 2 * e"
    "(b + c + d + e) / 2 = - 2 * a"
    unfolding abc by (simp_all add: eigenpair_def mat_vec_def star_def algebra_simps)
  then have "b = - a / 4" "c = - a / 4" "d = - a / 4" "e = - a / 4" by simp_all
  with eqs(5) have "a = 0" by simp
  with eqs have "b = 0" "c = 0" "d = 0" "e = 0" by simp_all
  with \<open>a = 0\<close> v abc show False by (simp add: eigenpair_def)
qed

lemma eig_spec: "eigenpair (star (1 / 2) (1 / 2)) (- 1) [2, - 1, - 1, - 1, - 1]"
  by (simp add: eigenpair_def mat_vec_def star_def)

text \<open>
  Claim C6 fails on the code. For methane the matrix handed to the eigensolver has the
  entries \<open>A[i][j] / d[j]\<close>: 1 from the carbon to a hydrogen and 1/4 back, where the
  specification's matrix has 1/2 both ways. The solver reads the upper triangle, the star
  with weight 1, which has the eigenvalue -2 (eigenvector \<open>(2, -1, -1, -1, -1)\<close>); -2 is
  not an eigenvalue of the specification's matrix, whose smallest eigenvalue is -1.
\<close>

theorem spectral_matrix_methane:
  "L_sym methane_adj = map (map Some) (star 1 (1 / 4))
   \<and> L_sym_spec methane_adj = map (map Some) (star (1 / 2) (1 / 2))
   \<and> upper_symmetric (star 1 (1 / 4)) = star 1 1
   \<and> eigenpair (star 1 1) (- 2) [2, - 1, - 1, - 1, - 1]
   \<and> \<not> (\<exists>v. eigenpair (star (1 / 2) (1 / 2)) (- 2) v)
   \<and> eigenpair (star (1 / 2) (1 / 2)) (- 1) [2, - 1, - 1, - 1, - 1]"
  using L_sym_methane L_sym_spec_methane upper_star eig_code no_eig_spec eig_spec
  by blast

end
